(* ===== verification/Prelude.thy ===== *)
theory Prelude
  imports Complex_Main "HOL-Library.AList" "HOL-Library.Char_ord" "HOL-Library.List_Lexorder"
    "HOL-Library.Product_Lexorder"
begin

text \<open>
  Shared vocabulary of the development: Python exceptions as values, results that may
  be an exception, dictionaries as insertion-ordered association lists, dynamically
  typed values as they come out of a JSON document, strings and their whitespace.

  Conventions used by every component theory:
  \<^item> a call that may raise returns \<open>exc + 'a\<close>: \<open>Inl\<close> is the exception
    raised, \<open>Inr\<close> the value returned. Message texts are not modelled, the class is;
  \<^item> a method that mutates its object takes the object's state and returns a pair of the
    result and the state it leaves, also when it raises, so a half-done update is visible;
  \<^item> a \<open>dict\<close> is an association list with distinct keys in insertion order;
    \<^const>\<open>AList.update\<close> is \<open>d[k] = v\<close> and \<^const>\<open>AList.delete\<close> is
    \<open>d.pop(k, None)\<close>;
  \<^item> strings are Python strings over the ASCII code points.
\<close>

section \<open>Hints\<close>

named_theorems model_simps \<open>unfolding rules of the model's small helper definitions\<close>

section \<open>Exceptions and results\<close>

datatype exc =
    ValueError | TypeError | KeyError | IndexError | LookupError | RuntimeError | AssertionError
  | AttributeError | OverflowError | InvalidOperation
  | WatermarkError | UnknownShardError
  | RealtimeIngestError | UnsupportedEventVersion | RedisStreamDecodeError
  | ConfigurationError | PortNotConfiguredError | MalformedEventError | UnknownCommandError
  | ExecutionCancelledError
  | ApprovalRefusedError string | UnknownCandidateError | ConflictingDecisionError
  | RegeneratorNotConfiguredError
  | InvalidInstrumentIdentity | InstrumentIdentityConflict | UnknownInstrument
  | SymbolAlreadyAssigned | SymbolNotAssigned
  | InvalidTradingSession | CalendarSourceDrift
  | UnknownCatalogTable | UnknownCatalogColumn | DuplicateAvailableManifest | PipelineRunNotFound
  | FeatureDefinitionNotPublished | PartialSnapshotBatch
  | SnapshotBatchNotConsumable bool
  | OtherError string

type_synonym 'a res = "exc + 'a"

definition bindE :: "'a res \<Rightarrow> ('a \<Rightarrow> 'b res) \<Rightarrow> 'b res" where
  "bindE m f = (case m of Inl e \<Rightarrow> Inl e | Inr x \<Rightarrow> f x)"

definition guardE :: "bool \<Rightarrow> exc \<Rightarrow> unit res" where
  "guardE c e = (if c then Inr () else Inl e)"

fun mapE :: "('a \<Rightarrow> 'b res) \<Rightarrow> 'a list \<Rightarrow> 'b list res" where
  "mapE f [] = Inr []"
| "mapE f (x # xs) = bindE (f x) (\<lambda>y. bindE (mapE f xs) (\<lambda>ys. Inr (y # ys)))"

fun is_ok :: "'a res \<Rightarrow> bool" where
  "is_ok (Inl e) = False"
| "is_ok (Inr x) = True"

lemma bindE_simps [simp]: "bindE (Inl e) f = Inl e" "bindE (Inr x) f = f x"
  by (simp_all add: bindE_def)

lemma bindE_eq_Inr [simp]: "bindE m f = Inr y \<longleftrightarrow> (\<exists>x. m = Inr x \<and> f x = Inr y)"
  by (cases m) (auto simp: bindE_def)

lemma bindE_eq_Inl: "bindE m f = Inl e \<longleftrightarrow> m = Inl e \<or> (\<exists>x. m = Inr x \<and> f x = Inl e)"
  by (cases m) (auto simp: bindE_def)

lemma guardE_eq_Inr [simp]: "guardE c e = Inr u \<longleftrightarrow> c"
  by (simp add: guardE_def)

lemma guardE_eq_Inl [simp]: "guardE c e = Inl e' \<longleftrightarrow> \<not> c \<and> e' = e"
  by (auto simp: guardE_def)

lemma guardE_simps [simp]: "guardE True e = Inr ()" "guardE False e = Inl e"
  by (simp_all add: guardE_def)

lemma is_ok_iff: "is_ok m \<longleftrightarrow> (\<exists>x. m = Inr x)"
  by (cases m) auto

lemma mapE_length: "mapE f xs = Inr ys \<Longrightarrow> length ys = length xs"
  by (induction xs arbitrary: ys) auto

lemma mapE_nth: "mapE f xs = Inr ys \<Longrightarrow> i < length xs \<Longrightarrow> f (xs ! i) = Inr (ys ! i)"
proof (induction xs arbitrary: ys i)
  case (Cons x xs)
  then show ?case by (cases i) auto
qed simp

lemma mapE_set: "mapE f xs = Inr ys \<Longrightarrow> y \<in> set ys \<Longrightarrow> \<exists>x\<in>set xs. f x = Inr y"
  by (induction xs arbitrary: ys) auto

lemma mapE_all_ok: "\<forall>x\<in>set xs. \<exists>y. f x = Inr y \<Longrightarrow> \<exists>ys. mapE f xs = Inr ys"
  by (induction xs) auto

section \<open>Dictionaries\<close>

type_synonym ('k, 'v) dict = "('k \<times> 'v) list"

definition dict_ok :: "('k, 'v) dict \<Rightarrow> bool" where
  "dict_ok d \<longleftrightarrow> distinct (map fst d)"

abbreviation dget :: "('k, 'v) dict \<Rightarrow> 'k \<Rightarrow> 'v option" where
  "dget d k \<equiv> map_of d k"

abbreviation dset :: "'k \<Rightarrow> 'v \<Rightarrow> ('k, 'v) dict \<Rightarrow> ('k, 'v) dict" where
  "dset \<equiv> AList.update"

abbreviation dpop :: "'k \<Rightarrow> ('k, 'v) dict \<Rightarrow> ('k, 'v) dict" where
  "dpop \<equiv> AList.delete"

definition has_key :: "('k, 'v) dict \<Rightarrow> 'k \<Rightarrow> bool" where
  "has_key d k \<longleftrightarrow> map_of d k \<noteq> None"

lemma dget_dset [simp]: "dget (dset k v d) j = (if j = k then Some v else dget d j)"
  by (simp add: update_conv)

lemma dget_dpop [simp]: "dget (dpop k d) j = (if j = k then None else dget d j)"
  by (simp add: delete_conv fun_upd_def)

lemma dict_ok_Nil [simp]: "dict_ok []"
  by (simp add: dict_ok_def)

lemma dict_ok_dset [simp]: "dict_ok d \<Longrightarrow> dict_ok (dset k v d)"
  by (simp add: dict_ok_def distinct_update)

lemma dict_ok_dpop [simp]: "dict_ok d \<Longrightarrow> dict_ok (dpop k d)"
  by (simp add: dict_ok_def distinct_delete)

lemma has_key_dset [simp]: "has_key (dset k v d) j \<longleftrightarrow> j = k \<or> has_key d j"
  by (simp add: has_key_def)

lemma has_key_dpop [simp]: "has_key (dpop k d) j \<longleftrightarrow> j \<noteq> k \<and> has_key d j"
  by (simp add: has_key_def)

lemma has_key_Nil [simp]: "\<not> has_key [] k"
  by (simp add: has_key_def)

lemma has_key_Cons [simp]: "has_key ((j, v) # d) k \<longleftrightarrow> j = k \<or> has_key d k"
  by (auto simp: has_key_def)

lemma has_key_append [simp]: "has_key (d @ e) k \<longleftrightarrow> has_key d k \<or> has_key e k"
  by (auto simp: has_key_def map_add_def split: option.splits)

lemma has_key_iff: "has_key d k \<longleftrightarrow> k \<in> fst ` set d"
  by (simp add: has_key_def map_of_eq_None_iff)

lemma dict_ok_filter: "dict_ok d \<Longrightarrow> dict_ok (filter P d)"
  by (simp add: dict_ok_def distinct_map_filter)

lemma dget_filter:
  "dict_ok d \<Longrightarrow>
   dget (filter (\<lambda>(k, v). P k v) d) k = (case dget d k of None \<Rightarrow> None | Some v \<Rightarrow> if P k v then Some v else None)"
proof (induction d)
  case (Cons a d)
  obtain k' v' where a: "a = (k', v')" by (cases a)
  have "dict_ok d" and notin: "k' \<notin> fst ` set d"
    using Cons.prems by (auto simp: dict_ok_def a)
  then show ?case
    using Cons.IH by (auto simp: a map_of_eq_None_iff[THEN iffD2] split: option.splits)
qed simp

lemma dget_in_set: "dict_ok d \<Longrightarrow> (k, v) \<in> set d \<longleftrightarrow> dget d k = Some v"
  by (simp add: dict_ok_def)

lemma set_dset:
  "set (dset k v d) = (if k \<in> fst ` set d then {p. p \<in> set (dset k v d)} else insert (k, v) (set d))"
  by (induction d) auto

lemma dset_new: "\<not> has_key d k \<Longrightarrow> dset k v d = d @ [(k, v)]"
  unfolding has_key_iff by (induction d) auto

lemma length_dset: "length (dset k v d) = (if has_key d k then length d else Suc (length d))"
  unfolding has_key_iff by (induction d) auto

lemma keys_dset: "map fst (dset k v d) = (if has_key d k then map fst d else map fst d @ [k])"
  unfolding has_key_iff by (induction d) auto

lemma in_set_dset: "(j, w) \<in> set (dset k v d) \<Longrightarrow> (j = k \<and> w = v) \<or> (j, w) \<in> set d"
  by (induction d) (auto split: if_splits)

section \<open>Dynamically typed values\<close>

text \<open>
  What \<open>json.loads\<close> (with \<open>parse_float=Decimal\<close> where the code asks for it) and the
  catalogs hand around. A finite binary float and a finite \<open>Decimal\<close> are the rational
  number they denote; a list and an object keep their order.
\<close>

datatype pyval =
    VNone
  | VBool bool
  | VInt int
  | VFloat rat
  | VDec rat
  | VStr string
  | VList "pyval list"
  | VMap "(string \<times> pyval) list"

type_synonym doc = "(string, pyval) dict"

section \<open>Strings\<close>

text \<open>\<open>str.isspace\<close> on ASCII, and \<open>str.strip\<close> with no argument.\<close>

definition py_isspace :: "char \<Rightarrow> bool" where
  "py_isspace c \<longleftrightarrow> of_char c \<in> ({9, 10, 11, 12, 13, 28, 29, 30, 31, 32} :: nat set)"

definition lstrip :: "string \<Rightarrow> string" where
  "lstrip s = dropWhile py_isspace s"

definition rstrip :: "string \<Rightarrow> string" where
  "rstrip s = rev (dropWhile py_isspace (rev s))"

definition strip :: "string \<Rightarrow> string" where
  "strip s = rstrip (lstrip s)"

definition blank :: "string \<Rightarrow> bool" where
  "blank s \<longleftrightarrow> strip s = []"

definition endswith :: "string \<Rightarrow> string \<Rightarrow> bool" where
  "endswith s t \<longleftrightarrow> length t \<le> length s \<and> drop (length s - length t) s = t"

lemma dropWhile_idem_hd: "dropWhile P (dropWhile P xs) = dropWhile P xs"
  by (induction xs) auto

lemma rev_dropWhile_hd:
  assumes "rev (dropWhile P (rev xs)) \<noteq> []"
  shows "hd (rev (dropWhile P (rev xs))) = hd xs"
proof -
  have "xs = rev (dropWhile P (rev xs)) @ rev (takeWhile P (rev xs))"
    by (metis rev_append rev_rev_ident takeWhile_dropWhile_id)
  then show ?thesis using assms by (metis hd_append2)
qed

lemma dropWhile_rstrip:
  "\<not> P (hd xs) \<or> xs = [] \<Longrightarrow> dropWhile P (rev (dropWhile P (rev xs))) = rev (dropWhile P (rev xs))"
  by (cases "rev (dropWhile P (rev xs)) = []")
     (auto simp: rev_dropWhile_hd dropWhile_eq_self_iff)

lemma lstrip_rstrip_lstrip: "lstrip (rstrip (lstrip s)) = rstrip (lstrip s)"
proof -
  have "\<not> py_isspace (hd (lstrip s)) \<or> lstrip s = []"
    using hd_dropWhile[of py_isspace s] by (auto simp: lstrip_def)
  then show ?thesis
    unfolding rstrip_def by (subst lstrip_def) (rule dropWhile_rstrip)
qed

lemma rstrip_rstrip: "rstrip (rstrip s) = rstrip s"
  by (simp add: rstrip_def dropWhile_idem_hd)

lemma strip_strip [simp]: "strip (strip s) = strip s"
  by (simp add: strip_def lstrip_rstrip_lstrip rstrip_rstrip)

lemma blank_strip [simp]: "blank (strip s) \<longleftrightarrow> blank s"
  by (simp add: blank_def)

lemma blank_Nil [simp]: "blank []"
  by (simp add: blank_def strip_def lstrip_def rstrip_def)

section \<open>Decimal digits\<close>

text \<open>\<open>str(n)\<close> of a natural number, and the zero-padded form of \<open>f"{n:0wd}"\<close>.\<close>

definition digit :: "nat \<Rightarrow> char" where
  "digit d = char_of (48 + d)"

fun digits_of :: "nat \<Rightarrow> string" where
  "digits_of n = (if n < 10 then [digit n] else digits_of (n div 10) @ [digit (n mod 10)])"

declare digits_of.simps [simp del]

definition int_str :: "int \<Rightarrow> string" where
  "int_str n = (if n < 0 then ''-'' @ digits_of (nat (- n)) else digits_of (nat n))"

definition zero_pad :: "nat \<Rightarrow> string \<Rightarrow> string" where
  "zero_pad w s = replicate (w - length s) (CHR ''0'') @ s"

fun join :: "string \<Rightarrow> string list \<Rightarrow> string" where
  "join sep [] = []"
| "join sep [s] = s"
| "join sep (s # t # ts) = s @ sep @ join sep (t # ts)"

text \<open>\<open>int(text)\<close> in base ten: blanks around, a sign, single underscores between digits.\<close>

definition digit_value :: "char \<Rightarrow> int option" where
  "digit_value c = (if (48::nat) \<le> of_char c \<and> of_char c \<le> (57::nat) then Some (of_char c - 48) else None)"

fun int_digits :: "bool \<Rightarrow> int \<Rightarrow> string \<Rightarrow> int option" where
  "int_digits after_digit acc [] = (if after_digit then Some acc else None)"
| "int_digits after_digit acc (c # cs) =
     (case digit_value c of
        Some v \<Rightarrow> int_digits True (10 * acc + v) cs
      | None \<Rightarrow> (if after_digit \<and> c = CHR ''_'' then int_digits False acc cs else None))"

definition py_int :: "string \<Rightarrow> int option" where
  "py_int s =
     (case strip s of
        [] \<Rightarrow> None
      | c # cs \<Rightarrow>
          (if c = CHR ''-'' then map_option uminus (int_digits False 0 cs)
           else if c = CHR ''+'' then int_digits False 0 cs
           else int_digits False 0 (c # cs)))"

lemma digits_of_nonempty [simp]: "digits_of n \<noteq> []"
  by (subst digits_of.simps) simp

text \<open>The same digits computed on \<open>int\<close>, for evaluation.\<close>

definition decimal_char :: "int \<Rightarrow> char" where
  "decimal_char d =
     (if d = 0 then CHR ''0'' else if d = 1 then CHR ''1'' else if d = 2 then CHR ''2'' else if d = 3 then CHR ''3''
      else if d = 4 then CHR ''4'' else if d = 5 then CHR ''5'' else if d = 6 then CHR ''6'' else if d = 7 then CHR ''7''
      else if d = 8 then CHR ''8'' else CHR ''9'')"

function decimal_text :: "int \<Rightarrow> string \<Rightarrow> string" where
  "decimal_text n acc =
     (if n < 10 then decimal_char n # acc else decimal_text (n div 10) (decimal_char (n mod 10) # acc))"
  by pat_completeness auto
termination by (relation "measure (\<lambda>(n, _). nat n)") auto

declare decimal_text.simps [simp del]

lemma decimal_char_digit: "0 \<le> d \<Longrightarrow> d < 10 \<Longrightarrow> decimal_char d = digit (nat d)"
proof -
  assume "0 \<le> d" "d < 10"
  then have "d = 0 \<or> d = 1 \<or> d = 2 \<or> d = 3 \<or> d = 4 \<or> d = 5 \<or> d = 6 \<or> d = 7 \<or> d = 8 \<or> d = 9" by presburger
  then show ?thesis by (elim disjE; hypsubst; code_simp)
qed

lemma decimal_text_digits: "0 \<le> n \<Longrightarrow> decimal_text n acc = digits_of (nat n) @ acc"
proof (induction n acc rule: decimal_text.induct)
  case (1 n acc)
  have small: "nat n < 10 \<longleftrightarrow> n < 10" using 1 by linarith
  show ?case
  proof (cases "n < 10")
    case True
    then show ?thesis using 1 by (simp add: decimal_text.simps[of n] digits_of.simps[of "nat n"] decimal_char_digit)
  next
    case False
    have "nat (n div 10) = nat n div 10" "nat (n mod 10) = nat n mod 10" "0 \<le> n div 10"
      using 1 by (simp_all add: nat_div_distrib nat_mod_distrib)
    then show ?thesis using False small 1(1)[OF False]
      unfolding decimal_text.simps[of n acc] digits_of.simps[of "nat n"]
      by (simp add: decimal_char_digit del: decimal_text.simps)
  qed
qed

lemma int_str_code [code]:
  "int_str n = (if n < 0 then CHR ''-'' # decimal_text (- n) [] else decimal_text n [])"
  by (simp add: int_str_def decimal_text_digits)

section \<open>Maxima with Python's tie-breaking\<close>

text \<open>
  \<open>max(xs, key=f)\<close> keeps the first element that attains the maximum and
  \<open>sorted(xs, key=f)\<close> is stable; \<^const>\<open>sort_key\<close> is the latter.
\<close>

fun max_by :: "('a \<Rightarrow> 'k::linorder) \<Rightarrow> 'a \<Rightarrow> 'a list \<Rightarrow> 'a" where
  "max_by f b [] = b"
| "max_by f b (x # xs) = max_by f (if f b < f x then x else b) xs"

lemma max_by_in: "max_by f b xs \<in> insert b (set xs)"
proof (induction xs arbitrary: b)
  case (Cons x xs)
  show ?case using Cons[of "if f b < f x then x else b"] by (auto split: if_splits)
qed simp

lemma max_by_ge_base: "f b \<le> f (max_by f b xs)"
proof (induction xs arbitrary: b)
  case (Cons x xs)
  show ?case using Cons[of "if f b < f x then x else b"] by (auto split: if_splits)
qed simp

lemma max_by_ge: "y \<in> set xs \<Longrightarrow> f y \<le> f (max_by f b xs)"
proof (induction xs arbitrary: b)
  case (Cons x xs)
  show ?case
  proof (cases "y = x")
    case True
    have "f x \<le> f (if f b < f x then x else b)" by auto
    also have "\<dots> \<le> f (max_by f (if f b < f x then x else b) xs)" by (rule max_by_ge_base)
    finally show ?thesis using True by simp
  next
    case False
    then show ?thesis using Cons by simp
  qed
qed simp

definition dedup_sorted :: "'a::linorder list \<Rightarrow> 'a list" where
  "dedup_sorted xs = sort (remdups xs)"

lemma set_dedup_sorted [simp]: "set (dedup_sorted xs) = set xs"
  by (simp add: dedup_sorted_def)

lemma distinct_dedup_sorted [simp]: "distinct (dedup_sorted xs)"
  by (simp add: dedup_sorted_def)

lemma sorted_dedup_sorted [simp]: "sorted (dedup_sorted xs)"
  by (simp add: dedup_sorted_def)

end
