(* ===== verification/Calendar.thy ===== *)
theory Calendar
  imports Prelude
begin

text \<open>
  Dates and instants. A \<open>date\<close> is its proleptic Gregorian ordinal
  (\<open>date.toordinal()\<close>: 1 is 0001-01-01), an aware \<open>datetime\<close> is the
  number of microseconds since 1970-01-01T00:00Z, so Python's comparisons and
  \<open>timedelta\<close> arithmetic are those of \<open>int\<close>. The civil fields of a
  date are computed as CPython's \<open>datetime\<close> module does.

  What the code takes from the time-zone database, from \<open>hashlib\<close> and from
  \<open>uuid\<close> is the record \<open>env\<close>, an argument of the definitions that use it.
\<close>

type_synonym date = int
type_synonym instant = int

section \<open>The civil calendar\<close>

definition is_leap :: "int \<Rightarrow> bool" where
  "is_leap y \<longleftrightarrow> y mod 4 = 0 \<and> (y mod 100 \<noteq> 0 \<or> y mod 400 = 0)"

definition days_before_year :: "int \<Rightarrow> int" where
  "days_before_year y = (y - 1) * 365 + (y - 1) div 4 - (y - 1) div 100 + (y - 1) div 400"

definition month_offset :: "int \<Rightarrow> int" where
  "month_offset m = (if m \<le> 1 then 0 else if m = 2 then 31 else if m = 3 then 59 else if m = 4 then 90
     else if m = 5 then 120 else if m = 6 then 151 else if m = 7 then 181 else if m = 8 then 212
     else if m = 9 then 243 else if m = 10 then 273 else if m = 11 then 304 else if m = 12 then 334
     else 365)"

definition days_before_month :: "bool \<Rightarrow> int \<Rightarrow> int" where
  "days_before_month leap m = month_offset m + (if m > 2 \<and> leap then 1 else 0)"

definition ymd2ord :: "int \<Rightarrow> int \<Rightarrow> int \<Rightarrow> date" where
  "ymd2ord y m d = days_before_year y + days_before_month (is_leap y) m + d"

definition year_length :: "int \<Rightarrow> int" where
  "year_length y = (if is_leap y then 366 else 365)"

definition year_of :: "date \<Rightarrow> int" where
  "year_of n =
     (let n0 = n - 1;
          n400 = n0 div 146097; r400 = n0 mod 146097;
          n100 = r400 div 36524; r100 = r400 mod 36524;
          n4 = r100 div 1461; r4 = r100 mod 1461;
          n1 = r4 div 365;
          y = n400 * 400 + 1 + n100 * 100 + n4 * 4 + n1
      in if n1 = 4 \<or> n100 = 4 then y - 1 else y)"

definition yday :: "date \<Rightarrow> int" where
  "yday n = n - 1 - days_before_year (year_of n)"

definition month_in_year :: "bool \<Rightarrow> int \<Rightarrow> int" where
  "month_in_year leap k =
     (let m = (k + 50) div 32 in if days_before_month leap m > k then m - 1 else m)"

definition month_of :: "date \<Rightarrow> int" where
  "month_of n = month_in_year (is_leap (year_of n)) (yday n)"

definition day_of :: "date \<Rightarrow> int" where
  "day_of n = yday n - days_before_month (is_leap (year_of n)) (month_of n) + 1"

definition weekday :: "date \<Rightarrow> int" where
  "weekday n = (n + 6) mod 7"

definition max_ordinal :: int where
  "max_ordinal = 3652059"

lemma div_step:
  fixes y k :: int
  assumes "0 < k"
  shows "y div k = (y - 1) div k + (if y mod k = 0 then 1 else 0)"
proof -
  define q where "q = (y - 1) div k"
  define r where "r = (y - 1) mod k"
  have y: "y = k * q + (r + 1)" using mult_div_mod_eq[of k "y - 1"] by (simp add: q_def r_def)
  have r: "0 \<le> r" "r < k" using assms by (simp_all add: r_def)
  show ?thesis
  proof (cases "r + 1 = k")
    case True
    then have yk: "y = k * (q + 1) + 0" using y by (simp add: algebra_simps)
    have "y div k = q + 1" by (rule int_div_pos_eq[OF yk]) (use assms in auto)
    moreover have "y mod k = 0" by (rule int_mod_pos_eq[OF yk]) (use assms in auto)
    ultimately show ?thesis by (simp add: q_def)
  next
    case False
    have "y div k = q" by (rule int_div_pos_eq[OF y]) (use r False in auto)
    moreover have "y mod k = r + 1" by (rule int_mod_pos_eq[OF y]) (use r False in auto)
    ultimately show ?thesis using r by (simp add: q_def)
  qed
qed

lemma days_before_year_Suc: "days_before_year (y + 1) = days_before_year y + year_length y"
proof -
  define a b c where "a = (y - 1) div 4" and "b = (y - 1) div 100" and "c = (y - 1) div 400"
  define P Q R where "P \<longleftrightarrow> y mod 4 = 0" and "Q \<longleftrightarrow> y mod 100 = 0" and "R \<longleftrightarrow> y mod 400 = 0"
  have "y div 4 = a + (if P then 1 else 0)" "y div 100 = b + (if Q then 1 else 0)"
    "y div 400 = c + (if R then 1 else 0)"
    unfolding a_def b_def c_def P_def Q_def R_def by (rule div_step; simp)+
  then have "days_before_year (y + 1) = y * 365 + (a + (if P then 1 else 0)) - (b + (if Q then 1 else 0))
      + (c + (if R then 1 else 0))"
    by (simp only: days_before_year_def add_diff_cancel_right')
  moreover have "days_before_year y = (y - 1) * 365 + a - b + c"
    by (simp only: days_before_year_def a_def b_def c_def)
  moreover have "year_length y = (if P \<and> (\<not> Q \<or> R) then 366 else 365)"
    by (simp only: year_length_def is_leap_def P_def Q_def R_def)
  moreover have "Q \<Longrightarrow> P" "R \<Longrightarrow> Q"
    unfolding P_def Q_def R_def mod_eq_0_iff_dvd by (erule dvd_trans[rotated], simp)+
  ultimately show ?thesis by (cases P; cases Q; cases R) simp_all
qed

lemma year_length_pos: "365 \<le> year_length y" "year_length y \<le> 366"
  by (auto simp: year_length_def)

lemma days_before_year_add: "days_before_year y + 365 * int k \<le> days_before_year (y + int k)"
proof (induction k)
  case (Suc k)
  have "days_before_year (y + int (Suc k)) = days_before_year (y + int k) + year_length (y + int k)"
    using days_before_year_Suc[of "y + int k"] by (simp add: ac_simps)
  then show ?case using Suc year_length_pos(1)[of "y + int k"] by simp
qed simp

lemma days_before_year_mono: "y < y' \<Longrightarrow> days_before_year y + year_length y \<le> days_before_year y'"
proof -
  assume "y < y'"
  then obtain k where "y' = (y + 1) + int k" by (metis add.commute zle_iff_zadd zless_imp_add1_zle)
  then show ?thesis using days_before_year_add[of "y + 1" k] days_before_year_Suc[of y] by simp
qed

text \<open>The year CPython computes is the one whose days bracket the ordinal.\<close>

lemma year_of_bounds: "days_before_year (year_of n) < n \<and> n \<le> days_before_year (year_of n + 1)"
proof -
  define n0 where "n0 = n - 1"
  define q where "q = n0 div 146097"  define r where "r = n0 mod 146097"
  define c where "c = r div 36524"    define s where "s = r mod 36524"
  define f where "f = s div 1461"     define t where "t = s mod 1461"
  define o1 where "o1 = t div 365"     define u where "u = t mod 365"
  define y where "y = q * 400 + 1 + c * 100 + f * 4 + o1"
  note eqs = mult_div_mod_eq[of 146097 n0] mult_div_mod_eq[of 36524 r] mult_div_mod_eq[of 1461 s]
    mult_div_mod_eq[of 365 t]
  note eqs' = eqs[folded q_def r_def c_def s_def f_def t_def o1_def u_def, folded r_def s_def t_def u_def]
  have n: "n = 146097 * q + 36524 * c + 1461 * f + 365 * o1 + u + 1"
    using eqs' by (simp add: n0_def)
  have rb: "0 \<le> r" "r < 146097" by (simp_all add: r_def)
  have sb: "0 \<le> s" "s < 36524" by (simp_all add: s_def)
  have tb: "0 \<le> t" "t < 1461" by (simp_all add: t_def)
  have ub: "0 \<le> u" "u < 365" by (simp_all add: u_def)
  have cb: "0 \<le> c" "c \<le> 4" and cs: "c = 4 \<Longrightarrow> s = 0"
    using rb sb eqs'(2) by linarith+
  have fb: "0 \<le> f" "f \<le> 24" and f24: "f = 24 \<Longrightarrow> t < 1460"
    using sb tb eqs'(3) by linarith+
  have ob: "0 \<le> o1" "o1 \<le> 4" and o4: "o1 = 4 \<Longrightarrow> u = 0"
    using tb ub eqs'(4) by linarith+
  have o4f: "o1 = 4 \<Longrightarrow> f \<noteq> 24" using f24 ub eqs'(4) by auto
  have yof: "year_of n = (if o1 = 4 \<or> c = 4 then y - 1 else y)"
    unfolding year_of_def y_def o1_def t_def f_def s_def c_def r_def q_def n0_def Let_def by simp
  show ?thesis
  proof (cases "c = 4")
    case True
    have z: "s = 0" "f = 0" "t = 0" "o1 = 0" "u = 0"
      using cs[OF True] by (simp_all add: f_def t_def o1_def u_def)
    have yy: "year_of n = q * 400 + 400" using True z yof by (simp add: y_def)
    have "(q * 400 + 399) div 4 = q * 100 + 99" "(q * 400 + 399) div 100 = q * 4 + 3"
      "(q * 400 + 399) div 400 = q"
      by (rule int_div_pos_eq[where r = 3] int_div_pos_eq[where r = 99] int_div_pos_eq[where r = 399]; simp)+
    then have "days_before_year (year_of n) = 146097 * q + 145731"
      by (simp add: yy days_before_year_def)
    moreover have "is_leap (year_of n)" unfolding yy is_leap_def by (simp add: mod_eq_0_iff_dvd)
    ultimately show ?thesis using n True z days_before_year_Suc[of "year_of n"]
      by (simp add: year_length_def)
  next
    case False
    define e where "e = (if o1 = 4 then 3 else o1)"
    have eb: "0 \<le> e" "e \<le> 3" using ob by (auto simp: e_def)
    have c3: "c \<le> 3" using cb False by simp
    have yy: "year_of n = q * 400 + c * 100 + f * 4 + e + 1"
      using False yof by (simp add: y_def e_def)
    have d4: "(q * 400 + c * 100 + f * 4 + e) div 4 = q * 100 + c * 25 + f"
      by (rule int_div_pos_eq[where r = e]) (use eb in auto)
    have d100: "(q * 400 + c * 100 + f * 4 + e) div 100 = q * 4 + c"
      by (rule int_div_pos_eq[where r = "f * 4 + e"]) (use eb fb in auto)
    have d400: "(q * 400 + c * 100 + f * 4 + e) div 400 = q"
      by (rule int_div_pos_eq[where r = "c * 100 + f * 4 + e"]) (use eb fb c3 cb in auto)
    have "year_of n - 1 = q * 400 + c * 100 + f * 4 + e" using yy by simp
    then have "days_before_year (year_of n) = (q * 400 + c * 100 + f * 4 + e) * 365
        + (q * 100 + c * 25 + f) - (q * 4 + c) + q"
      by (simp only: days_before_year_def d4 d100 d400)
    then have dby: "days_before_year (year_of n) = 146097 * q + 36524 * c + 1461 * f + 365 * e"
      by simp
    have leap4: "is_leap (year_of n)" if "o1 = 4"
    proof -
      have e3: "e = 3" using that by (simp add: e_def)
      have f23: "f \<le> 23" using o4f[OF that] fb by simp
      have "(q * 400 + c * 100 + f * 4 + 4) mod 4 = 0" by (simp add: mod_eq_0_iff_dvd)
      moreover have "(q * 400 + c * 100 + f * 4 + 4) mod 100 = f * 4 + 4"
        by (rule int_mod_pos_eq[where q = "q * 4 + c"]) (use f23 fb in auto)
      then have "(q * 400 + c * 100 + f * 4 + 4) mod 100 \<noteq> 0" using fb by simp
      moreover have "year_of n = q * 400 + c * 100 + f * 4 + 4" using yy e3 by simp
      ultimately show ?thesis unfolding is_leap_def by (simp only:) blast
    qed
    show ?thesis
      using n dby ub ob o4 leap4 days_before_year_Suc[of "year_of n"] year_length_pos(1)[of "year_of n"]
      by (cases "o1 = 4") (auto simp: e_def year_length_def)
  qed
qed

lemma year_of_eqI:
  assumes "days_before_year y < n" "n \<le> days_before_year (y + 1)"
  shows "year_of n = y"
proof (rule ccontr)
  assume "year_of n \<noteq> y"
  then consider "year_of n + 1 \<le> y" | "y + 1 \<le> year_of n" by linarith
  then show False
    using assms year_of_bounds[of n] days_before_year_mono[of "year_of n" y]
      days_before_year_mono[of y "year_of n"] days_before_year_Suc[of y]
      days_before_year_Suc[of "year_of n"]
    by cases auto
qed

lemma yday_bounds: "0 \<le> yday n" "yday n < year_length (year_of n)"
  using year_of_bounds[of n] days_before_year_Suc[of "year_of n"] by (auto simp: yday_def)

text \<open>The month CPython computes brackets the day of the year: 366 cases per kind of year.\<close>

definition month_ok :: "bool \<Rightarrow> int \<Rightarrow> bool" where
  "month_ok leap k \<longleftrightarrow> (let m = month_in_year leap k in
     1 \<le> m \<and> m \<le> 12 \<and> days_before_month leap m \<le> k \<and>
     k < (if m = 12 then (if leap then 366 else 365) else days_before_month leap (m + 1)))"

lemma days_before_month_numeral [simp]:
  "days_before_month leap 1 = 0" "days_before_month leap 2 = 31"
  "days_before_month leap 3 = (if leap then 60 else 59)"
  "days_before_month leap 4 = (if leap then 91 else 90)"
  "days_before_month leap 5 = (if leap then 121 else 120)"
  "days_before_month leap 6 = (if leap then 152 else 151)"
  "days_before_month leap 7 = (if leap then 182 else 181)"
  "days_before_month leap 8 = (if leap then 213 else 212)"
  "days_before_month leap 9 = (if leap then 244 else 243)"
  "days_before_month leap 10 = (if leap then 274 else 273)"
  "days_before_month leap 11 = (if leap then 305 else 304)"
  "days_before_month leap 12 = (if leap then 335 else 334)"
  by (simp_all add: days_before_month_def month_offset_def)

lemma month_ok_all:
  assumes "0 \<le> k" "k < (if leap then 366 else 365)"
  shows "month_ok leap k"
proof -
  define m where "m = (k + 50) div 32"
  have m: "32 * m \<le> k + 50" "k + 50 < 32 * m + 32"
    using mult_div_mod_eq[of 32 "k + 50"] pos_mod_bound[of 32 "k + 50"] pos_mod_sign[of 32 "k + 50"]
    unfolding m_def by linarith+
  have mb: "1 \<le> m" "m \<le> 12" using m assms by (simp_all split: if_splits)
  have "m = 1 \<or> m = 2 \<or> m = 3 \<or> m = 4 \<or> m = 5 \<or> m = 6 \<or> m = 7 \<or> m = 8 \<or> m = 9
      \<or> m = 10 \<or> m = 11 \<or> m = 12"
    using mb by presburger
  then show ?thesis
    unfolding month_ok_def month_in_year_def m_def[symmetric] Let_def
    using m assms
    by (elim disjE; cases leap) simp_all
qed

lemma month_of_bounds:
  "1 \<le> month_of n" "month_of n \<le> 12"
  "days_before_month (is_leap (year_of n)) (month_of n) \<le> yday n"
  "yday n < (if month_of n = 12 then year_length (year_of n)
     else days_before_month (is_leap (year_of n)) (month_of n + 1))"
  using month_ok_all[of "yday n" "is_leap (year_of n)"] yday_bounds[of n]
  by (auto simp: month_ok_def month_of_def year_length_def Let_def split: if_splits)

text \<open>\<open>date.fromordinal(n)\<close> and \<open>date(y, m, d)\<close> are inverse.\<close>

lemma ymd2ord_of_date: "ymd2ord (year_of n) (month_of n) (day_of n) = n"
  by (simp add: ymd2ord_def day_of_def yday_def)

lemma days_before_month_step:
  "1 \<le> m \<Longrightarrow> m < 12 \<Longrightarrow> days_before_month leap m + 28 \<le> days_before_month leap (m + 1)"
proof -
  assume a: "1 \<le> m" "m < 12"
  then have "m = 1 \<or> m = 2 \<or> m = 3 \<or> m = 4 \<or> m = 5 \<or> m = 6 \<or> m = 7 \<or> m = 8 \<or> m = 9
      \<or> m = 10 \<or> m = 11" by presburger
  then show ?thesis by (elim disjE) simp_all
qed

lemma days_before_month_add:
  "1 \<le> m \<Longrightarrow> m + int k \<le> 12 \<Longrightarrow> days_before_month leap m \<le> days_before_month leap (m + int k)"
proof (induction k)
  case (Suc k)
  then show ?case using days_before_month_step[of "m + int k" leap] by (simp add: ac_simps)
qed simp

lemma days_before_month_mono:
  assumes "1 \<le> m" "m < m'" "m' \<le> 12"
  shows "days_before_month leap (m + 1) \<le> days_before_month leap m'"
proof -
  obtain k where "m' = (m + 1) + int k"
    using assms(2) by (metis add.commute zle_iff_zadd zless_imp_add1_zle)
  then show ?thesis using days_before_month_add[of "m + 1" k leap] assms by simp
qed

lemma days_before_month_bounds:
  "0 \<le> days_before_month leap m" "days_before_month leap m \<le> 366"
  by (simp_all add: days_before_month_def month_offset_def)

end
