(* ===== verification/Contracts.thy ===== *)
theory Contracts
  imports Calendar
begin

text \<open>
  \<open>market_pipeline_lib/contracts.py\<close>: the dataset contracts, the instrument map, the
  deterministic identifiers and shards, and the partition rules every other component
  keys its objects by.

  \<open>env\<close> holds what comes from outside the repository: the America/New\_York rules of the
  time-zone database (\<open>et_date\<close>, \<open>et_midnight\<close>), ISO-8601 parsing
  (\<open>fromisoformat\<close>), \<open>uuid.UUID\<close> (\<open>uuid_parse\<close>, the canonical text of an accepted
  one), \<open>uuid.uuid5\<close> under the project's namespace, and SHA-256.
\<close>

datatype iso_result = IsoInvalid | IsoNaive instant | IsoAware instant

record env =
  et_date :: "instant \<Rightarrow> date"
  et_midnight :: "date \<Rightarrow> instant"
  fromisoformat :: "string \<Rightarrow> iso_result"
  date_fromisoformat :: "string \<Rightarrow> date option"
  uuid_parse :: "string \<Rightarrow> string option"
  uuid5 :: "string \<Rightarrow> string"
  sha256_head :: "string \<Rightarrow> nat"

section \<open>Text forms\<close>

definition isoformat_date :: "date \<Rightarrow> string" where
  "isoformat_date d = zero_pad 4 (int_str (year_of d)) @ ''-'' @ zero_pad 2 (int_str (month_of d))
     @ ''-'' @ zero_pad 2 (int_str (day_of d))"

definition epoch_ordinal :: int where
  "epoch_ordinal = 719163"

definition day_micros :: int where
  "day_micros = 86400000000"

definition iso_utc :: "instant \<Rightarrow> string" where
  "iso_utc t =
     (let d = t div day_micros; r = t mod day_micros; s = r div 1000000; u = r mod 1000000
      in isoformat_date (epoch_ordinal + d) @ ''T'' @ zero_pad 2 (int_str (s div 3600)) @ '':''
         @ zero_pad 2 (int_str (s mod 3600 div 60)) @ '':'' @ zero_pad 2 (int_str (s mod 60))
         @ (if u = 0 then [] else ''.'' @ zero_pad 6 (int_str u)) @ ''Z'')"

text \<open>The same texts with every intermediate value computed once, for evaluation.\<close>

definition year_last :: "int \<Rightarrow> int \<Rightarrow> int \<Rightarrow> int" where
  "year_last n100 n1 y = (if n1 = 4 \<or> n100 = 4 then y - 1 else y)"

definition year_in_4 :: "int \<Rightarrow> int \<Rightarrow> int \<Rightarrow> int \<Rightarrow> int" where
  "year_in_4 base n100 n4 n1 = year_last n100 n1 (base + n100 * 100 + n4 * 4 + n1)"

definition year_in_100 :: "int \<Rightarrow> int \<Rightarrow> int \<Rightarrow> int" where
  "year_in_100 base n100 r100 = year_in_4 base n100 (r100 div 1461) (r100 mod 1461 div 365)"

definition year_in_400 :: "int \<Rightarrow> int \<Rightarrow> int" where
  "year_in_400 base r400 = year_in_100 base (r400 div 36524) (r400 mod 36524)"

lemma year_of_code [code]: "year_of n = year_in_400 ((n - 1) div 146097 * 400 + 1) ((n - 1) mod 146097)"
  by (simp add: year_of_def year_in_400_def year_in_100_def year_in_4_def year_last_def Let_def)

definition two_digits :: "int \<Rightarrow> string" where "two_digits n = zero_pad 2 (int_str n)"

definition civil_month :: "int \<Rightarrow> bool \<Rightarrow> int \<Rightarrow> int \<Rightarrow> string" where
  "civil_month y leap k m =
     zero_pad 4 (int_str y) @ ''-'' @ two_digits m @ ''-'' @ two_digits (k - days_before_month leap m + 1)"

definition civil_day :: "int \<Rightarrow> bool \<Rightarrow> int \<Rightarrow> string" where
  "civil_day y leap k = civil_month y leap k (month_in_year leap k)"

definition civil_text :: "date \<Rightarrow> int \<Rightarrow> string" where
  "civil_text d y = civil_day y (is_leap y) (d - 1 - days_before_year y)"

lemma isoformat_date_code [code]: "isoformat_date d = civil_text d (year_of d)"
  by (simp add: isoformat_date_def civil_text_def civil_day_def civil_month_def two_digits_def month_of_def day_of_def yday_def)

definition clock_text :: "int \<Rightarrow> int \<Rightarrow> string" where
  "clock_text s u =
     two_digits (s div 3600) @ '':'' @ two_digits (s mod 3600 div 60) @ '':'' @ two_digits (s mod 60) @
     (if u = 0 then [] else ''.'' @ zero_pad 6 (int_str u)) @ ''Z''"

definition time_text :: "int \<Rightarrow> string" where
  "time_text r = clock_text (r div 1000000) (r mod 1000000)"

lemma iso_utc_code [code]: "iso_utc t = isoformat_date (epoch_ordinal + t div day_micros) @ ''T'' @ time_text (t mod day_micros)"
  by (simp add: iso_utc_def time_text_def clock_text_def two_digits_def Let_def)

definition ascii_upper :: "char \<Rightarrow> char" where
  "ascii_upper c = (if (97::nat) \<le> of_char c \<and> of_char c \<le> (122::nat) then char_of (of_char c - (32::nat)) else c)"

definition replace_char :: "char \<Rightarrow> char \<Rightarrow> string \<Rightarrow> string" where
  "replace_char a b s = map (\<lambda>c. if c = a then b else c) s"

section \<open>Dataset contracts\<close>

record dataset_contract =
  dc_price_type :: string
  dc_data_layer :: string
  dc_resolution :: string
  dc_feed_code :: string
  dc_source_resolution :: string

definition mk_contract :: "string \<Rightarrow> string \<Rightarrow> string \<Rightarrow> string \<Rightarrow> dataset_contract" where
  "mk_contract p l r f = \<lparr>dc_price_type = p, dc_data_layer = l, dc_resolution = r, dc_feed_code = f,
     dc_source_resolution = ''30m''\<rparr>"

definition contract_key :: "dataset_contract \<Rightarrow> string \<times> string \<times> string" where
  "contract_key c = (dc_price_type c, dc_data_layer c, dc_resolution c)"

definition has_source_minutes :: "dataset_contract \<Rightarrow> bool" where
  "has_source_minutes c \<longleftrightarrow> dc_data_layer c = ''DERIVED''"

definition logical_code :: "dataset_contract \<Rightarrow> string" where
  "logical_code c = dc_feed_code c @ '':'' @ dc_data_layer c @ '':'' @ dc_resolution c"

definition RAW_FEED :: string where "RAW_FEED = ''ALPACA_SIP_RAW_30M''"

definition ADJUSTED_FEED :: string where "ADJUSTED_FEED = ''ALPACA_SIP_ADJUSTED_30M''"

definition RAW_1M_FEED :: string where "RAW_1M_FEED = ''ALPACA_SIP_RAW_1M''"

definition FEED_METADATA :: "(string, string \<times> string) dict" where
  "FEED_METADATA =
    [(RAW_FEED, (''30m'', ''alpaca-sip-raw-v1'')),
     (ADJUSTED_FEED, (''30m'', ''alpaca-sip-adjustment-all-v1'')),
     (RAW_1M_FEED, (''1m'', ''alpaca-sip-raw-1m-v1''))]"

definition contract_values :: "dataset_contract list" where
  "contract_values =
     [mk_contract ''raw'' ''RAW'' ''30m'' RAW_FEED,
      mk_contract ''adjusted'' ''ADJUSTED'' ''30m'' ADJUSTED_FEED,
      mk_contract ''raw'' ''RAW'' ''1m'' RAW_1M_FEED]
     @ concat (map (\<lambda>(p, f). map (\<lambda>r. mk_contract p ''DERIVED'' r f) [''1h'', ''4h'', ''1d''])
         [(''raw'', RAW_FEED), (''adjusted'', ADJUSTED_FEED)])"

definition DATASET_CONTRACTS :: "(string \<times> string \<times> string, dataset_contract) dict" where
  "DATASET_CONTRACTS = fold (\<lambda>c. dset (contract_key c) c) contract_values []"

definition selected_contracts :: "string \<Rightarrow> string \<Rightarrow> string \<Rightarrow> dataset_contract list" where
  "selected_contracts price_type resolution layer =
     sort_key contract_key
       (filter (\<lambda>c. (price_type = ''all'' \<or> dc_price_type c = price_type) \<and>
                    (resolution = ''all'' \<or> dc_resolution c = resolution) \<and>
                    (layer = ''all'' \<or> dc_data_layer c = layer))
         (map snd DATASET_CONTRACTS))"

record schema_field =
  sf_name :: string
  sf_type :: string
  sf_nullable :: bool

definition sfield :: "string \<Rightarrow> string \<Rightarrow> bool \<Rightarrow> schema_field" where
  "sfield n t b = \<lparr>sf_name = n, sf_type = t, sf_nullable = b\<rparr>"

definition bar_schema :: "bool \<Rightarrow> schema_field list" where
  "bar_schema derived =
     [sfield ''instrument_id'' ''string'' False,
      sfield ''provider_symbol'' ''string'' False,
      sfield ''bar_start_at'' ''timestamp[us, UTC]'' False,
      sfield ''session_date_et'' ''date32'' False,
      sfield ''open'' ''float64'' False,
      sfield ''high'' ''float64'' False,
      sfield ''low'' ''float64'' False,
      sfield ''close'' ''float64'' False,
      sfield ''volume'' ''int64'' False,
      sfield ''trade_count'' ''int64'' True,
      sfield ''vwap'' ''float64'' True]
     @ (if derived then [sfield ''source_minutes'' ''int16'' False] else [])"

section \<open>The instrument map\<close>

record instrument_mapping =
  im_provider_symbol :: string
  im_instrument_id :: string
  im_provider_reference :: "string option"
  im_asset_type :: "string option"
  im_primary_exchange_mic :: "string option"
  im_currency_code :: "string option"
  im_listed_at :: "string option"
  im_delisted_at :: "string option"
  im_symbol_effective_from :: "string option"

definition canonical_provider_symbol :: "string \<Rightarrow> string" where
  "canonical_provider_symbol v = replace_char (CHR ''/'') (CHR ''.'') (map ascii_upper (strip v))"

definition safe_provider_symbol :: "string \<Rightarrow> string" where
  "safe_provider_symbol v = replace_char (CHR ''.'') (CHR ''-'') (canonical_provider_symbol v)"

text \<open>
  A row of \<open>csv.DictReader\<close>: a missing trailing cell is \<open>None\<close>. \<open>row.get(c) or None\<close> is
  \<open>cell_or_none\<close>.
\<close>

type_synonym csv_row = "(string, string option) dict"

definition cell_or_none :: "csv_row \<Rightarrow> string \<Rightarrow> string option" where
  "cell_or_none row c = (case dget row c of Some (Some v) \<Rightarrow> (if v = [] then None else Some v) | _ \<Rightarrow> None)"

definition mapping_of_row :: "env \<Rightarrow> csv_row \<Rightarrow> instrument_mapping res" where
  "mapping_of_row E row =
     (case dget row ''provider_symbol'' of
        None \<Rightarrow> Inl KeyError
      | Some None \<Rightarrow> Inl AttributeError
      | Some (Some raw) \<Rightarrow>
          let symbol = canonical_provider_symbol raw in
          if symbol = [] then Inl ValueError
          else case dget row ''instrument_id'' of
              None \<Rightarrow> Inl KeyError
            | Some None \<Rightarrow> Inl ValueError
            | Some (Some t) \<Rightarrow>
                (case uuid_parse E (strip t) of
                   None \<Rightarrow> Inl ValueError
                 | Some u \<Rightarrow> Inr
                     \<lparr>im_provider_symbol = symbol, im_instrument_id = u,
                      im_provider_reference = cell_or_none row ''provider_reference'',
                      im_asset_type = cell_or_none row ''asset_type'',
                      im_primary_exchange_mic = cell_or_none row ''primary_exchange_mic'',
                      im_currency_code = cell_or_none row ''currency_code'',
                      im_listed_at = cell_or_none row ''listed_at'',
                      im_delisted_at = cell_or_none row ''delisted_at'',
                      im_symbol_effective_from = cell_or_none row ''symbol_effective_from''\<rparr>))"

fun load_rows :: "env \<Rightarrow> csv_row list \<Rightarrow> (string, instrument_mapping) dict
    \<Rightarrow> (string, instrument_mapping) dict res" where
  "load_rows E [] m = Inr m"
| "load_rows E (row # rows) m =
     bindE (mapping_of_row E row) (\<lambda>im.
       if has_key m (im_provider_symbol im) then Inl ValueError
       else load_rows E rows (dset (im_provider_symbol im) im m))"

definition load_instrument_map ::
    "env \<Rightarrow> string list option \<Rightarrow> csv_row list \<Rightarrow> (string, instrument_mapping) dict res" where
  "load_instrument_map E fieldnames rows =
     (case fieldnames of
        None \<Rightarrow> Inl ValueError
      | Some fs \<Rightarrow>
          if ''provider_symbol'' \<in> set fs \<and> ''instrument_id'' \<in> set fs then load_rows E rows []
          else Inl ValueError)"

section \<open>Deterministic identifiers and shards\<close>

definition deterministic_uuid :: "env \<Rightarrow> string list \<Rightarrow> string" where
  "deterministic_uuid E vs = uuid5 E (join ''|'' vs)"

definition stable_shard_number :: "env \<Rightarrow> string \<Rightarrow> int \<Rightarrow> int res" where
  "stable_shard_number E instrument_id shard_count =
     (if shard_count \<le> 0 then Inl ValueError
      else case uuid_parse E instrument_id of
          None \<Rightarrow> Inl ValueError
        | Some canonical \<Rightarrow> Inr (int (sha256_head E canonical) mod shard_count))"

definition stable_shard_key :: "env \<Rightarrow> string \<Rightarrow> int \<Rightarrow> string res" where
  "stable_shard_key E instrument_id shard_count =
     bindE (stable_shard_number E instrument_id shard_count) (\<lambda>n.
       let width = max 2 (length (int_str (shard_count - 1)))
       in Inr (''s'' @ zero_pad width (int_str n) @ ''-of-'' @ int_str shard_count))"

section \<open>Partitions\<close>

datatype date_like = DDate date | DAware instant | DNaive instant | DText string

definition as_date :: "env \<Rightarrow> date_like \<Rightarrow> date res" where
  "as_date E v = (case v of
      DDate d \<Rightarrow> Inr d
    | DAware t \<Rightarrow> Inr (et_date E t)
    | DNaive t \<Rightarrow> Inr (epoch_ordinal + t div day_micros)
    | DText s \<Rightarrow> (case date_fromisoformat E s of None \<Rightarrow> Inl ValueError | Some d \<Rightarrow> Inr d))"

definition days_in_month :: "int \<Rightarrow> int \<Rightarrow> int" where
  "days_in_month y m =
     (if m = 12 then 31 else days_before_month (is_leap y) (m + 1) - days_before_month (is_leap y) m)"

definition mk_date :: "int \<Rightarrow> int \<Rightarrow> int \<Rightarrow> date res" where
  "mk_date y m d =
     (if 1 \<le> y \<and> y \<le> 9999 \<and> 1 \<le> m \<and> m \<le> 12 \<and> 1 \<le> d \<and> d \<le> days_in_month y m
      then Inr (ymd2ord y m d) else Inl ValueError)"

definition add_days :: "date \<Rightarrow> int \<Rightarrow> date res" where
  "add_days d k = (if 1 \<le> d + k \<and> d + k \<le> max_ordinal then Inr (d + k) else Inl OverflowError)"

definition partition_of :: "date \<Rightarrow> string \<Rightarrow> (date \<times> date) res" where
  "partition_of current granularity =
     (if granularity = ''DAY'' then
        bindE (add_days current 1) (\<lambda>end. Inr (current, end))
      else if granularity = ''WEEK'' then
        bindE (add_days current (- weekday current)) (\<lambda>start.
        bindE (add_days start 7) (\<lambda>end. Inr (start, end)))
      else if granularity = ''MONTH'' then
        bindE (mk_date (year_of current) (month_of current) 1) (\<lambda>start.
        bindE (if month_of start = 12 then mk_date (year_of start + 1) 1 1
               else mk_date (year_of start) (month_of start + 1) 1) (\<lambda>end. Inr (start, end)))
      else if granularity = ''YEAR'' then
        bindE (mk_date (year_of current) 1 1) (\<lambda>start.
        bindE (mk_date (year_of current + 1) 1 1) (\<lambda>end. Inr (start, end)))
      else Inl ValueError)"

definition partition_bounds :: "env \<Rightarrow> date_like \<Rightarrow> string \<Rightarrow> (date \<times> date) res" where
  "partition_bounds E v granularity = bindE (as_date E v) (\<lambda>cur. partition_of cur granularity)"

definition partition_utc_bounds :: "env \<Rightarrow> date_like \<Rightarrow> string \<Rightarrow> (instant \<times> instant) res" where
  "partition_utc_bounds E v granularity =
     bindE (partition_bounds E v granularity) (\<lambda>(start, end). Inr (et_midnight E start, et_midnight E end))"

definition PROVIDER_CODE :: string where "PROVIDER_CODE = ''ALPACA''"

definition logical_dataset_id :: "env \<Rightarrow> dataset_contract \<Rightarrow> int \<Rightarrow> string" where
  "logical_dataset_id E c year =
     deterministic_uuid E [''dataset'', PROVIDER_CODE, dc_feed_code c, dc_data_layer c,
       dc_resolution c, int_str year]"

definition object_key :: "dataset_contract \<Rightarrow> string \<Rightarrow> int \<Rightarrow> string \<Rightarrow> date \<Rightarrow> date \<Rightarrow> string \<Rightarrow> int \<Rightarrow> string res" where
  "object_key c dataset_id revision granularity partition_start partition_end shard_key part_number =
     (if revision \<le> 0 \<or> part_number \<le> 0 then Inl ValueError
      else Inr (join ''/''
        [''market-data'',
         ''provider='' @ PROVIDER_CODE,
         ''feed='' @ dc_feed_code c,
         ''dataset='' @ dataset_id,
         ''revision='' @ int_str revision,
         ''layer='' @ dc_data_layer c,
         ''resolution='' @ dc_resolution c,
         ''granularity='' @ granularity,
         ''partition_start='' @ isoformat_date partition_start,
         ''partition_end='' @ isoformat_date partition_end,
         ''shard='' @ shard_key,
         ''part-'' @ zero_pad 5 (int_str part_number) @ ''.parquet'']))"

section \<open>Partition facts\<close>

lemma day_of_bounds: "1 \<le> day_of n" "day_of n \<le> days_in_month (year_of n) (month_of n)"
  using month_of_bounds[of n] by (auto simp: day_of_def days_in_month_def year_length_def split: if_splits)

lemma mk_date_eq:
  "mk_date y m d = Inr n \<Longrightarrow> n = ymd2ord y m d \<and> 1 \<le> y \<and> y \<le> 9999 \<and> 1 \<le> m \<and> m \<le> 12 \<and> 1 \<le> d"
  by (auto simp: mk_date_def split: if_splits)

lemma mk_date_first: "1 \<le> y \<Longrightarrow> y \<le> 9999 \<Longrightarrow> 1 \<le> m \<Longrightarrow> m \<le> 12 \<Longrightarrow> mk_date y m 1 = Inr (ymd2ord y m 1)"
  using days_before_month_step[of m "is_leap y"]
  by (cases "m = 12") (auto simp: mk_date_def days_in_month_def)

lemma year_of_ymd:
  assumes "1 \<le> m" "m \<le> 12"
  shows "year_of (ymd2ord y m 1) = y"
proof (rule year_of_eqI)
  show "days_before_year y < ymd2ord y m 1"
    using days_before_month_bounds(1)[of "is_leap y" m] by (simp add: ymd2ord_def)
  have "days_before_month (is_leap y) m + 1 \<le> 335 + 1"
    using days_before_month_add[of m "nat (12 - m)" "is_leap y"] assms by (simp split: if_splits)
  then show "ymd2ord y m 1 \<le> days_before_year (y + 1)"
    using days_before_year_Suc[of y] year_length_pos(1)[of y] by (simp add: ymd2ord_def)
qed

lemma month_of_eqI:
  assumes "1 \<le> m" "m \<le> 12" "days_before_month (is_leap (year_of n)) m \<le> yday n"
    "yday n < (if m = 12 then year_length (year_of n) else days_before_month (is_leap (year_of n)) (m + 1))"
  shows "month_of n = m"
proof (rule ccontr)
  assume "month_of n \<noteq> m"
  then consider "month_of n < m" | "m < month_of n" by linarith
  then show False
    using assms month_of_bounds[of n] days_before_month_mono[of m "month_of n" "is_leap (year_of n)"]
      days_before_month_mono[of "month_of n" m "is_leap (year_of n)"]
    by cases (auto split: if_splits)
qed

lemma month_of_ymd:
  assumes "1 \<le> m" "m \<le> 12"
  shows "month_of (ymd2ord y m 1) = m"
proof (rule month_of_eqI[OF assms])
  have y: "yday (ymd2ord y m 1) = days_before_month (is_leap y) m"
    using year_of_ymd[OF assms, of y] by (simp add: yday_def ymd2ord_def)
  show "days_before_month (is_leap (year_of (ymd2ord y m 1))) m \<le> yday (ymd2ord y m 1)"
    by (simp add: y year_of_ymd[OF assms])
  show "yday (ymd2ord y m 1) < (if m = 12 then year_length (year_of (ymd2ord y m 1))
     else days_before_month (is_leap (year_of (ymd2ord y m 1))) (m + 1))"
    unfolding y year_of_ymd[OF assms]
    using days_before_month_step[of m "is_leap y"] year_length_pos(1)[of y] assms
    by (cases "m = 12") auto
qed

text \<open>The first day of the month after \<open>(y, m)\<close>.\<close>

definition next_month :: "int \<Rightarrow> int \<Rightarrow> date" where
  "next_month y m = (if m = 12 then ymd2ord (y + 1) 1 1 else ymd2ord y (m + 1) 1)"

lemma partition_month:
  "partition_of n ''MONTH'' = Inr (s, e) \<Longrightarrow>
   s = ymd2ord (year_of n) (month_of n) 1 \<and> e = next_month (year_of n) (month_of n)"
  using month_of_bounds(1,2)[of n] year_of_ymd[of "month_of n" "year_of n"]
    month_of_ymd[of "month_of n" "year_of n"]
  by (auto simp: partition_of_def next_month_def dest!: mk_date_eq split: if_splits)

lemma partition_year:
  "partition_of n ''YEAR'' = Inr (s, e) \<Longrightarrow> s = ymd2ord (year_of n) 1 1 \<and> e = ymd2ord (year_of n + 1) 1 1"
  by (auto simp: partition_of_def dest!: mk_date_eq)

lemma partition_week:
  "partition_of n ''WEEK'' = Inr (s, e) \<Longrightarrow> s = n - weekday n \<and> e = n - weekday n + 7"
  by (auto simp: partition_of_def add_days_def split: if_splits)

lemma partition_day: "partition_of n ''DAY'' = Inr (s, e) \<Longrightarrow> s = n \<and> e = n + 1"
  by (auto simp: partition_of_def add_days_def split: if_splits)

lemma partition_granularity:
  "partition_of n g = Inr p \<Longrightarrow> g = ''DAY'' \<or> g = ''WEEK'' \<or> g = ''MONTH'' \<or> g = ''YEAR''"
  by (auto simp: partition_of_def split: if_splits)

lemma weekday_bounds: "0 \<le> weekday n" "weekday n < 7"
  by (simp_all add: weekday_def)

lemma month_contains: "ymd2ord (year_of n) (month_of n) 1 \<le> n \<and> n < next_month (year_of n) (month_of n)"
  using month_of_bounds[of n] days_before_year_Suc[of "year_of n"]
  by (auto simp: next_month_def ymd2ord_def yday_def)

lemma year_contains: "ymd2ord (year_of n) 1 1 \<le> n \<and> n < ymd2ord (year_of n + 1) 1 1"
  using year_of_bounds[of n] by (simp add: ymd2ord_def)

lemma same_year: "ymd2ord y 1 1 \<le> n \<Longrightarrow> n < ymd2ord (y + 1) 1 1 \<Longrightarrow> year_of n = y"
  by (rule year_of_eqI) (simp_all add: ymd2ord_def)

lemma same_month:
  assumes "1 \<le> m" "m \<le> 12" "ymd2ord y m 1 \<le> n" "n < next_month y m"
  shows "year_of n = y \<and> month_of n = m"
proof -
  have b: "0 \<le> days_before_month (is_leap y) m" by (rule days_before_month_bounds)
  have nm: "next_month y m \<le> days_before_year (y + 1) + 1"
  proof (cases "m = 12")
    case False
    then have "days_before_month (is_leap y) (m + 1) \<le> 335"
      using days_before_month_add[of "m + 1" "nat (11 - m)" "is_leap y"] assms(1,2)
      by (simp split: if_splits)
    then show ?thesis using False days_before_year_Suc[of y] year_length_pos(1)[of y]
      by (simp add: next_month_def ymd2ord_def)
  qed (simp add: next_month_def ymd2ord_def)
  have y: "year_of n = y" by (rule year_of_eqI) (use assms(3,4) b nm in \<open>auto simp: ymd2ord_def\<close>)
  have "month_of n = m"
    by (rule month_of_eqI[OF assms(1,2)])
       (use assms(3,4) y days_before_year_Suc[of y] in \<open>auto simp: yday_def ymd2ord_def next_month_def\<close>)
  with y show ?thesis by simp
qed

lemma same_week:
  assumes "n - weekday n \<le> d" "d < n - weekday n + 7"
  shows "d - weekday d = n - weekday n"
proof -
  define k where "k = d - (n - weekday n)"
  have k: "0 \<le> k" "k < 7" using assms by (simp_all add: k_def)
  have "n + 6 - weekday n = 7 * ((n + 6) div 7)"
    by (simp only: weekday_def minus_mod_eq_mult_div)
  then have d: "d + 6 = 7 * ((n + 6) div 7) + k" by (simp add: k_def)
  have "weekday d = k" unfolding weekday_def by (rule int_mod_pos_eq[OF d]) (use k in auto)
  then show ?thesis by (simp add: k_def)
qed

lemma partition_contains: "partition_of n g = Inr (s, e) \<Longrightarrow> s \<le> n \<and> n < e"
  using partition_granularity[of n g "(s, e)"] partition_day[of n s e] partition_week[of n s e]
    partition_month[of n s e] partition_year[of n s e] weekday_bounds[of n] month_contains[of n]
    year_contains[of n] by auto

lemma partition_same:
  assumes p: "partition_of n g = Inr (s, e)" and d: "s \<le> d" "d < e"
  shows "partition_of d g = Inr (s, e)"
proof -
  consider "g = ''DAY''" | "g = ''WEEK''" | "g = ''MONTH''" | "g = ''YEAR''"
    using partition_granularity[OF p] by blast
  then show ?thesis
  proof cases
    case 1
    then have "d = n" using p d partition_day[of n s e] by simp
    then show ?thesis using p by simp
  next
    case 2
    then have se: "s = n - weekday n" "e = n - weekday n + 7" using p partition_week[of n s e] by auto
    then have "d - weekday d = n - weekday n" using d same_week[of n d] by simp
    then show ?thesis using p 2 by (simp add: partition_of_def add_days_def split: if_splits)
  next
    case 3
    then have "s = ymd2ord (year_of n) (month_of n) 1" "e = next_month (year_of n) (month_of n)"
      using p partition_month[of n s e] by auto
    then have "year_of d = year_of n \<and> month_of d = month_of n"
      using d same_month[of "month_of n" "year_of n" d] month_of_bounds[of n] by simp
    then show ?thesis using p 3 by (simp add: partition_of_def)
  next
    case 4
    then have "year_of d = year_of n"
      using p d partition_year[of n s e] same_year[of "year_of n" d] by simp
    then show ?thesis using p 4 by (simp add: partition_of_def)
  qed
qed

text \<open>\<open>partition_bounds\<close> puts a date into the half-open partition that contains it, and
  every date of that partition gets the very same bounds: for each granularity the partitions
  tile the calendar, so no bar belongs to two partitions.\<close>

theorem partition_bounds_tile:
  assumes "partition_bounds E (DDate n) g = Inr (s, e)"
  shows "s \<le> n \<and> n < e \<and> (s \<le> d \<and> d < e \<longrightarrow> partition_bounds E (DDate d) g = Inr (s, e))"
  using assms partition_contains[of n g s e] partition_same[of n g s e d]
  by (simp add: partition_bounds_def as_date_def)

section \<open>A concrete environment, for the witnesses\<close>

definition demo_env :: env where
  "demo_env = \<lparr>et_date = (\<lambda>t. epoch_ordinal + t div day_micros),
     et_midnight = (\<lambda>d. (d - epoch_ordinal) * day_micros), fromisoformat = (\<lambda>_. IsoInvalid),
     date_fromisoformat = (\<lambda>_. None), uuid_parse = (\<lambda>s. if s = [] then None else Some (map ascii_upper s)), uuid5 = id,
     sha256_head = length\<rparr>"

theorem partition_bounds_tile_witness:
  "partition_bounds demo_env (DDate 738000) ''MONTH'' = Inr (737972, 738003)
    \<and> partition_bounds demo_env (DDate 738001) ''MONTH'' = Inr (737972, 738003)"
proof -
  have h: "partition_bounds demo_env (DDate 738000) ''MONTH'' = Inr (737972, 738003)"
  proof -
    have "partition_of 738000 ''MONTH'' = Inr (737972, 738003)" by code_simp
    then show ?thesis by (simp add: partition_bounds_def as_date_def)
  qed
  show ?thesis using h partition_bounds_tile[OF h, of 738001] by simp
qed

section \<open>Shards and identifiers\<close>

lemma stable_shard_number_range: "stable_shard_number E i k = Inr n \<Longrightarrow> 0 \<le> n \<and> n < k"
  by (auto simp: stable_shard_number_def split: if_splits option.splits)

text \<open>C35: an instrument goes to exactly one shard of the configured count: the number is in
  range, the call succeeds exactly on a UUID text and a positive count, and every textual form of
  one UUID gets the same key.\<close>

theorem stable_shard_total:
  "(case stable_shard_number E i k of
      Inl e \<Rightarrow> e = ValueError \<and> (k \<le> 0 \<or> uuid_parse E i = None)
    | Inr n \<Rightarrow> 0 < k \<and> 0 \<le> n \<and> n < k \<and> uuid_parse E i \<noteq> None \<and>
        (uuid_parse E j = uuid_parse E i \<longrightarrow> stable_shard_key E j k = stable_shard_key E i k))"
  using stable_shard_number_range[of E i k]
  by (auto simp: stable_shard_number_def stable_shard_key_def split: option.splits if_splits)

theorem stable_shard_total_witness:
  "stable_shard_number demo_env ''abc'' 16 = Inr 3 \<and>
   stable_shard_key demo_env ''ABC'' 16 = stable_shard_key demo_env ''abc'' 16"
proof -
  have n: "stable_shard_number demo_env ''abc'' 16 = Inr 3" by code_simp
  have u: "uuid_parse demo_env ''ABC'' = uuid_parse demo_env ''abc''" by code_simp
  show ?thesis using stable_shard_total[where E = demo_env and i = "''abc''" and k = 16 and j = "''ABC''"] n u by simp
qed

section \<open>Symbols and the instrument map\<close>

lemma ascii_upper_code:
  "of_char (ascii_upper c) = (if (97::nat) \<le> of_char c \<and> of_char c \<le> (122::nat) then of_char c - 32 else (of_char c :: nat))"
proof (cases "(97::nat) \<le> of_char c \<and> of_char c \<le> (122::nat)")
  case True
  then have "(of_char c - 32 :: nat) < 256" by linarith
  then show ?thesis using True by (simp add: ascii_upper_def)
qed (auto simp: ascii_upper_def)

lemma ascii_upper_idem [simp]: "ascii_upper (ascii_upper c) = ascii_upper c"
  unfolding ascii_upper_def[of "ascii_upper c"] ascii_upper_code
  by (auto simp: ascii_upper_def)

lemma ascii_upper_space: "py_isspace (ascii_upper c) \<longleftrightarrow> py_isspace c"
  unfolding py_isspace_def ascii_upper_code by auto

definition canon_char :: "char \<Rightarrow> char" where
  "canon_char c = (if ascii_upper c = CHR ''/'' then CHR ''.'' else ascii_upper c)"

lemma canonical_provider_symbol_map: "canonical_provider_symbol v = map canon_char (strip v)"
  by (simp add: canonical_provider_symbol_def replace_char_def canon_char_def)

lemma canon_char_space: "py_isspace (canon_char c) \<longleftrightarrow> py_isspace c"
proof (cases "ascii_upper c = CHR ''/''")
  case True
  then have "py_isspace (ascii_upper c) = py_isspace (CHR ''/'')" by simp
  then show ?thesis using True unfolding canon_char_def ascii_upper_space by (simp add: py_isspace_def)
next
  case False
  then show ?thesis by (simp add: canon_char_def ascii_upper_space)
qed

lemma canon_char_idem: "canon_char (canon_char c) = canon_char c"
proof -
  have "ascii_upper (CHR ''.'') = CHR ''.''" by code_simp
  then show ?thesis by (simp add: canon_char_def)
qed

lemma dropWhile_map_pred:
  "(\<And>c. P (f c) \<longleftrightarrow> P c) \<Longrightarrow> dropWhile P (map f xs) = map f (dropWhile P xs)"
  by (induction xs) auto

lemma strip_map_canon: "strip (map canon_char s) = map canon_char (strip s)"
  unfolding strip_def lstrip_def rstrip_def
  by (simp add: dropWhile_map_pred canon_char_space rev_map)

lemma canonical_provider_symbol_idem [simp]:
  "canonical_provider_symbol (canonical_provider_symbol v) = canonical_provider_symbol v"
  by (simp add: canonical_provider_symbol_map strip_map_canon canon_char_idem)

definition mapping_ok :: "env \<Rightarrow> string \<times> instrument_mapping \<Rightarrow> bool" where
  "mapping_ok E p \<longleftrightarrow> fst p = im_provider_symbol (snd p) \<and> fst p \<noteq> [] \<and>
     canonical_provider_symbol (fst p) = fst p \<and>
     (\<exists>t. uuid_parse E t = Some (im_instrument_id (snd p)))"

lemma mapping_of_row_ok: "mapping_of_row E row = Inr im \<Longrightarrow> mapping_ok E (im_provider_symbol im, im)"
  by (auto simp: mapping_of_row_def mapping_ok_def Let_def split: option.splits if_splits)

lemma load_rows_inv:
  "load_rows E rows m = Inr m' \<Longrightarrow> dict_ok m \<Longrightarrow> \<forall>p\<in>set m. mapping_ok E p \<Longrightarrow>
   dict_ok m' \<and> (\<forall>p\<in>set m'. mapping_ok E p) \<and> length m' = length m + length rows"
proof (induction E rows m rule: load_rows.induct)
  case (2 E row rows m)
  from "2.prems"(1) obtain im where im: "mapping_of_row E row = Inr im"
    and new: "\<not> has_key m (im_provider_symbol im)"
    and rec: "load_rows E rows (dset (im_provider_symbol im) im m) = Inr m'"
    by (auto split: if_splits)
  have "\<forall>p\<in>set (dset (im_provider_symbol im) im m). mapping_ok E p"
    using "2.prems"(3) mapping_of_row_ok[OF im] by (simp add: dset_new[OF new])
  then have "dict_ok m' \<and> (\<forall>p\<in>set m'. mapping_ok E p)
      \<and> length m' = length (dset (im_provider_symbol im) im m) + length rows"
    using "2.IH"[OF new rec] new "2.prems"(2) by simp
  then show ?case using new by (simp add: length_dset)
qed simp

text \<open>a successfully loaded instrument map has one entry per CSV row, keyed by distinct,
  non-empty, canonical symbols that agree with the mapping stored under them, and every instrument
  id is the canonical text of a UUID.\<close>

theorem load_instrument_map_ok:
  assumes "load_instrument_map E names rows = Inr m"
  shows "dict_ok m \<and> length m = length rows \<and>
    (\<forall>p\<in>set m. fst p = im_provider_symbol (snd p) \<and> fst p \<noteq> [] \<and>
       canonical_provider_symbol (fst p) = fst p \<and> (\<exists>t. uuid_parse E t = Some (im_instrument_id (snd p))))"
proof -
  have "load_rows E rows [] = Inr m"
    using assms by (auto simp: load_instrument_map_def split: option.splits if_splits)
  from load_rows_inv[OF this]
  have "dict_ok m \<and> (\<forall>p\<in>set m. mapping_ok E p) \<and> length m = length rows" by simp
  then show ?thesis unfolding mapping_ok_def by blast
qed

theorem load_instrument_map_ok_witness:
  "\<exists>m. load_instrument_map demo_env (Some [''provider_symbol'', ''instrument_id''])
      [[(''provider_symbol'', Some '' brk/b''), (''instrument_id'', Some ''u1'')]] = Inr m \<and>
    length m = 1 \<and> dict_ok m"
proof -
  let ?m = "load_instrument_map demo_env (Some [''provider_symbol'', ''instrument_id''])
      [[(''provider_symbol'', Some '' brk/b''), (''instrument_id'', Some ''u1'')]]"
  have "is_ok ?m" by code_simp
  then obtain m where m: "?m = Inr m" by (auto simp: is_ok_iff)
  show ?thesis using m load_instrument_map_ok[OF m] by auto
qed

section \<open>The contract table\<close>

lemma contract_table_keys:
  "list_all (\<lambda>(k, c). k = contract_key c) DATASET_CONTRACTS" "distinct (map fst DATASET_CONTRACTS)"
  "map snd DATASET_CONTRACTS = contract_values"
  by code_simp+

text \<open>\<open>selected_contracts\<close> returns exactly the declared contracts that match the three
  filters, each once, in strictly ascending key order.\<close>

theorem selected_contracts_spec:
  "set (selected_contracts p r l) =
     {c \<in> set contract_values. p \<in> {''all'', dc_price_type c} \<and> r \<in> {''all'', dc_resolution c}
        \<and> l \<in> {''all'', dc_data_layer c}} \<and>
   sorted_wrt (<) (map contract_key (selected_contracts p r l))"
proof -
  have d: "distinct (map contract_key contract_values)" by code_simp
  have "distinct (map contract_key (selected_contracts p r l))"
    using d by (simp add: selected_contracts_def contract_table_keys(3) distinct_map_filter
        distinct_map inj_on_def)
  moreover have "sorted (map contract_key (selected_contracts p r l))"
    by (simp add: selected_contracts_def)
  ultimately have "sorted_wrt (<) (map contract_key (selected_contracts p r l))"
    by (simp add: strict_sorted_iff)
  moreover have "set (selected_contracts p r l) =
     {c \<in> set contract_values. p \<in> {''all'', dc_price_type c} \<and> r \<in> {''all'', dc_resolution c}
        \<and> l \<in> {''all'', dc_data_layer c}}"
    by (auto simp: selected_contracts_def contract_table_keys(3))
  ultimately show ?thesis by blast
qed

end
