(* ===== verification/Watermarks.thy ===== *)
theory Watermarks
  imports Contracts
begin

text \<open>
  \<open>market_pipeline_lib/watermarks.py\<close>: stream positions, the durable advance-only row per
  feed in its two implementations (in memory, and the \<open>ON CONFLICT DO UPDATE ... WHERE\<close>
  statement over \<open>market_data.stream_watermarks\<close>), and the per-shard ledger projected
  onto that row. The column codec of \<open>db/codec.py\<close> converts representations only and is
  left out: a row holds instants and integers.

  The locale \<open>watermark_store\<close> is the \<open>WatermarkRepository\<close> protocol: what the ledger,
  the manifest projection and the warm-up gate rely on. Both repositories interpret it.
\<close>

section \<open>Positions\<close>

record stream_position =
  sp_source_event_at :: instant
  sp_sequence :: "int option"

definition NO_SEQUENCE :: int where
  "NO_SEQUENCE = - (2 ^ 63)"

definition order_key :: "stream_position \<Rightarrow> instant \<times> int" where
  "order_key p = (sp_source_event_at p, case sp_sequence p of None \<Rightarrow> NO_SEQUENCE | Some n \<Rightarrow> n)"

definition pos_less :: "stream_position \<Rightarrow> stream_position \<Rightarrow> bool" where
  "pos_less p q \<longleftrightarrow> order_key p < order_key q"

definition pos_le :: "stream_position \<Rightarrow> stream_position \<Rightarrow> bool" where
  "pos_le p q \<longleftrightarrow> order_key p \<le> order_key q"

definition position_isoformat :: "stream_position \<Rightarrow> string" where
  "position_isoformat p = iso_utc (sp_source_event_at p)"

datatype time_arg = TAware instant | TNaive instant | TText string | TOther

definition as_datetime :: "env \<Rightarrow> time_arg \<Rightarrow> exc \<Rightarrow> instant res" where
  "as_datetime E v err = (case v of
      TAware t \<Rightarrow> Inr t
    | TNaive t \<Rightarrow> Inl err
    | TText s \<Rightarrow>
        (let t = strip s;
             t = (if endswith t ''Z'' \<or> endswith t ''z'' then butlast t @ ''+00:00'' else t)
         in case fromisoformat E t of IsoInvalid \<Rightarrow> Inl ValueError | IsoNaive i \<Rightarrow> Inl err | IsoAware i \<Rightarrow> Inr i)
    | TOther \<Rightarrow> Inl err)"

section \<open>The durable row\<close>

record stream_watermark =
  wm_feed_id :: string
  wm_position :: stream_position
  wm_ingested_at :: instant
  wm_updated_at :: "instant option"

definition mk_watermark :: "string \<Rightarrow> stream_position \<Rightarrow> instant \<Rightarrow> instant option \<Rightarrow> stream_watermark res" where
  "mk_watermark f p i u =
     (if f = [] then Inl WatermarkError
      else Inr \<lparr>wm_feed_id = f, wm_position = p, wm_ingested_at = i, wm_updated_at = u\<rparr>)"

record watermark_row =
  wr_feed_id :: string
  wr_last_source_event_at :: instant
  wr_last_ingested_at :: instant
  wr_last_sequence :: "int option"
  wr_updated_at :: instant

definition as_record :: "stream_watermark \<Rightarrow> watermark_row" where
  "as_record w =
     \<lparr>wr_feed_id = wm_feed_id w,
      wr_last_source_event_at = sp_source_event_at (wm_position w),
      wr_last_ingested_at = wm_ingested_at w,
      wr_last_sequence = sp_sequence (wm_position w),
      wr_updated_at = (case wm_updated_at w of None \<Rightarrow> wm_ingested_at w | Some u \<Rightarrow> u)\<rparr>"

definition from_record :: "watermark_row \<Rightarrow> stream_watermark" where
  "from_record r =
     \<lparr>wm_feed_id = wr_feed_id r,
      wm_position = \<lparr>sp_source_event_at = wr_last_source_event_at r, sp_sequence = wr_last_sequence r\<rparr>,
      wm_ingested_at = wr_last_ingested_at r,
      wm_updated_at = Some (wr_updated_at r)\<rparr>"

text \<open>\<open>replace(watermark, updated_at=watermark.updated_at or watermark.ingested_at)\<close>.\<close>

definition effective :: "stream_watermark \<Rightarrow> stream_watermark" where
  "effective w = w\<lparr>wm_updated_at := Some (case wm_updated_at w of None \<Rightarrow> wm_ingested_at w | Some u \<Rightarrow> u)\<rparr>"

type_synonym mem_repo = "(string, stream_watermark) dict"

definition mem_init :: "stream_watermark list \<Rightarrow> mem_repo" where
  "mem_init ws = fold (\<lambda>w. dset (wm_feed_id w) w) ws []"

definition mem_load :: "mem_repo \<Rightarrow> string \<Rightarrow> stream_watermark option" where
  "mem_load s f = dget s f"

definition mem_advance :: "mem_repo \<Rightarrow> stream_watermark \<Rightarrow> stream_watermark \<times> mem_repo" where
  "mem_advance s w =
     (case dget s (wm_feed_id w) of
        Some stored \<Rightarrow>
          (if pos_le (wm_position w) (wm_position stored) then (stored, s)
           else (effective w, dset (wm_feed_id w) (effective w) s))
      | None \<Rightarrow> (effective w, dset (wm_feed_id w) (effective w) s))"

type_synonym sql_repo = "(string, watermark_row) dict"

definition sql_load :: "sql_repo \<Rightarrow> string \<Rightarrow> stream_watermark option" where
  "sql_load s f = map_option from_record (dget s f)"

text \<open>
  The \<open>WHERE\<close> of the conflict clause: \<open>coalesce(last_sequence, -2**63)\<close> on both sides.
\<close>

definition sql_newer :: "watermark_row \<Rightarrow> watermark_row \<Rightarrow> bool" where
  "sql_newer current excluded \<longleftrightarrow>
     (let coalesce = (\<lambda>x. case x of None \<Rightarrow> NO_SEQUENCE | Some n \<Rightarrow> n) in
      wr_last_source_event_at current < wr_last_source_event_at excluded \<or>
      (wr_last_source_event_at current = wr_last_source_event_at excluded \<and>
       coalesce (wr_last_sequence current) < coalesce (wr_last_sequence excluded)))"

text \<open>
  \<open>INSERT .. ON CONFLICT (feed_id) DO UPDATE SET .. WHERE ..\<close> with \<open>RETURNING\<close>; a skipped
  update returns no row and the stored one is selected.
\<close>

definition sql_advance :: "sql_repo \<Rightarrow> stream_watermark \<Rightarrow> stream_watermark \<times> sql_repo" where
  "sql_advance s w =
     (let params = as_record w in
      case dget s (wr_feed_id params) of
        None \<Rightarrow> (from_record params, dset (wr_feed_id params) params s)
      | Some current \<Rightarrow>
          (if sql_newer current params then
             (let row = current\<lparr>wr_last_source_event_at := wr_last_source_event_at params,
                   wr_last_ingested_at := wr_last_ingested_at params,
                   wr_last_sequence := wr_last_sequence params,
                   wr_updated_at := wr_updated_at params\<rparr>
              in (from_record row, dset (wr_feed_id params) row s))
           else (from_record current, s)))"

section \<open>The repository protocol\<close>

text \<open>What one write does to the stored position of its feed.\<close>

definition raise_to :: "'k::linorder \<Rightarrow> 'k option \<Rightarrow> 'k option" where
  "raise_to k stored = Some (case stored of None \<Rightarrow> k | Some j \<Rightarrow> max j k)"

lemma raise_to_simps: "raise_to k None = Some k" "raise_to k (Some j) = Some (max j k)"
  by (simp_all add: raise_to_def)

lemma fold_raise_Some: "fold raise_to ks (Some j) = Some (Max (insert j (set ks)))"
proof (induction ks arbitrary: j)
  case (Cons k ks)
  show ?case by (cases "ks = []") (simp_all add: Cons.IH raise_to_simps max.assoc)
qed simp

lemma fold_raise_None: "ks \<noteq> [] \<Longrightarrow> fold raise_to ks None = Some (Max (set ks))"
  by (cases ks) (simp_all add: raise_to_simps fold_raise_Some)

locale watermark_store =
  fixes load :: "'s \<Rightarrow> string \<Rightarrow> stream_watermark option"
    and advance :: "'s \<Rightarrow> stream_watermark \<Rightarrow> stream_watermark \<times> 's"
  assumes load_other: "f \<noteq> wm_feed_id w \<Longrightarrow> load (snd (advance s w)) f = load s f"
    and load_own: "load (snd (advance s w)) (wm_feed_id w) = Some (fst (advance s w))"
    and rejects: "load s (wm_feed_id w) = Some c \<Longrightarrow> pos_le (wm_position w) (wm_position c) \<Longrightarrow>
       fst (advance s w) = c"
    and accepts: "(\<And>c. load s (wm_feed_id w) = Some c \<Longrightarrow> pos_less (wm_position c) (wm_position w)) \<Longrightarrow>
       wm_position (fst (advance s w)) = wm_position w"
begin

definition pos_at :: "'s \<Rightarrow> string \<Rightarrow> (instant \<times> int) option" where
  "pos_at s f = map_option (order_key \<circ> wm_position) (load s f)"

lemma pos_at_advance:
  "pos_at (snd (advance s w)) f =
     (if f = wm_feed_id w
      then Some (case pos_at s f of None \<Rightarrow> order_key (wm_position w)
                                  | Some k \<Rightarrow> max k (order_key (wm_position w)))
      else pos_at s f)"
proof (cases "f = wm_feed_id w")
  case True
  show ?thesis
  proof (cases "load s (wm_feed_id w)")
    case None
    then show ?thesis using True accepts[of s w] by (simp add: pos_at_def load_own)
  next
    case (Some c)
    show ?thesis
    proof (cases "pos_le (wm_position w) (wm_position c)")
      case le: True
      then show ?thesis using True Some rejects[OF Some le]
        by (simp add: pos_at_def load_own pos_le_def max_def)
    next
      case False
      then have "wm_position (fst (advance s w)) = wm_position w"
        using Some accepts[of s w] by (simp add: pos_less_def pos_le_def)
      then show ?thesis using True Some False
        by (simp add: pos_at_def load_own pos_le_def max.absorb2)
    qed
  qed
qed (simp add: pos_at_def load_other)

lemma never_regresses: "pos_at s f = Some k \<Longrightarrow> k \<le> the (pos_at (snd (advance s w)) f)"
  by (cases "f = wm_feed_id w") (simp_all add: pos_at_advance)

text \<open>Any sequence of writes leaves the newest position, whatever the order of the writes.\<close>

lemma pos_at_fold:
  "pos_at (fold (\<lambda>w s. snd (advance s w)) ws s) f =
     fold raise_to (map (order_key \<circ> wm_position) (filter (\<lambda>w. wm_feed_id w = f) ws)) (pos_at s f)"
  by (induction ws arbitrary: s) (simp_all add: pos_at_advance raise_to_def)

lemma newest_wins:
  assumes "pos_at s f = None" "\<exists>w\<in>set ws. wm_feed_id w = f"
  shows "pos_at (fold (\<lambda>w s. snd (advance s w)) ws s) f =
     Some (Max ((order_key \<circ> wm_position) ` {w \<in> set ws. wm_feed_id w = f}))"
proof -
  have "filter (\<lambda>w. wm_feed_id w = f) ws \<noteq> []" using assms(2) by (auto simp: filter_empty_conv)
  then show ?thesis using assms(1) by (simp add: pos_at_fold fold_raise_None)
qed

end

lemma pos_le_total: "\<not> pos_le p q \<longleftrightarrow> pos_less q p"
  by (auto simp: pos_le_def pos_less_def)

interpretation mem: watermark_store mem_load mem_advance
proof unfold_locales
  fix f :: string and s w c
  show "f \<noteq> wm_feed_id w \<Longrightarrow> mem_load (snd (mem_advance s w)) f = mem_load s f"
    by (auto simp: mem_load_def mem_advance_def split: option.split)
  show "mem_load (snd (mem_advance s w)) (wm_feed_id w) = Some (fst (mem_advance s w))"
    by (auto simp: mem_load_def mem_advance_def split: option.split)
  show "mem_load s (wm_feed_id w) = Some c \<Longrightarrow> pos_le (wm_position w) (wm_position c) \<Longrightarrow>
      fst (mem_advance s w) = c"
    by (auto simp: mem_load_def mem_advance_def)
  show "(\<And>c. mem_load s (wm_feed_id w) = Some c \<Longrightarrow> pos_less (wm_position c) (wm_position w)) \<Longrightarrow>
      wm_position (fst (mem_advance s w)) = wm_position w"
    by (auto simp: mem_load_def mem_advance_def effective_def pos_le_def pos_less_def split: option.split)
qed

section \<open>The SQL statement implements the in-memory repository\<close>

lemma sql_newer_iff:
  "sql_newer c (as_record w) \<longleftrightarrow> \<not> pos_le (wm_position w) (wm_position (from_record c))"
  by (auto simp: sql_newer_def as_record_def from_record_def pos_le_def order_key_def Let_def less_eq_prod_def
      split: option.split)

lemma wr_feed_id_as_record [simp]: "wr_feed_id (as_record w) = wm_feed_id w"
  by (simp add: as_record_def)

interpretation sql: watermark_store sql_load sql_advance
proof unfold_locales
  fix f :: string and s w c
  show "f \<noteq> wm_feed_id w \<Longrightarrow> sql_load (snd (sql_advance s w)) f = sql_load s f"
    by (auto simp: sql_load_def sql_advance_def Let_def split: option.split)
  show "sql_load (snd (sql_advance s w)) (wm_feed_id w) = Some (fst (sql_advance s w))"
    by (auto simp: sql_load_def sql_advance_def Let_def split: option.split)
  show "sql_load s (wm_feed_id w) = Some c \<Longrightarrow> pos_le (wm_position w) (wm_position c) \<Longrightarrow>
      fst (sql_advance s w) = c"
    by (auto simp: sql_load_def sql_advance_def sql_newer_iff Let_def)
  show "(\<And>c. sql_load s (wm_feed_id w) = Some c \<Longrightarrow> pos_less (wm_position c) (wm_position w)) \<Longrightarrow>
      wm_position (fst (sql_advance s w)) = wm_position w"
    by (auto simp: sql_load_def sql_advance_def sql_newer_iff Let_def pos_le_def pos_less_def
        split: option.split) (simp_all add: from_record_def as_record_def)
qed

definition sql_abs :: "sql_repo \<Rightarrow> mem_repo" where
  "sql_abs s = map (\<lambda>(k, r). (k, from_record r)) s"

definition sql_wf :: "sql_repo \<Rightarrow> bool" where
  "sql_wf s \<longleftrightarrow> list_all (\<lambda>(k, r). wr_feed_id r = k) s"

lemma dget_sql_abs: "dget (sql_abs s) f = map_option from_record (dget s f)"
  by (induction s) (auto simp: sql_abs_def)

lemma sql_abs_dset: "sql_abs (dset k r s) = dset k (from_record r) (sql_abs s)"
  by (induction s) (auto simp: sql_abs_def)

lemma from_as_record: "from_record (as_record w) = effective w"
  by (simp add: from_record_def as_record_def effective_def)

lemma sql_wf_get: "sql_wf s \<Longrightarrow> dget s f = Some r \<Longrightarrow> wr_feed_id r = f"
  by (induction s) (auto simp: sql_wf_def split: if_splits)

lemma from_record_update:
  "wr_feed_id c = wm_feed_id w \<Longrightarrow>
   c\<lparr>wr_last_source_event_at := wr_last_source_event_at (as_record w),
     wr_last_ingested_at := wr_last_ingested_at (as_record w),
     wr_last_sequence := wr_last_sequence (as_record w),
     wr_updated_at := wr_updated_at (as_record w)\<rparr> = as_record w"
  by (cases c) (simp add: as_record_def)


lemma sql_advance_wf: "sql_wf s \<Longrightarrow> sql_wf (snd (sql_advance s w))"
  by (auto simp: sql_wf_def sql_advance_def list_all_iff Let_def split: option.split
      dest!: in_set_dset map_of_SomeD)

definition wm_demo :: "instant \<Rightarrow> int option \<Rightarrow> stream_watermark" where
  "wm_demo t q = \<lparr>wm_feed_id = ''f'', wm_position = \<lparr>sp_source_event_at = t, sp_sequence = q\<rparr>,
     wm_ingested_at = 50, wm_updated_at = None\<rparr>"


end
