(* ===== verification/Watermark_Ledger.thy ===== *)
theory Watermark_Ledger
  imports Watermarks
begin

text \<open>
  \<open>WatermarkLedger\<close> of \<open>market_pipeline_lib/watermarks.py\<close>: one head per declared shard,
  the classification of arriving messages against it, the completion floor and its
  persistence. The repository is passed as its \<open>load\<close> and \<open>advance\<close> operations.
  The resume theorem is proved once over the locale \<open>watermark_store\<close>.
\<close>

section \<open>The ledger\<close>

datatype watermark_outcome = ADVANCED | DUPLICATE | STALE

record watermark_decision =
  wd_shard_key :: string
  wd_outcome :: watermark_outcome
  wd_position :: stream_position
  wd_head :: stream_position

definition should_process :: "watermark_decision \<Rightarrow> bool" where
  "should_process d \<longleftrightarrow> wd_outcome d = ADVANCED"

record ledger =
  lg_feed_id :: string
  lg_shard_keys :: "string list"
  lg_resumed_from :: "stream_position option"
  lg_heads :: "(string, stream_position option) dict"

text \<open>\<open>dict.fromkeys(keys, value)\<close>.\<close>

definition fromkeys :: "'k list \<Rightarrow> 'v \<Rightarrow> ('k, 'v) dict" where
  "fromkeys ks v = map (\<lambda>k. (k, v)) ks"

definition mk_ledger :: "string \<Rightarrow> string list \<Rightarrow> stream_position option \<Rightarrow> ledger res" where
  "mk_ledger feed keys resumed =
     (if keys = [] then Inl WatermarkError
      else if \<not> distinct keys then Inl WatermarkError
      else Inr \<lparr>lg_feed_id = feed, lg_shard_keys = keys, lg_resumed_from = resumed,
                lg_heads = fromkeys keys resumed\<rparr>)"

definition resume :: "('s \<Rightarrow> string \<Rightarrow> stream_watermark option) \<Rightarrow> 's \<Rightarrow> string \<Rightarrow> string list \<Rightarrow> ledger res" where
  "resume load s feed keys = mk_ledger feed keys (map_option wm_position (load s feed))"

definition classify :: "stream_position option \<Rightarrow> stream_position \<Rightarrow> watermark_outcome" where
  "classify head position =
     (case head of
        None \<Rightarrow> ADVANCED
      | Some h \<Rightarrow> if pos_less h position then ADVANCED else if position = h then DUPLICATE else STALE)"

definition observe :: "ledger \<Rightarrow> string \<Rightarrow> stream_position \<Rightarrow> watermark_decision res \<times> ledger" where
  "observe L shard_key position =
     (case dget (lg_heads L) shard_key of
        None \<Rightarrow> (Inl UnknownShardError, L)
      | Some head \<Rightarrow>
          (let outcome = classify head position;
               L' = (if outcome = ADVANCED
                     then L\<lparr>lg_heads := dset shard_key (Some position) (lg_heads L)\<rparr> else L);
               head' = (case dget (lg_heads L') shard_key of Some (Some h) \<Rightarrow> h | _ \<Rightarrow> position)
           in (Inr \<lparr>wd_shard_key = shard_key, wd_outcome = outcome, wd_position = position,
                    wd_head = head'\<rparr>, L')))"

definition ledger_head :: "ledger \<Rightarrow> string \<Rightarrow> stream_position option res" where
  "ledger_head L k = (case dget (lg_heads L) k of None \<Rightarrow> Inl UnknownShardError | Some h \<Rightarrow> Inr h)"

text \<open>\<open>min(...)\<close> of positions under their order.\<close>

fun min_pos :: "stream_position \<Rightarrow> stream_position list \<Rightarrow> stream_position" where
  "min_pos b [] = b"
| "min_pos b (p # ps) = min_pos (if pos_less p b then p else b) ps"

definition completion_floor :: "ledger \<Rightarrow> stream_position option" where
  "completion_floor L =
     (let positions = map (\<lambda>k. case dget (lg_heads L) k of Some h \<Rightarrow> h | None \<Rightarrow> None) (lg_shard_keys L) in
      if None \<in> set positions then lg_resumed_from L
      else case map the positions of [] \<Rightarrow> None | p # ps \<Rightarrow> Some (min_pos p ps))"

definition checkpoint ::
    "('s \<Rightarrow> stream_watermark \<Rightarrow> stream_watermark \<times> 's) \<Rightarrow> ledger \<Rightarrow> 's option \<Rightarrow> instant
      \<Rightarrow> stream_watermark option res \<times> 's option" where
  "checkpoint adv L repository ingested_at =
     (case (completion_floor L, repository) of
        (Some flr, Some s) \<Rightarrow>
          (case mk_watermark (lg_feed_id L) flr ingested_at None of
             Inl e \<Rightarrow> (Inl e, repository)
           | Inr w \<Rightarrow> (case adv s w of (stored, s') \<Rightarrow> (Inr (Some stored), Some s')))
      | _ \<Rightarrow> (Inr None, repository))"

section \<open>Well-formed ledgers\<close>

definition ledger_ok :: "ledger \<Rightarrow> bool" where
  "ledger_ok L \<longleftrightarrow> lg_shard_keys L \<noteq> [] \<and> distinct (lg_shard_keys L) \<and>
     map fst (lg_heads L) = lg_shard_keys L \<and>
     (lg_resumed_from L \<noteq> None \<longrightarrow> (\<forall>k h. dget (lg_heads L) k = Some h \<longrightarrow> h \<noteq> None))"

lemma dget_fromkeys: "dget (fromkeys ks v) k = (if k \<in> set ks then Some v else None)"
  by (induction ks) (auto simp: fromkeys_def)

lemma mk_ledger_ok: "mk_ledger feed keys r = Inr L \<Longrightarrow> ledger_ok L"
  by (auto simp: mk_ledger_def ledger_ok_def fromkeys_def o_def map_of_map_keys dget_fromkeys[unfolded fromkeys_def]
      split: if_splits)

lemma observe_frame:
  "lg_feed_id (snd (observe L k p)) = lg_feed_id L"
  "lg_shard_keys (snd (observe L k p)) = lg_shard_keys L"
  "lg_resumed_from (snd (observe L k p)) = lg_resumed_from L"
  by (simp_all add: observe_def Let_def split: option.split)

lemma observe_heads:
  "dget (lg_heads (snd (observe L k p))) j =
     (if j = k \<and> dget (lg_heads L) k \<noteq> None \<and> classify (the (dget (lg_heads L) k)) p = ADVANCED
      then Some (Some p) else dget (lg_heads L) j)"
  by (simp add: observe_def Let_def split: option.split)

lemma observe_ok: "ledger_ok L \<Longrightarrow> ledger_ok (snd (observe L k p))"
proof -
  assume L: "ledger_ok L"
  have "map fst (lg_heads (snd (observe L k p))) = map fst (lg_heads L)"
    by (auto simp: observe_def Let_def keys_dset has_key_def split: option.split)
  then show ?thesis using L by (auto simp: ledger_ok_def observe_frame observe_heads)
qed

lemma ledger_ok_key: "ledger_ok L \<Longrightarrow> k \<in> set (lg_shard_keys L) \<longleftrightarrow> (\<exists>h. dget (lg_heads L) k = Some h)"
proof -
  assume "ledger_ok L"
  then have "set (lg_shard_keys L) = fst ` set (lg_heads L)" by (auto simp: ledger_ok_def simp flip: set_map)
  then show ?thesis using map_of_eq_None_iff[of "lg_heads L" k] by (auto simp: dom_def)
qed

text \<open>The head a shard is at, as an order key; \<open>None\<close> before the first message.\<close>

definition head_key :: "ledger \<Rightarrow> string \<Rightarrow> (instant \<times> int) option" where
  "head_key L k = (case dget (lg_heads L) k of Some (Some h) \<Rightarrow> Some (order_key h) | _ \<Rightarrow> None)"

definition head_le :: "('k::linorder) option \<Rightarrow> 'k option \<Rightarrow> bool" where
  "head_le a b \<longleftrightarrow> (case a of None \<Rightarrow> True | Some x \<Rightarrow> (case b of None \<Rightarrow> False | Some y \<Rightarrow> x \<le> y))"

lemma head_le_refl [simp]: "head_le a a"
  by (simp add: head_le_def split: option.split)

lemma head_le_trans: "head_le a b \<Longrightarrow> head_le b c \<Longrightarrow> head_le a c"
  by (auto simp: head_le_def split: option.splits)

lemma classify_ADVANCED: "classify h p = ADVANCED \<longleftrightarrow> \<not> head_le (Some (order_key p)) (map_option order_key h)"
  by (auto simp: classify_def head_le_def pos_less_def split: option.split)

lemma observe_head_mono: "head_le (head_key L j) (head_key (snd (observe L k p)) j)"
proof (cases "dget (lg_heads L) j")
  case (Some h)
  then show ?thesis
    by (auto simp: head_key_def observe_heads classify_ADVANCED head_le_def split: option.splits)
qed (auto simp: head_key_def head_le_def)

lemma min_pos_in: "min_pos b ps \<in> insert b (set ps)"
proof (induction ps arbitrary: b)
  case (Cons p ps)
  show ?case using Cons[of "if pos_less p b then p else b"] by (auto split: if_splits)
qed simp

lemma min_pos_le: "q \<in> insert b (set ps) \<Longrightarrow> order_key (min_pos b ps) \<le> order_key q"
proof (induction ps arbitrary: b q)
  case (Cons p ps)
  let ?b = "if pos_less p b then p else b"
  have b: "order_key (min_pos ?b ps) \<le> order_key ?b" by (rule Cons.IH) simp
  have "order_key ?b \<le> order_key p" "order_key ?b \<le> order_key b" by (auto simp: pos_less_def)
  then show ?case using Cons.prems Cons.IH[of q ?b] b by (auto intro: order_trans)
qed simp

lemma completion_floor_key:
  assumes L: "ledger_ok L"
  shows "map_option order_key (completion_floor L) =
    (if \<exists>k\<in>set (lg_shard_keys L). head_key L k = None then None
     else Some (Min ((\<lambda>k. the (head_key L k)) ` set (lg_shard_keys L))))"
proof -
  let ?f = "\<lambda>k. case dget (lg_heads L) k of Some h \<Rightarrow> h | None \<Rightarrow> None"
  have hk: "head_key L k = map_option order_key (?f k)" for k
    by (simp add: head_key_def split: option.split)
  show ?thesis
  proof (cases "None \<in> set (map ?f (lg_shard_keys L))")
    case True
    then obtain k where k: "k \<in> set (lg_shard_keys L)" "?f k = None" by auto
    then have "lg_resumed_from L = None"
      using L ledger_ok_key[OF L, of k] by (auto simp: ledger_ok_def split: option.splits)
    moreover have "\<exists>k\<in>set (lg_shard_keys L). head_key L k = None" using k hk by auto
    ultimately show ?thesis using True by (simp add: completion_floor_def)
  next
    case False
    obtain k ks where ks: "lg_shard_keys L = k # ks" using L by (auto simp: ledger_ok_def neq_Nil_conv)
    let ?ps = "map (\<lambda>k. the (?f k)) ks"
    have key: "the (head_key L j) = order_key (the (?f j))" if "j \<in> set (lg_shard_keys L)" for j
    proof -
      have "?f j \<noteq> None" using False that by force
      then show ?thesis by (simp add: hk option.map_sel)
    qed
    have "completion_floor L = Some (min_pos (the (?f k)) ?ps)"
      using False by (simp add: completion_floor_def ks Let_def comp_def)
    moreover have "order_key (min_pos (the (?f k)) ?ps) = Min ((\<lambda>k. the (head_key L k)) ` set (lg_shard_keys L))"
    proof (rule Min_eqI[symmetric])
      show "order_key (min_pos (the (?f k)) ?ps) \<in> (\<lambda>k. the (head_key L k)) ` set (lg_shard_keys L)"
        using min_pos_in[of "the (?f k)" ?ps] key by (auto simp: ks)
      show "order_key (min_pos (the (?f k)) ?ps) \<le> y" if "y \<in> (\<lambda>k. the (head_key L k)) ` set (lg_shard_keys L)" for y
        using that min_pos_le[of _ "the (?f k)" ?ps] key by (auto simp: ks)
    qed simp
    moreover have "\<not> (\<exists>k\<in>set (lg_shard_keys L). head_key L k = None)" using False by (force simp: hk)
    ultimately show ?thesis by simp
  qed
qed

section \<open>Runs of a ledger over a repository\<close>

datatype ledger_event = Observe string stream_position | Checkpoint instant

fun ledger_step ::
    "('s \<Rightarrow> stream_watermark \<Rightarrow> stream_watermark \<times> 's) \<Rightarrow> ledger_event \<Rightarrow> ledger \<times> 's \<Rightarrow> ledger \<times> 's" where
  "ledger_step adv (Observe k p) (L, s) = (snd (observe L k p), s)"
| "ledger_step adv (Checkpoint t) (L, s) = (L, case snd (checkpoint adv L (Some s) t) of Some s' \<Rightarrow> s' | None \<Rightarrow> s)"

lemma observe_head_key:
  "ledger_ok L \<Longrightarrow> k \<in> set (lg_shard_keys L) \<Longrightarrow>
   head_key (snd (observe L j p)) k = (if j = k then raise_to (order_key p) (head_key L k) else head_key L k)"
  using ledger_ok_key[of L k]
  by (auto simp: head_key_def observe_heads classify_def raise_to_def pos_less_def max_def split: option.split)

text \<open>after any sequence of messages the head of every declared shard is the newest of the
  position it resumed from and the positions observed on it, in whatever order they arrived.\<close>

theorem heads_are_maxima:
  assumes "ledger_ok L" "k \<in> set (lg_shard_keys L)"
  shows "head_key (fold (\<lambda>(j, p) M. snd (observe M j p)) msgs L) k =
    fold raise_to (map (order_key \<circ> snd) (filter (\<lambda>m. fst m = k) msgs)) (head_key L k)"
  using assms
proof (induction msgs arbitrary: L)
  case (Cons m msgs)
  obtain j p where m: "m = (j, p)" by (cases m)
  show ?case
    using Cons.IH[of "snd (observe L j p)"] Cons.prems observe_ok[OF Cons.prems(1), of j p]
    by (simp add: m observe_frame observe_head_key)
qed simp

definition pos_demo :: "instant \<Rightarrow> int \<Rightarrow> stream_position" where
  "pos_demo t n = \<lparr>sp_source_event_at = t, sp_sequence = Some n\<rparr>"

definition ledger_demo :: ledger where
  "ledger_demo = \<lparr>lg_feed_id = ''f'', lg_shard_keys = [''a'', ''b''], lg_resumed_from = None,
     lg_heads = [(''a'', None), (''b'', None)]\<rparr>"

lemma ledger_demo_ok: "ledger_ok ledger_demo"
  by (simp add: ledger_demo_def ledger_ok_def)

theorem heads_are_maxima_witness:
  "head_key (fold (\<lambda>(j, p) M. snd (observe M j p))
     [(''a'', pos_demo 5 1), (''a'', pos_demo 3 9), (''b'', pos_demo 8 1)] ledger_demo) ''a'' = Some (5, 1)"
  using heads_are_maxima[OF ledger_demo_ok, of "''a''"
      "[(''a'', pos_demo 5 1), (''a'', pos_demo 3 9), (''b'', pos_demo 8 1)]"]
  by (simp add: ledger_demo_def pos_demo_def raise_to_def head_key_def order_key_def)

text \<open>the completion floor is defined exactly when every declared shard has a head, and then
  it is the oldest of the heads: the position every shard has passed.\<close>

theorem completion_floor_is_min:
  assumes "ledger_ok L"
  shows "map_option order_key (completion_floor L) =
    (if \<exists>k\<in>set (lg_shard_keys L). head_key L k = None then None
     else Some (Min ((\<lambda>k. the (head_key L k)) ` set (lg_shard_keys L))))"
  using assms by (rule completion_floor_key)

theorem completion_floor_is_min_witness:
  "map_option order_key (completion_floor
     (snd (observe (snd (observe ledger_demo ''a'' (pos_demo 5 1))) ''b'' (pos_demo 8 1)))) = Some (5, 1)"
proof -
  let ?L = "snd (observe (snd (observe ledger_demo ''a'' (pos_demo 5 1))) ''b'' (pos_demo 8 1))"
  have L: "ledger_ok ?L" by (intro observe_ok ledger_demo_ok)
  have "lg_shard_keys ?L = [''a'', ''b'']" "head_key ?L ''a'' = Some (5, 1)" "head_key ?L ''b'' = Some (8, 1)"
    by code_simp+
  then show ?thesis using completion_floor_is_min[OF L] by simp
qed

lemma checkpoint_Some:
  "checkpoint adv L (Some s) t =
     (case completion_floor L of None \<Rightarrow> (Inr None, Some s)
      | Some p \<Rightarrow> if lg_feed_id L = [] then (Inl WatermarkError, Some s)
          else (Inr (Some (fst (adv s \<lparr>wm_feed_id = lg_feed_id L, wm_position = p, wm_ingested_at = t, wm_updated_at = None\<rparr>))),
                Some (snd (adv s \<lparr>wm_feed_id = lg_feed_id L, wm_position = p, wm_ingested_at = t, wm_updated_at = None\<rparr>))))"
  by (simp add: checkpoint_def mk_watermark_def split: option.split prod.split)

context watermark_store begin

definition seeded :: "string \<Rightarrow> string list \<Rightarrow> ledger \<times> 's \<Rightarrow> bool" where
  "seeded feed keys c \<longleftrightarrow> ledger_ok (fst c) \<and> lg_feed_id (fst c) = feed \<and> lg_shard_keys (fst c) = keys \<and>
     (\<forall>k\<in>set keys. head_le (pos_at (snd c) feed) (head_key (fst c) k))"

lemma seeded_resume:
  assumes "resume load s feed keys = Inr L"
  shows "seeded feed keys (L, s)"
proof -
  have mk: "mk_ledger feed keys (map_option wm_position (load s feed)) = Inr L"
    using assms by (simp add: resume_def)
  then have "L = \<lparr>lg_feed_id = feed, lg_shard_keys = keys,
       lg_resumed_from = map_option wm_position (load s feed),
       lg_heads = fromkeys keys (map_option wm_position (load s feed))\<rparr>"
    by (auto simp: mk_ledger_def split: if_splits)
  then show ?thesis using mk_ledger_ok[OF mk]
    by (auto simp: seeded_def head_key_def dget_fromkeys pos_at_def split: option.split)
qed

lemma floor_le_heads:
  assumes "ledger_ok L" "completion_floor L = Some p" "k \<in> set (lg_shard_keys L)"
  shows "head_le (Some (order_key p)) (head_key L k)"
proof -
  have all: "\<not> (\<exists>k\<in>set (lg_shard_keys L). head_key L k = None)"
    and p: "order_key p = Min ((\<lambda>k. the (head_key L k)) ` set (lg_shard_keys L))"
    using completion_floor_key[OF assms(1)] assms(2) by (auto split: if_splits)
  obtain h where h: "head_key L k = Some h" using all assms(3) by (cases "head_key L k") auto
  have "order_key p \<le> the (head_key L k)" unfolding p using assms(3) by (intro Min_le) auto
  then show ?thesis by (simp add: h head_le_def)
qed

lemma seeded_step: "seeded feed keys c \<Longrightarrow> seeded feed keys (ledger_step advance e c)"
proof (cases c; cases e)
  fix L s k p assume c: "seeded feed keys c" "c = (L, s)" "e = Observe k p"
  then show ?thesis
    using observe_ok[of L k p] observe_head_mono[of L _ k p]
    by (auto simp: seeded_def observe_frame intro: head_le_trans)
next
  fix L s t assume c: "seeded feed keys c" "c = (L, s)" "e = Checkpoint t"
  have L: "ledger_ok L" "lg_feed_id L = feed" "lg_shard_keys L = keys" using c by (auto simp: seeded_def)
  show ?thesis
  proof (cases "completion_floor L = None \<or> feed = []")
    case True
    then show ?thesis using c L by (auto simp: checkpoint_Some split: option.split)
  next
    case False
    then obtain p where p: "completion_floor L = Some p" "feed \<noteq> []" by auto
    have "head_le (pos_at (snd (advance s \<lparr>wm_feed_id = feed, wm_position = p, wm_ingested_at = t,
        wm_updated_at = None\<rparr>)) feed) (head_key L k)" if k: "k \<in> set keys" for k
      using floor_le_heads[OF L(1) p(1), of k] c k L
      by (auto simp: seeded_def pos_at_advance head_le_def split: option.splits)
    then show ?thesis using c L p by (simp add: seeded_def checkpoint_Some)
  qed
qed

lemma seeded_run: "seeded feed keys c \<Longrightarrow> seeded feed keys (fold (ledger_step advance) es c)"
proof (induction es arbitrary: c)
  case (Cons e es)
  show ?case using Cons.IH[OF seeded_step[OF Cons.prems]] by simp
qed simp

lemma resume_no_loss:
  assumes start: "resume load s0 feed keys = Inr L0"
    and run: "fold (ledger_step advance) es (L0, s0) = (L, s)"
    and crash: "resume load s feed keys = Inr L'"
    and live: "fst (observe L k p) = Inr d" "wd_outcome d = ADVANCED"
  shows "\<exists>d'. fst (observe L' k p) = Inr d' \<and> wd_outcome d' = ADVANCED"
proof -
  have inv: "seeded feed keys (L, s)"
    using seeded_run[OF seeded_resume[OF start], of es] run by simp
  have L': "L' = \<lparr>lg_feed_id = feed, lg_shard_keys = keys,
       lg_resumed_from = map_option wm_position (load s feed),
       lg_heads = fromkeys keys (map_option wm_position (load s feed))\<rparr>"
    using crash by (auto simp: resume_def mk_ledger_def split: if_splits)
  obtain h where h: "dget (lg_heads L) k = Some h" "classify h p = ADVANCED"
    using live by (auto simp: observe_def Let_def split: option.splits)
  then have k: "k \<in> set keys" using inv ledger_ok_key[of L k] by (auto simp: seeded_def)
  have "head_key L k = map_option order_key h" using h by (simp add: head_key_def split: option.split)
  then have "head_le (pos_at s feed) (map_option order_key h)"
    using inv k by (auto simp: seeded_def)
  then have "classify (map_option wm_position (load s feed)) p = ADVANCED"
    using h(2) unfolding classify_ADVANCED pos_at_def
    by (auto simp: option.map_comp dest: head_le_trans)
  then show ?thesis using k by (simp add: L' observe_def dget_fromkeys Let_def)
qed

end

text \<open>C14: crash-resume skips nothing. Whatever messages and checkpoints a ledger processed
  since it resumed, a message the live ledger would still process is also processed by the ledger
  rebuilt from the stored row alone.\<close>

theorem resume_skips_nothing:
  assumes "resume mem_load s0 feed keys = Inr L0"
    and "fold (ledger_step mem_advance) events (L0, s0) = (L, s)"
    and "resume mem_load s feed keys = Inr L'"
    and "fst (observe L k p) = Inr d" "should_process d"
  shows "\<exists>d'. fst (observe L' k p) = Inr d' \<and> should_process d'"
  using mem.resume_no_loss[OF assms(1-4)] assms(5) by (simp add: should_process_def)

theorem resume_skips_nothing_witness:
  "\<exists>L' d'. resume mem_load (snd (fold (ledger_step mem_advance)
       [Observe ''a'' (pos_demo 9 1), Observe ''b'' (pos_demo 4 1), Checkpoint 100] (ledger_demo, [])))
       ''f'' [''a'', ''b''] = Inr L' \<and>
     fst (observe L' ''b'' (pos_demo 5 1)) = Inr d' \<and> should_process d'"
proof -
  let ?es = "[Observe ''a'' (pos_demo 9 1), Observe ''b'' (pos_demo 4 1), Checkpoint 100]"
  let ?c = "fold (ledger_step mem_advance) ?es (ledger_demo, [])"
  have a: "resume mem_load [] ''f'' [''a'', ''b''] = Inr ledger_demo" by code_simp
  have b: "fold (ledger_step mem_advance) ?es (ledger_demo, []) = (fst ?c, snd ?c)" by simp
  obtain L' where c: "resume mem_load (snd ?c) ''f'' [''a'', ''b''] = Inr L'"
    by (simp add: resume_def mk_ledger_def)
  have "is_ok (fst (observe (fst ?c) ''b'' (pos_demo 5 1)))" by code_simp
  then obtain d where d: "fst (observe (fst ?c) ''b'' (pos_demo 5 1)) = Inr d" by (auto simp: is_ok_iff)
  have "map_sum id should_process (fst (observe (fst ?c) ''b'' (pos_demo 5 1))) = Inr True" by code_simp
  then have "should_process d" using d by simp
  from resume_skips_nothing[OF a b c d this] c show ?thesis by blast
qed

text \<open>a checkpoint never moves the stored position of its feed backwards and never touches
  another feed.\<close>

theorem checkpoint_never_regresses:
  "case snd (checkpoint mem_advance L (Some s) t) of
     None \<Rightarrow> False
   | Some s' \<Rightarrow> head_le (mem.pos_at s f) (mem.pos_at s' f) \<and>
       (f = lg_feed_id L \<or> mem_load s' f = mem_load s f)"
proof (cases "completion_floor L")
  case (Some p)
  let ?w = "\<lparr>wm_feed_id = lg_feed_id L, wm_position = p, wm_ingested_at = t, wm_updated_at = None\<rparr>"
  show ?thesis using mem.load_other[of f ?w s] Some
    by (auto simp: checkpoint_Some mem.pos_at_advance head_le_def max_def split: option.split)
qed (simp add: checkpoint_Some)

end
