(* ===== verification/Feature_Hashing.thy ===== *)
theory Feature_Hashing
  imports Contracts
begin

text \<open>
  \<open>market_pipeline_lib/features/hashing.py\<close>: the grammar of
  \<open>feature_materialization_version\<close>, the string a consumer pins. The two regular
  expressions are fixed-width, so a full match is a check of the slices of the text.
  Canonical JSON and its SHA-256 are left to the code that uses them.
\<close>

definition is_hex_char :: "char \<Rightarrow> bool" where
  "is_hex_char c \<longleftrightarrow> c \<in> set ''0123456789abcdef''"

definition is_sha256_hex :: "string \<Rightarrow> bool" where
  "is_sha256_hex s \<longleftrightarrow> length s = 64 \<and> list_all is_hex_char s"

definition FEATURE_VERSION_PREFIX :: string where "FEATURE_VERSION_PREFIX = ''fmv1''"

definition VERSION_PREFIX_LENGTH :: nat where "VERSION_PREFIX_LENGTH = 16"

definition SCOPE_MATERIALIZATION :: string where "SCOPE_MATERIALIZATION = ''m''"

definition SCOPE_BATCH :: string where "SCOPE_BATCH = ''b''"

definition removeprefix :: "string \<Rightarrow> string \<Rightarrow> string" where
  "removeprefix p s = (if take (length p) s = p then drop (length p) s else s)"

definition normalized_digest :: "string \<Rightarrow> string res" where
  "normalized_digest d =
     (let v = removeprefix ''sha256:'' d in if is_sha256_hex v then Inr v else Inl ValueError)"

definition version :: "string \<Rightarrow> string \<Rightarrow> string \<Rightarrow> string \<Rightarrow> string res" where
  "version scope identity inputs result =
     bindE (normalized_digest identity) (\<lambda>i.
     bindE (normalized_digest inputs) (\<lambda>n.
     bindE (normalized_digest result) (\<lambda>r.
       Inr (join '':'' [FEATURE_VERSION_PREFIX, scope, take VERSION_PREFIX_LENGTH i,
         take VERSION_PREFIX_LENGTH n, take VERSION_PREFIX_LENGTH r]))))"

definition materialization_version :: "string \<Rightarrow> string \<Rightarrow> string \<Rightarrow> string res" where
  "materialization_version definition_hash input_dataset_set_hash result_hash =
     version SCOPE_MATERIALIZATION definition_hash input_dataset_set_hash result_hash"

definition batch_version :: "string \<Rightarrow> string \<Rightarrow> string \<Rightarrow> string res" where
  "batch_version feature_set_hash input_market_set_hash batch_hash =
     version SCOPE_BATCH feature_set_hash input_market_set_hash batch_hash"

record parsed_version =
  pv_scope :: string
  pv_identity_prefix :: string
  pv_inputs_prefix :: string
  pv_result_prefix :: string

definition is_batch :: "parsed_version \<Rightarrow> bool" where
  "is_batch p \<longleftrightarrow> pv_scope p = SCOPE_BATCH"

definition version_matches :: "parsed_version \<Rightarrow> string \<Rightarrow> string \<Rightarrow> string \<Rightarrow> bool" where
  "version_matches p identity inputs result \<longleftrightarrow>
     pv_identity_prefix p = take VERSION_PREFIX_LENGTH identity \<and>
     pv_inputs_prefix p = take VERSION_PREFIX_LENGTH inputs \<and>
     pv_result_prefix p = take VERSION_PREFIX_LENGTH result"

definition slice :: "nat \<Rightarrow> nat \<Rightarrow> string \<Rightarrow> string" where
  "slice i n s = take n (drop i s)"

definition version_fullmatch :: "string \<Rightarrow> parsed_version option" where
  "version_fullmatch v =
     (if length v = 57 \<and> slice 0 5 v = FEATURE_VERSION_PREFIX @ '':'' \<and>
         slice 5 1 v \<in> {SCOPE_MATERIALIZATION, SCOPE_BATCH} \<and> slice 6 1 v = '':'' \<and>
         list_all is_hex_char (slice 7 16 v) \<and> slice 23 1 v = '':'' \<and>
         list_all is_hex_char (slice 24 16 v) \<and> slice 40 1 v = '':'' \<and>
         list_all is_hex_char (slice 41 16 v)
      then Some \<lparr>pv_scope = slice 5 1 v, pv_identity_prefix = slice 7 16 v,
                 pv_inputs_prefix = slice 24 16 v, pv_result_prefix = slice 41 16 v\<rparr>
      else None)"

definition parse_feature_materialization_version :: "pyval \<Rightarrow> parsed_version res" where
  "parse_feature_materialization_version v =
     (case v of
        VStr s \<Rightarrow> (case version_fullmatch s of None \<Rightarrow> Inl ValueError | Some p \<Rightarrow> Inr p)
      | _ \<Rightarrow> Inl ValueError)"

section \<open>Round trip\<close>

lemma normalized_digest_hex:
  "normalized_digest d = Inr v \<Longrightarrow> is_sha256_hex v"
  by (auto simp: normalized_digest_def Let_def split: if_splits)

lemma list_all_take: "list_all P xs \<Longrightarrow> list_all P (take n xs)"
  by (auto simp: list_all_iff dest: in_set_takeD)

lemma version_fullmatch_layout:
  assumes "s = ''m'' \<or> s = ''b''" "length i = 16" "length n = 16" "length r = 16"
    "list_all is_hex_char i" "list_all is_hex_char n" "list_all is_hex_char r"
  shows "version_fullmatch (''fmv1:'' @ s @ '':'' @ i @ '':'' @ n @ '':'' @ r) =
     Some \<lparr>pv_scope = s, pv_identity_prefix = i, pv_inputs_prefix = n, pv_result_prefix = r\<rparr>"
  using assms by (auto simp: version_fullmatch_def slice_def FEATURE_VERSION_PREFIX_def
      SCOPE_MATERIALIZATION_def SCOPE_BATCH_def)

text \<open>a rendered version string parses back to its scope and the sixteen-character
  prefixes of the three digests, with or without their \<open>sha256:\<close> tag.\<close>

theorem version_roundtrip:
  assumes "version scope identity inputs result = Inr v"
    and "scope = SCOPE_MATERIALIZATION \<or> scope = SCOPE_BATCH"
  shows "parse_feature_materialization_version (VStr v) =
    Inr \<lparr>pv_scope = scope, pv_identity_prefix = take 16 (removeprefix ''sha256:'' identity),
         pv_inputs_prefix = take 16 (removeprefix ''sha256:'' inputs),
         pv_result_prefix = take 16 (removeprefix ''sha256:'' result)\<rparr>"
proof -
  let ?i = "removeprefix ''sha256:'' identity" and ?n = "removeprefix ''sha256:'' inputs"
    and ?r = "removeprefix ''sha256:'' result"
  have hex: "is_sha256_hex ?i" "is_sha256_hex ?n" "is_sha256_hex ?r"
    and v: "v = ''fmv1:'' @ scope @ '':'' @ take 16 ?i @ '':'' @ take 16 ?n @ '':'' @ take 16 ?r"
    using assms(1) by (auto simp: version_def normalized_digest_def Let_def FEATURE_VERSION_PREFIX_def
        VERSION_PREFIX_LENGTH_def split: if_splits)
  have "version_fullmatch v = Some \<lparr>pv_scope = scope, pv_identity_prefix = take 16 ?i,
       pv_inputs_prefix = take 16 ?n, pv_result_prefix = take 16 ?r\<rparr>"
    unfolding v using assms(2) hex
    by (intro version_fullmatch_layout)
       (auto simp: SCOPE_MATERIALIZATION_def SCOPE_BATCH_def is_sha256_hex_def list_all_take)
  then show ?thesis by (simp add: parse_feature_materialization_version_def)
qed

definition digest_demo :: "char \<Rightarrow> string" where
  "digest_demo c = replicate 64 c"

theorem version_roundtrip_witness:
  "\<exists>v. batch_version (''sha256:'' @ digest_demo (CHR ''a'')) (digest_demo (CHR ''0'')) (digest_demo (CHR ''f'')) = Inr v \<and>
    is_ok (parse_feature_materialization_version (VStr v))"
proof -
  let ?v = "batch_version (''sha256:'' @ digest_demo (CHR ''a'')) (digest_demo (CHR ''0'')) (digest_demo (CHR ''f''))"
  have "is_ok ?v" by code_simp
  then obtain v where v: "?v = Inr v" by (auto simp: is_ok_iff)
  then have "version SCOPE_BATCH (''sha256:'' @ digest_demo (CHR ''a'')) (digest_demo (CHR ''0''))
      (digest_demo (CHR ''f'')) = Inr v" by (simp add: batch_version_def)
  from version_roundtrip[OF this] show ?thesis using v by (simp add: SCOPE_BATCH_def)
qed

lemma slices57:
  assumes "length v = 57"
  shows "v = slice 0 5 v @ slice 5 1 v @ slice 6 1 v @ slice 7 16 v @ slice 23 1 v @ slice 24 16 v
     @ slice 40 1 v @ slice 41 16 v"
proof -
  have step: "drop i v = slice i n v @ drop (i + n) v" for i n
    by (simp add: slice_def) (metis append_take_drop_id drop_drop add.commute)
  have "v = drop 0 v" by simp
  also have "\<dots> = slice 0 5 v @ drop 5 v" using step[of 0 5] by simp
  also have "drop 5 v = slice 5 1 v @ slice 6 1 v @ drop 7 v" using step[of 5 1] step[of 6 1] by simp
  also have "drop 7 v = slice 7 16 v @ slice 23 1 v @ drop 24 v" using step[of 7 16] step[of 23 1] by simp
  also have "drop 24 v = slice 24 16 v @ slice 40 1 v @ drop 41 v" using step[of 24 16] step[of 40 1] by simp
  also have "drop 41 v = slice 41 16 v" using assms by (simp add: slice_def)
  finally show ?thesis by simp
qed

lemma length_sha256_tag: "length ''sha256:'' = 7"
  by simp

text \<open>the parser accepts exactly the strings the renderer can produce: nothing that merely
  looks like a version is pinned.\<close>

theorem version_language:
  "is_ok (parse_feature_materialization_version (VStr v)) \<longleftrightarrow>
   (\<exists>scope\<in>{SCOPE_MATERIALIZATION, SCOPE_BATCH}. \<exists>i n r. version scope i n r = Inr v)"
proof
  assume "is_ok (parse_feature_materialization_version (VStr v))"
  then have ok: "length v = 57" "slice 0 5 v = ''fmv1:''" "slice 5 1 v \<in> {''m'', ''b''}"
      "slice 6 1 v = '':''" "list_all is_hex_char (slice 7 16 v)" "slice 23 1 v = '':''"
      "list_all is_hex_char (slice 24 16 v)" "slice 40 1 v = '':''" "list_all is_hex_char (slice 41 16 v)"
    by (auto simp: parse_feature_materialization_version_def version_fullmatch_def
        FEATURE_VERSION_PREFIX_def SCOPE_MATERIALIZATION_def SCOPE_BATCH_def is_ok_iff split: option.splits if_splits)
  let ?pad = "\<lambda>s. s @ replicate 48 (CHR ''0'')"
  have norm: "normalized_digest (?pad s) = Inr (?pad s)" if "length s = 16" "list_all is_hex_char s" for s
  proof -
    have "take 7 (?pad s) \<noteq> ''sha256:''"
    proof
      assume "take 7 (?pad s) = ''sha256:''"
      moreover have "take 7 (?pad s) = take 7 s" using that(1) by simp
      ultimately have t: "take 7 s = ''sha256:''" by metis
      have "CHR '':'' \<in> set (take 7 s)" unfolding t by simp
      then have "CHR '':'' \<in> set s" by (rule in_set_takeD)
      with that(2) have "is_hex_char (CHR '':'')" unfolding list_all_iff by blast
      moreover have "\<not> is_hex_char (CHR '':'')" by code_simp
      ultimately show False by blast
    qed
    then have "removeprefix ''sha256:'' (?pad s) = ?pad s"
      using length_sha256_tag unfolding removeprefix_def by metis
    moreover have "is_hex_char (CHR ''0'')" by code_simp
    then have "is_sha256_hex (?pad s)" using that by (simp add: is_sha256_hex_def list_all_iff)
    ultimately show ?thesis by (simp add: normalized_digest_def)
  qed
  have l: "length (slice 7 16 v) = 16" "length (slice 24 16 v) = 16" "length (slice 41 16 v) = 16"
    using ok(1) by (simp_all add: slice_def)
  have "version (slice 5 1 v) (?pad (slice 7 16 v)) (?pad (slice 24 16 v)) (?pad (slice 41 16 v)) = Inr v"
    using norm[OF l(1) ok(5)] norm[OF l(2) ok(7)] norm[OF l(3) ok(9)] l slices57[OF ok(1)] ok(2,4,6,8)
    by (simp add: version_def FEATURE_VERSION_PREFIX_def VERSION_PREFIX_LENGTH_def)
  then show "\<exists>scope\<in>{SCOPE_MATERIALIZATION, SCOPE_BATCH}. \<exists>i n r. version scope i n r = Inr v"
    using ok(3) by (auto simp: SCOPE_MATERIALIZATION_def SCOPE_BATCH_def)
next
  assume "\<exists>scope\<in>{SCOPE_MATERIALIZATION, SCOPE_BATCH}. \<exists>i n r. version scope i n r = Inr v"
  then obtain scope i n r where s: "scope = SCOPE_MATERIALIZATION \<or> scope = SCOPE_BATCH"
    and v: "version scope i n r = Inr v" by auto
  let ?i = "removeprefix ''sha256:'' i" and ?n = "removeprefix ''sha256:'' n" and ?r = "removeprefix ''sha256:'' r"
  have hex: "is_sha256_hex ?i" "is_sha256_hex ?n" "is_sha256_hex ?r"
    and vv: "v = ''fmv1:'' @ scope @ '':'' @ take 16 ?i @ '':'' @ take 16 ?n @ '':'' @ take 16 ?r"
    using v by (auto simp: version_def normalized_digest_def Let_def FEATURE_VERSION_PREFIX_def
        VERSION_PREFIX_LENGTH_def split: if_splits)
  have "version_fullmatch v \<noteq> None"
    unfolding vv using s hex
    by (subst version_fullmatch_layout)
       (auto simp: SCOPE_MATERIALIZATION_def SCOPE_BATCH_def is_sha256_hex_def list_all_take)
  then show "is_ok (parse_feature_materialization_version (VStr v))"
    by (auto simp: parse_feature_materialization_version_def)
qed

end
