(* ===== verification/Numeric.thy ===== *)
theory Numeric
  imports Prelude "HOL-Library.Log_Nat"
begin

text \<open>
  The numbers of the bar and feature code: \<open>Decimal\<close> values as rationals, the one
  quantization step of \<open>market_pipeline_lib/features/calculators.py\<close> (\<open>quantize\<close>, eight
  places, \<open>ROUND_HALF_EVEN\<close>, under the fifty-digit working precision its callers set),
  and \<open>float(...)\<close>, i.e. IEEE-754 binary64 rounding to nearest, ties to even.
\<close>

definition round_half_even :: "rat \<Rightarrow> int" where
  "round_half_even x =
     (let f = \<lfloor>x\<rfloor>; r = x - of_int f
      in if r < 1 / 2 then f else if 1 / 2 < r then f + 1 else if even f then f else f + 1)"

definition quantum_scale :: int where
  "quantum_scale = 100000000"

definition working_limit :: int where
  "working_limit = 10 ^ 50"

text \<open>A coefficient of more than fifty digits is \<open>decimal.InvalidOperation\<close>. Rationals have no
  negative zero, which is what \<open>copy_abs\<close> removes.\<close>

definition quantize :: "rat \<Rightarrow> rat res" where
  "quantize x =
     (let m = round_half_even (x * of_int quantum_scale)
      in if working_limit \<le> \<bar>m\<bar> then Inl InvalidOperation else Inr (of_int m / of_int quantum_scale))"

text \<open>Powers of two by repeated squaring, so that closed terms evaluate quickly.\<close>

fun two_pow :: "nat \<Rightarrow> int" where
  "two_pow n =
     (if n = 0 then 1 else let h = two_pow (n div 2) in if even n then h * h else 2 * (h * h))"

declare two_pow.simps [simp del]

lemma two_pow: "two_pow n = 2 ^ n"
proof (induction n rule: two_pow.induct)
  case (1 n)
  show ?case
  proof (cases "n = 0")
    case False
    have "(2::int) ^ n = 2 ^ (n div 2 + n div 2 + n mod 2)" by (simp add: mult_2[symmetric])
    then show ?thesis using False 1 by (subst two_pow.simps) (auto simp: power_add odd_iff_mod_2_eq_one Let_def)
  qed (simp add: two_pow.simps)
qed

definition ratio_less_pow2 :: "int \<Rightarrow> int \<Rightarrow> int \<Rightarrow> bool" where
  "ratio_less_pow2 a b k = (if 0 \<le> k then a < b * two_pow (nat k) else a * two_pow (nat (- k)) < b)"

text \<open>The exponent of the last mantissa bit of \<open>a / b\<close>, at least that of the subnormals.\<close>

definition ulp_exponent :: "int \<Rightarrow> int \<Rightarrow> int" where
  "ulp_exponent a b =
     (let k = bitlen \<bar>a\<bar> - bitlen b;
          t = (if ratio_less_pow2 \<bar>a\<bar> b k then k - 1 else k)
      in max (t - 52) (- 1074))"

definition div_half_even :: "int \<Rightarrow> int \<Rightarrow> int" where
  "div_half_even a b =
     (let f = a div b; r = 2 * (a mod b)
      in if r < b then f else if b < r then f + 1 else if even f then f else f + 1)"

text \<open>Overflow is a rounded magnitude of at least \<open>2 ^ 1024\<close>.\<close>

definition float64 :: "rat \<Rightarrow> rat option" where
  "float64 x =
     (case quotient_of x of (a, b) \<Rightarrow>
        if a = 0 then Some 0
        else let e = ulp_exponent a b;
                 m = (if 0 \<le> e then div_half_even a (b * two_pow (nat e))
                      else div_half_even (a * two_pow (nat (- e))) b)
             in if 971 < e \<or> e = 971 \<and> 9007199254740992 \<le> \<bar>m\<bar> then None
                else Some (if 0 \<le> e then of_int (m * two_pow (nat e)) else of_int m / of_int (two_pow (nat (- e)))))"

definition int_to_float :: "int \<Rightarrow> rat res" where
  "int_to_float n = (case float64 (of_int n) of None \<Rightarrow> Inl OverflowError | Some r \<Rightarrow> Inr r)"

lemma div_half_even: "0 < b \<Longrightarrow> div_half_even a b = round_half_even (of_int a / of_int b)"
proof -
  assume b: "0 < b"
  have f: "\<lfloor>of_int a / of_int b :: rat\<rfloor> = a div b" by (rule floor_divide_of_int_eq)
  define q r where "q = a div b" and "r = a mod b"
  have a: "a = b * q + r" by (simp add: q_def r_def)
  have frac: "(of_int a / of_int b :: rat) - of_int q = of_int r / of_int b"
    using b by (simp add: a field_simps)
  have "(of_int r / of_int b :: rat) < 1 / 2 \<longleftrightarrow> 2 * r < b" "(1 / 2 :: rat) < of_int r / of_int b \<longleftrightarrow> b < 2 * r"
  proof -
    have rb: "(0::rat) < of_int b" using b by simp
    have "(of_int r / of_int b :: rat) < 1 / 2 \<longleftrightarrow> of_int (2 * r) < (of_int b :: rat)"
      using rb by (simp add: field_simps)
    then show "(of_int r / of_int b :: rat) < 1 / 2 \<longleftrightarrow> 2 * r < b" by (simp only: of_int_less_iff)
    have "(1 / 2 :: rat) < of_int r / of_int b \<longleftrightarrow> (of_int b :: rat) < of_int (2 * r)"
      using rb by (simp add: field_simps)
    then show "(1 / 2 :: rat) < of_int r / of_int b \<longleftrightarrow> b < 2 * r" by (simp only: of_int_less_iff)
  qed
  then show ?thesis
    unfolding div_half_even_def round_half_even_def Let_def f q_def[symmetric] r_def[symmetric] frac by simp
qed

section \<open>Rounding\<close>

lemma round_half_even_error: "\<bar>x - of_int (round_half_even x)\<bar> \<le> 1 / 2"
proof -
  define f where "f = \<lfloor>x\<rfloor>"
  have "of_int f \<le> x" "x < of_int f + 1" unfolding f_def by linarith+
  then show ?thesis
    unfolding round_half_even_def f_def[symmetric] Let_def by auto
qed

lemma round_half_even_of_int [simp]: "round_half_even (of_int n) = n"
  by (simp add: round_half_even_def)

lemma round_half_even_tie: "\<bar>x - of_int (round_half_even x)\<bar> = 1 / 2 \<Longrightarrow> even (round_half_even x)"
proof -
  assume a: "\<bar>x - of_int (round_half_even x)\<bar> = 1 / 2"
  define f where "f = \<lfloor>x\<rfloor>"
  have "of_int f \<le> x" "x < of_int f + 1" unfolding f_def by linarith+
  then show ?thesis
    using a unfolding round_half_even_def f_def[symmetric] Let_def by (auto split: if_splits)
qed

text \<open>quantization returns a multiple of the eight-place quantum at most half a quantum away
  from its input, takes the even multiple on a tie, and leaves a quantized value unchanged.\<close>

theorem quantize_spec:
  assumes "quantize x = Inr q"
  shows "\<exists>m. q = of_int m / 100000000 \<and> \<bar>x - q\<bar> \<le> 1 / 200000000 \<and>
    (\<bar>x - q\<bar> = 1 / 200000000 \<longrightarrow> even m) \<and> quantize q = Inr q"
proof -
  define m where "m = round_half_even (x * 100000000)"
  have q: "q = of_int m / 100000000" and small: "\<bar>m\<bar> < working_limit"
    using assms by (auto simp: quantize_def Let_def quantum_scale_def m_def split: if_splits)
  have e: "\<bar>x * 100000000 - of_int m\<bar> \<le> 1 / 2" unfolding m_def by (rule round_half_even_error)
  have d: "\<bar>x - q\<bar> = \<bar>x * 100000000 - of_int m\<bar> / 100000000"
  proof -
    have "x - q = (x * 100000000 - of_int m) / 100000000" unfolding q by (simp add: field_simps)
    then show ?thesis by (simp only: abs_divide)
  qed
  have "even m" if "\<bar>x - q\<bar> = 1 / 200000000"
    using that unfolding d m_def by (intro round_half_even_tie) simp
  moreover have "quantize q = Inr q"
    using small by (simp add: quantize_def quantum_scale_def q)
  moreover have "\<bar>x - q\<bar> \<le> 1 / 200000000" unfolding d using e by simp
  ultimately show ?thesis using q by blast
qed

theorem quantize_spec_witness:
  "quantize (3 / 200000000) = Inr (2 / 100000000) \<and> quantize (2 / 100000000) = Inr (2 / 100000000)"
proof -
  have h: "quantize (3 / 200000000) = Inr (2 / 100000000)" by code_simp
  show ?thesis using h quantize_spec[OF h] by blast
qed

end
