(* ===== verification/Realtime_Event.thy ===== *)
theory Realtime_Event
  imports Watermark_Ledger Numeric
begin

text \<open>
  \<open>market_pipeline_lib/realtime_ingest.py\<close>, first half: the ingest specification and its
  checks, the readers of event fields, and \<open>parse_market_event\<close>, the validation of the
  producer's \<open>MarketEventEnvelope\<close>. An event is a JSON document (\<open>pyval\<close>) whose
  fractional numbers were parsed as \<open>Decimal\<close> (\<open>VDec\<close>) or \<open>float\<close> (\<open>VFloat\<close>).
\<close>

section \<open>Specification\<close>

definition RESOLUTION_DURATIONS :: "(string, string) dict" where
  "RESOLUTION_DURATIONS = [(''1m'', ''PT1M''), (''30m'', ''PT30M''), (''1h'', ''PT1H''), (''4h'', ''PT4H''), (''1d'', ''P1D'')]"

definition MARKET_EVENT_SCHEMA_VERSION :: int where "MARKET_EVENT_SCHEMA_VERSION = 1"

definition MARKET_EVENT_FIELDS :: "string list" where
  "MARKET_EVENT_FIELDS = [''eventId'', ''schemaVersion'', ''instrumentId'', ''provider'', ''feed'',
     ''eventType'', ''providerEventId'', ''occurredAt'', ''receivedAt'', ''sequence'', ''revision'',
     ''correctionOfEventId'', ''values'']"

definition DEDUP_SESSION_RETENTION :: int where "DEDUP_SESSION_RETENTION = 2"

definition NON_BAR_EVENT_TYPES :: "string list" where "NON_BAR_EVENT_TYPES = [''QUOTE'', ''TRADE'']"

definition PARTITION_GRANULARITIES :: "string list" where
  "PARTITION_GRANULARITIES = [''DAY'', ''WEEK'', ''MONTH'', ''YEAR'']"

record bar_field_map =
  bf_open :: string
  bf_high :: string
  bf_low :: string
  bf_close :: string
  bf_volume :: string
  bf_trade_count :: "string option"
  bf_vwap :: "string option"

definition required_columns :: "bar_field_map \<Rightarrow> (string, string) dict" where
  "required_columns m = [(''open'', bf_open m), (''high'', bf_high m), (''low'', bf_low m),
     (''close'', bf_close m), (''volume'', bf_volume m)]"

definition optional_columns :: "bar_field_map \<Rightarrow> (string, string option) dict" where
  "optional_columns m = [(''trade_count'', bf_trade_count m), (''vwap'', bf_vwap m)]"

definition opt_text :: "string option \<Rightarrow> string list" where
  "opt_text v = (case v of Some s \<Rightarrow> (if s = [] then [] else [s]) | None \<Rightarrow> [])"

definition field_map_check :: "bar_field_map \<Rightarrow> unit res" where
  "field_map_check m =
     (let required = map snd (required_columns m);
          sources = filter (\<lambda>v. v \<noteq> []) required @ concat (map (\<lambda>c. opt_text (snd c)) (optional_columns m))
      in if [] \<in> set required then Inl RealtimeIngestError
         else if \<not> distinct sources then Inl RealtimeIngestError
         else Inr ())"

record ingest_spec =
  is_contract :: dataset_contract
  is_event_type :: string
  is_source_provider :: string
  is_source_feed :: string
  is_source_resolution :: string
  is_partition_granularity :: string
  is_fields :: bar_field_map

text \<open>The regular expression of an ISO-8601 duration; its final \<open>$\<close> also matches before a
  trailing newline.\<close>

definition is_digit :: "char \<Rightarrow> bool" where
  "is_digit c \<longleftrightarrow> (48::nat) \<le> of_char c \<and> of_char c \<le> (57::nat)"

definition opt_unit :: "char \<Rightarrow> string \<Rightarrow> string" where
  "opt_unit u s =
     (case dropWhile is_digit s of
        c # rest \<Rightarrow> (if c = u \<and> takeWhile is_digit s \<noteq> [] then rest else s)
      | [] \<Rightarrow> s)"

definition at_end :: "string \<Rightarrow> bool" where
  "at_end s \<longleftrightarrow> s = [] \<or> s = [CHR 0x0A]"

definition opt_time :: "string \<Rightarrow> string" where
  "opt_time s =
     (case s of
        c # d # rest \<Rightarrow>
          (if c = CHR ''T'' \<and> is_digit d
           then opt_unit (CHR ''S'') (opt_unit (CHR ''M'') (opt_unit (CHR ''H'') (d # rest))) else s)
      | _ \<Rightarrow> s)"

definition iso_duration_match :: "string \<Rightarrow> bool" where
  "iso_duration_match s =
     (case s of
        [] \<Rightarrow> False
      | c # rest \<Rightarrow> c = CHR ''P'' \<and> \<not> at_end rest \<and> at_end (opt_time (opt_unit (CHR ''D'') rest)))"

definition spec_check :: "ingest_spec \<Rightarrow> unit res" where
  "spec_check s =
     (if blank (is_event_type s) then Inl RealtimeIngestError
      else if blank (is_source_provider s) \<or> blank (is_source_feed s) then Inl RealtimeIngestError
      else if is_partition_granularity s \<notin> set PARTITION_GRANULARITIES then Inl RealtimeIngestError
      else if \<not> iso_duration_match (is_source_resolution s) then Inl RealtimeIngestError
      else if (case dget RESOLUTION_DURATIONS (dc_resolution (is_contract s)) of
                 Some expected \<Rightarrow> is_source_resolution s \<noteq> expected | None \<Rightarrow> False)
        then Inl RealtimeIngestError
      else if has_source_minutes (is_contract s) then Inl RealtimeIngestError
      else Inr ())"

section \<open>Reading fields\<close>

definition text_field :: "doc \<Rightarrow> string \<Rightarrow> string res" where
  "text_field d k =
     (case dget d k of
        Some (VStr s) \<Rightarrow> (if blank s then Inl RealtimeIngestError else Inr (strip s))
      | _ \<Rightarrow> Inl RealtimeIngestError)"

definition min_instant :: instant where
  "min_instant = (1 - epoch_ordinal) * day_micros"

definition max_instant :: instant where
  "max_instant = (max_ordinal + 1 - epoch_ordinal) * day_micros - 1"

text \<open>\<open>astimezone\<close> fails when the result leaves the years 1 to 9999.\<close>

definition astimezone_utc :: "instant \<Rightarrow> instant res" where
  "astimezone_utc t = (if min_instant \<le> t \<and> t \<le> max_instant then Inr t else Inl OverflowError)"

definition et_session :: "env \<Rightarrow> instant \<Rightarrow> date res" where
  "et_session E t =
     (let d = et_date E t in if 1 \<le> d \<and> d \<le> max_ordinal then Inr d else Inl OverflowError)"

definition aware_utc :: "iso_result \<Rightarrow> instant res" where
  "aware_utc r =
     (case r of
        IsoInvalid \<Rightarrow> Inl RealtimeIngestError
      | IsoNaive t \<Rightarrow> Inl RealtimeIngestError
      | IsoAware t \<Rightarrow> astimezone_utc t)"

definition utc_field :: "env \<Rightarrow> doc \<Rightarrow> string \<Rightarrow> instant res" where
  "utc_field E d k =
     bindE (text_field d k) (\<lambda>raw.
       let text = (if endswith raw ''Z'' \<or> endswith raw ''z'' then butlast raw @ ''+00:00'' else raw)
       in aware_utc (fromisoformat E text))"

definition number_field :: "doc \<Rightarrow> string \<Rightarrow> rat res" where
  "number_field vs k =
     (case dget vs k of
        None \<Rightarrow> Inl RealtimeIngestError
      | Some (VDec d) \<Rightarrow>
          bindE (quantize d) (\<lambda>q. case float64 q of None \<Rightarrow> Inl OverflowError | Some r \<Rightarrow> Inr r)
      | Some (VInt n) \<Rightarrow> int_to_float n
      | Some (VFloat r) \<Rightarrow> Inr r
      | Some _ \<Rightarrow> Inl RealtimeIngestError)"

definition integer_field :: "doc \<Rightarrow> string \<Rightarrow> int res" where
  "integer_field vs k =
     (case dget vs k of
        None \<Rightarrow> Inl RealtimeIngestError
      | Some (VDec d) \<Rightarrow> (if d \<noteq> of_int \<lfloor>d\<rfloor> then Inl RealtimeIngestError else Inr \<lfloor>d\<rfloor>)
      | Some (VInt n) \<Rightarrow> Inr n
      | Some _ \<Rightarrow> Inl RealtimeIngestError)"

section \<open>The market event\<close>

record market_event =
  me_event_id :: string
  me_schema_version :: int
  me_instrument_id :: string
  me_provider :: string
  me_feed :: string
  me_event_type :: string
  me_provider_event_id :: string
  me_occurred_at :: instant
  me_received_at :: instant
  me_sequence :: int
  me_revision :: int
  me_correction_of :: "string option"
  me_values :: doc

definition is_correction :: "market_event \<Rightarrow> bool" where
  "is_correction m \<longleftrightarrow> me_revision m > 0"

definition me_position :: "market_event \<Rightarrow> stream_position" where
  "me_position m = \<lparr>sp_source_event_at = me_occurred_at m, sp_sequence = Some (me_sequence m)\<rparr>"

definition schema_version_field :: "doc \<Rightarrow> int res" where
  "schema_version_field d =
     (case dget d ''schemaVersion'' of
        Some (VInt v) \<Rightarrow> (if v = MARKET_EVENT_SCHEMA_VERSION then Inr v else Inl UnsupportedEventVersion)
      | _ \<Rightarrow> Inl UnsupportedEventVersion)"

definition count_field :: "doc \<Rightarrow> string \<Rightarrow> int res" where
  "count_field d k =
     (case dget d k of Some (VInt n) \<Rightarrow> (if n < 0 then Inl RealtimeIngestError else Inr n)
      | _ \<Rightarrow> Inl RealtimeIngestError)"

definition correction_field :: "doc \<Rightarrow> int \<Rightarrow> string option res" where
  "correction_field d revision =
     (case dget d ''correctionOfEventId'' of
        Some (VStr s) \<Rightarrow> (if revision = 0 \<or> blank s then Inl RealtimeIngestError else Inr (Some (strip s)))
      | Some VNone \<Rightarrow> (if revision > 0 then Inl RealtimeIngestError else Inr None)
      | _ \<Rightarrow> Inl RealtimeIngestError)"

definition parse_market_event :: "env \<Rightarrow> pyval \<Rightarrow> market_event res" where
  "parse_market_event E v =
     (case v of VMap event \<Rightarrow>
        bindE (guardE (list_all (has_key event) MARKET_EVENT_FIELDS) RealtimeIngestError) (\<lambda>_.
        bindE (schema_version_field event) (\<lambda>schema_version.
        bindE (utc_field E event ''occurredAt'') (\<lambda>occurred_at.
        bindE (utc_field E event ''receivedAt'') (\<lambda>received_at.
        bindE (guardE (occurred_at \<le> received_at) RealtimeIngestError) (\<lambda>_.
        bindE (count_field event ''sequence'') (\<lambda>sequence.
        bindE (count_field event ''revision'') (\<lambda>revision.
        bindE (correction_field event revision) (\<lambda>correction.
        bindE (case dget event ''values'' of
                 Some (VMap vs) \<Rightarrow> (if vs = [] then Inl RealtimeIngestError else Inr vs)
               | _ \<Rightarrow> Inl RealtimeIngestError) (\<lambda>values.
        bindE (text_field event ''eventId'') (\<lambda>event_id.
        bindE (text_field event ''instrumentId'') (\<lambda>instrument_id.
        bindE (text_field event ''provider'') (\<lambda>provider.
        bindE (text_field event ''feed'') (\<lambda>feed.
        bindE (text_field event ''eventType'') (\<lambda>event_type.
        bindE (text_field event ''providerEventId'') (\<lambda>provider_event_id.
          Inr \<lparr>me_event_id = event_id, me_schema_version = schema_version,
               me_instrument_id = instrument_id, me_provider = provider, me_feed = feed,
               me_event_type = event_type, me_provider_event_id = provider_event_id,
               me_occurred_at = occurred_at, me_received_at = received_at, me_sequence = sequence,
               me_revision = revision, me_correction_of = correction, me_values = values\<rparr>)))))))))))))))
      | _ \<Rightarrow> Inl RealtimeIngestError)"

section \<open>What a parsed event satisfies\<close>

lemma text_field_ok: "text_field d k = Inr s \<Longrightarrow> s \<noteq> [] \<and> strip s = s"
  by (auto simp: text_field_def blank_def split: option.splits pyval.splits if_splits)

lemma correction_field_ok:
  "correction_field d r = Inr c \<Longrightarrow> 0 \<le> r \<Longrightarrow> (c = None \<longleftrightarrow> r = 0)"
  by (auto simp: correction_field_def split: option.splits pyval.splits if_splits)

lemma aware_utc_range: "aware_utc r = Inr t \<Longrightarrow> min_instant \<le> t \<and> t \<le> max_instant"
  by (auto simp: aware_utc_def astimezone_utc_def split: iso_result.splits if_splits)

lemma aware_utc_err: "aware_utc r = Inl e \<Longrightarrow> e = RealtimeIngestError \<or> e = OverflowError"
  by (auto simp: aware_utc_def astimezone_utc_def split: iso_result.splits if_splits)

lemma utc_field_range: "utc_field E d k = Inr t \<Longrightarrow> min_instant \<le> t \<and> t \<le> max_instant"
  by (auto simp: utc_field_def Let_def dest: aware_utc_range)

text \<open>Rejections of the readers are the two ingest errors, except that a timestamp whose UTC form
  leaves the calendar overflows.\<close>

lemma text_field_err: "text_field d k = Inl e \<Longrightarrow> e = RealtimeIngestError"
  by (auto simp: text_field_def split: option.splits pyval.splits if_splits)

lemma utc_field_err: "utc_field E d k = Inl e \<Longrightarrow> e = RealtimeIngestError \<or> e = OverflowError"
  by (auto simp: utc_field_def bindE_eq_Inl Let_def dest: text_field_err aware_utc_err)

lemma count_field_ok: "count_field d k = Inr n \<Longrightarrow> 0 \<le> n"
  by (auto simp: count_field_def split: option.splits pyval.splits if_splits)

lemma schema_version_ok: "schema_version_field d = Inr n \<Longrightarrow> n = 1"
  by (auto simp: schema_version_field_def MARKET_EVENT_SCHEMA_VERSION_def split: option.splits pyval.splits if_splits)

text \<open>C37: every accepted event satisfies the envelope's invariants: the implemented version,
  arrival not before occurrence, both inside the calendar, non-negative counters, a correction
  reference exactly for a positive revision, a non-empty value object, and stripped non-empty names.\<close>

theorem parse_market_event_invariants:
  assumes "parse_market_event E v = Inr m"
  shows "me_schema_version m = 1 \<and> me_occurred_at m \<le> me_received_at m \<and>
    min_instant \<le> me_occurred_at m \<and> me_received_at m \<le> max_instant \<and>
    0 \<le> me_sequence m \<and> 0 \<le> me_revision m \<and> (me_correction_of m = None \<longleftrightarrow> \<not> is_correction m) \<and>
    me_values m \<noteq> [] \<and>
    (\<forall>s\<in>{me_event_id m, me_instrument_id m, me_provider m, me_feed m, me_event_type m, me_provider_event_id m}.
       s \<noteq> [] \<and> strip s = s)"
proof -
  obtain d where v: "v = VMap d" using assms by (cases v) (simp_all add: parse_market_event_def)
  obtain vs where vs: "vs \<noteq> []" "me_values m = vs"
    and *: "schema_version_field d = Inr (me_schema_version m)"
      "utc_field E d ''occurredAt'' = Inr (me_occurred_at m)"
      "utc_field E d ''receivedAt'' = Inr (me_received_at m)" "me_occurred_at m \<le> me_received_at m"
      "count_field d ''sequence'' = Inr (me_sequence m)" "count_field d ''revision'' = Inr (me_revision m)"
      "correction_field d (me_revision m) = Inr (me_correction_of m)"
      "text_field d ''eventId'' = Inr (me_event_id m)" "text_field d ''instrumentId'' = Inr (me_instrument_id m)"
      "text_field d ''provider'' = Inr (me_provider m)" "text_field d ''feed'' = Inr (me_feed m)"
      "text_field d ''eventType'' = Inr (me_event_type m)"
      "text_field d ''providerEventId'' = Inr (me_provider_event_id m)"
    using assms by (auto simp: parse_market_event_def v split: option.splits pyval.splits if_splits)
  then show ?thesis
    using count_field_ok[OF *(5)] count_field_ok[OF *(6)] correction_field_ok[OF *(7)]
      utc_field_range[OF *(2)] utc_field_range[OF *(3)] schema_version_ok[OF *(1)]
      text_field_ok[OF *(8)] text_field_ok[OF *(9)] text_field_ok[OF *(10)] text_field_ok[OF *(11)]
      text_field_ok[OF *(12)] text_field_ok[OF *(13)]
    by (auto simp: is_correction_def)
qed

definition ingest_env :: env where
  "ingest_env = demo_env\<lparr>fromisoformat := (\<lambda>s. case s of [] \<Rightarrow> IsoInvalid
     | c # _ \<Rightarrow> IsoAware (of_char c * day_micros))\<rparr>"

definition event_demo :: "string \<Rightarrow> string \<Rightarrow> int \<Rightarrow> pyval \<Rightarrow> int \<Rightarrow> pyval" where
  "event_demo ident occ revision correction seqno = VMap
     [(''eventId'', VStr ident), (''schemaVersion'', VInt 1), (''instrumentId'', VStr ''I''),
      (''provider'', VStr ''ALPACA''), (''feed'', VStr ''SIP''), (''eventType'', VStr ''BAR_1M''),
      (''providerEventId'', VStr ''p1''), (''occurredAt'', VStr occ), (''receivedAt'', VStr ''ZZ''),
      (''sequence'', VInt seqno), (''revision'', VInt revision), (''correctionOfEventId'', correction),
      (''values'', VMap [(''o'', VDec (1 / 3)), (''h'', VInt 2), (''l'', VFloat 1), (''c'', VInt 2), (''v'', VDec 7)])]"

theorem parse_market_event_invariants_witness:
  "\<exists>m. parse_market_event ingest_env (event_demo ''e2'' ''AZ'' 1 (VStr '' e1 '') 5) = Inr m \<and>
     me_correction_of m \<noteq> None \<and> me_occurred_at m \<le> me_received_at m"
proof -
  let ?r = "parse_market_event ingest_env (event_demo ''e2'' ''AZ'' 1 (VStr '' e1 '') 5)"
  have "map_sum id (\<lambda>m. is_correction m) ?r = Inr True" by code_simp
  then obtain m where m: "?r = Inr m" "is_correction m" by (cases ?r) auto
  show ?thesis using m parse_market_event_invariants[OF m(1)] by blast
qed

lemma count_field_err: "count_field d k = Inl e \<Longrightarrow> e = RealtimeIngestError"
  by (auto simp: count_field_def split: option.splits pyval.splits if_splits)

lemma correction_field_err: "correction_field d r = Inl e \<Longrightarrow> e = RealtimeIngestError"
  by (auto simp: correction_field_def split: option.splits pyval.splits if_splits)

lemma schema_version_err:
  "schema_version_field d = Inl e \<longleftrightarrow> e = UnsupportedEventVersion \<and> dget d ''schemaVersion'' \<noteq> Some (VInt 1)"
  by (auto simp: schema_version_field_def MARKET_EVENT_SCHEMA_VERSION_def split: option.splits pyval.splits if_splits)

lemma parse_market_event_errors:
  "parse_market_event E (VMap d) = Inl e \<Longrightarrow> schema_version_field d = Inr w \<Longrightarrow>
   e = RealtimeIngestError \<or> e = OverflowError"
  by (auto simp: parse_market_event_def bindE_eq_Inl
      dest: text_field_err utc_field_err count_field_err correction_field_err
      split: option.splits pyval.splits if_splits)

text \<open>an event is refused as an unsupported version exactly when it is an object carrying all
  thirteen fields whose \<open>schemaVersion\<close> is not the integer 1; a structurally bad document is
  never reported as a version problem.\<close>

theorem unsupported_version_iff:
  "parse_market_event E v = Inl UnsupportedEventVersion \<longleftrightarrow>
   (case v of VMap d \<Rightarrow> list_all (has_key d) MARKET_EVENT_FIELDS \<and> dget d ''schemaVersion'' \<noteq> Some (VInt 1)
    | _ \<Rightarrow> False)"
proof (cases v)
  case (VMap d)
  show ?thesis
  proof (cases "list_all (has_key d) MARKET_EVENT_FIELDS")
    case all: True
    show ?thesis
    proof (cases "schema_version_field d")
      case (Inl e)
      then show ?thesis using all VMap schema_version_err[of d e] by (simp add: parse_market_event_def)
    next
      case (Inr w)
      then have "dget d ''schemaVersion'' = Some (VInt 1)"
        using schema_version_err[of d UnsupportedEventVersion] by auto
      then show ?thesis using all VMap parse_market_event_errors[OF _ Inr, of E UnsupportedEventVersion] by auto
    qed
  qed (simp add: parse_market_event_def VMap)
qed (simp_all add: parse_market_event_def)

end
