(* ===== verification/Realtime_Ingestor.thy ===== *)
theory Realtime_Ingestor
  imports Realtime_Event
begin

text \<open>
  \<open>RealtimeIngestor\<close> of \<open>market_pipeline_lib/realtime_ingest.py\<close>: preparation of an event
  against the buffered state and the overlay of its batch, the commit that applies it, the
  retention of de-duplication state, and publication through the engine. The engine's calls
  (\<open>_run_record\<close>, \<open>publish_dataset\<close>, \<open>finish_pipeline_run\<close>,
  \<open>objects_for_manifest\<close>) and \<open>pa.Table.from_pylist\<close> are the record \<open>engine_ops\<close>
  over an engine state.
\<close>

section \<open>State\<close>

record bar_slot =
  bs_revision :: int
  bs_event_id :: string
  bs_session :: date

type_synonym slot_key = "string \<times> instant"

record bar_row =
  br_instrument_id :: string
  br_provider_symbol :: string
  br_bar_start_at :: instant
  br_session_date_et :: date
  br_open :: rat
  br_high :: rat
  br_low :: rat
  br_close :: rat
  br_volume :: int
  br_trade_count :: "int option"
  br_vwap :: "rat option"

type_synonym partition_key = "date \<times> date \<times> string"

record batch_overlay =
  ov_event_ids :: "string list"
  ov_slots :: "(slot_key, bar_slot) dict"

record prepared_event =
  pe_parsed :: market_event
  pe_shard_key :: string
  pe_rejection :: "string option"
  pe_row :: "bar_row option"
  pe_session :: "date option"
  pe_slot_key :: "slot_key option"

record ingest_decision =
  id_event_id :: string
  id_instrument_id :: string
  id_shard_key :: string
  id_accepted :: bool
  id_reason :: string
  id_revision :: int
  id_outcome :: "watermark_outcome option"

record ingestor =
  in_spec :: ingest_spec
  in_ledger :: ledger
  in_shard_count :: int
  in_retention :: int
  in_symbols :: "(string, string) dict"
  in_buffer :: "(partition_key, (slot_key, bar_row) dict) dict"
  in_seen :: "(string, date) dict"
  in_slots :: "(slot_key, bar_slot) dict"

definition mk_ingestor ::
    "ingest_spec \<Rightarrow> ledger \<Rightarrow> int \<Rightarrow> (string, instrument_mapping) dict \<Rightarrow> int \<Rightarrow> ingestor res" where
  "mk_ingestor spec L shard_count mappings retention =
     (if retention < 1 then Inl RealtimeIngestError
      else Inr \<lparr>in_spec = spec, in_ledger = L, in_shard_count = shard_count, in_retention = retention,
             in_symbols = fold (\<lambda>(_, m). dset (im_instrument_id m)
                (canonical_provider_symbol (im_provider_symbol m))) mappings [],
             in_buffer = [], in_seen = [], in_slots = []\<rparr>)"

definition pending_rows :: "ingestor \<Rightarrow> nat" where
  "pending_rows s = sum_list (map (\<lambda>(_, rows). length rows) (in_buffer s))"

section \<open>Preparation\<close>

definition opt_column :: "('a \<Rightarrow> 'b res) \<Rightarrow> 'a option \<Rightarrow> 'b option res" where
  "opt_column read src = (case src of None \<Rightarrow> Inr None | Some k \<Rightarrow> bindE (read k) (\<lambda>v. Inr (Some v)))"

definition mk_bar_row :: "env \<Rightarrow> bar_field_map \<Rightarrow> string \<Rightarrow> string \<Rightarrow> instant \<Rightarrow> doc \<Rightarrow> bar_row res" where
  "mk_bar_row E fm instrument_id symbol bar_start values =
     bindE (et_session E bar_start) (\<lambda>session.
     bindE (number_field values (bf_open fm)) (\<lambda>open_v.
     bindE (number_field values (bf_high fm)) (\<lambda>high_v.
     bindE (number_field values (bf_low fm)) (\<lambda>low_v.
     bindE (number_field values (bf_close fm)) (\<lambda>close_v.
     bindE (integer_field values (bf_volume fm)) (\<lambda>volume.
     bindE (opt_column (integer_field values) (bf_trade_count fm)) (\<lambda>trade_count.
     bindE (opt_column (number_field values) (bf_vwap fm)) (\<lambda>vwap.
       Inr \<lparr>br_instrument_id = instrument_id, br_provider_symbol = symbol, br_bar_start_at = bar_start,
            br_session_date_et = session, br_open = open_v, br_high = high_v, br_low = low_v,
            br_close = close_v, br_volume = volume, br_trade_count = trade_count, br_vwap = vwap\<rparr>))))))))"

definition rejected :: "market_event \<Rightarrow> string \<Rightarrow> string \<Rightarrow> prepared_event" where
  "rejected m shard reason =
     \<lparr>pe_parsed = m, pe_shard_key = shard, pe_rejection = Some reason, pe_row = None, pe_session = None,
      pe_slot_key = None\<rparr>"

definition held_slot :: "ingestor \<Rightarrow> batch_overlay \<Rightarrow> slot_key \<Rightarrow> bar_slot option" where
  "held_slot s ov key = (case dget (ov_slots ov) key of Some h \<Rightarrow> Some h | None \<Rightarrow> dget (in_slots s) key)"

definition prepare :: "env \<Rightarrow> ingestor \<Rightarrow> batch_overlay \<Rightarrow> pyval \<Rightarrow> (prepared_event \<times> batch_overlay) res" where
  "prepare E s ov event =
     bindE (parse_market_event E event) (\<lambda>parsed.
       let spec = in_spec s in
       if me_provider parsed \<noteq> is_source_provider spec then Inl RealtimeIngestError
       else if me_feed parsed \<noteq> is_source_feed spec then Inl RealtimeIngestError
       else case dget (in_symbols s) (me_instrument_id parsed) of
         None \<Rightarrow> Inl RealtimeIngestError
       | Some symbol \<Rightarrow>
         bindE (stable_shard_key E (me_instrument_id parsed) (in_shard_count s)) (\<lambda>shard_key.
           if me_event_type parsed \<noteq> is_event_type spec then
             Inr (rejected parsed shard_key
               (if me_event_type parsed \<in> set NON_BAR_EVENT_TYPES then ''NON_BAR_EVENT_TYPE''
                else ''EVENT_TYPE_NOT_INGESTED''), ov)
           else if has_key (in_seen s) (me_event_id parsed) \<or> me_event_id parsed \<in> set (ov_event_ids ov) then
             Inr (rejected parsed shard_key ''DUPLICATE_EVENT'', ov)
           else
             let key = (me_instrument_id parsed, me_occurred_at parsed);
                 held = held_slot s ov key;
                 accept =
                   bindE (et_session E (me_occurred_at parsed)) (\<lambda>session.
                   bindE (mk_bar_row E (is_fields spec) (me_instrument_id parsed) symbol
                            (me_occurred_at parsed) (me_values parsed)) (\<lambda>row.
                     Inr (\<lparr>pe_parsed = parsed, pe_shard_key = shard_key, pe_rejection = None,
                           pe_row = Some row, pe_session = Some session, pe_slot_key = Some key\<rparr>,
                          \<lparr>ov_event_ids = me_event_id parsed # ov_event_ids ov,
                           ov_slots = dset key \<lparr>bs_revision = me_revision parsed,
                               bs_event_id = me_event_id parsed, bs_session = session\<rparr> (ov_slots ov)\<rparr>)))
             in case held of
                  Some h \<Rightarrow>
                    (if me_revision parsed < bs_revision h then
                       Inr (rejected parsed shard_key ''SUPERSEDED_REVISION'', ov)
                     else if me_revision parsed = bs_revision h then Inl RealtimeIngestError
                     else accept)
                | None \<Rightarrow> accept))"

section \<open>Commit\<close>

definition decision_of :: "market_event \<Rightarrow> string \<Rightarrow> bool \<Rightarrow> string \<Rightarrow> watermark_outcome option \<Rightarrow> ingest_decision" where
  "decision_of m shard accepted reason outcome =
     \<lparr>id_event_id = me_event_id m, id_instrument_id = me_instrument_id m, id_shard_key = shard,
      id_accepted = accepted, id_reason = reason, id_revision = me_revision m, id_outcome = outcome\<rparr>"

definition sessions_of :: "ingestor \<Rightarrow> date list" where
  "sessions_of s = map snd (in_seen s) @ map (\<lambda>(_, slot). bs_session slot) (in_slots s)"

definition retain :: "ingestor \<Rightarrow> date \<Rightarrow> ingestor" where
  "retain s session =
     (let sessions = dedup_sorted (session # sessions_of s);
          n = nat (in_retention s)
      in if length sessions \<le> n then s
         else let keep = set (drop (length sessions - n) sessions)
              in s\<lparr>in_seen := filter (\<lambda>(_, seen). seen \<in> keep) (in_seen s),
                   in_slots := filter (\<lambda>(_, slot). bs_session slot \<in> keep) (in_slots s)\<rparr>)"

definition commit :: "env \<Rightarrow> ingestor \<Rightarrow> prepared_event \<Rightarrow> ingest_decision res \<times> ingestor" where
  "commit E s p =
     (let parsed = pe_parsed p in
      case pe_rejection p of
        Some reason \<Rightarrow> (Inr (decision_of parsed (pe_shard_key p) False reason None), s)
      | None \<Rightarrow>
        (case (pe_row p, pe_session p, pe_slot_key p) of
           (Some row, Some session, Some key) \<Rightarrow>
             (let s1 = retain s session in
              case observe (in_ledger s1) (pe_shard_key p) (me_position parsed) of
                (Inl e, L) \<Rightarrow> (Inl e, s1\<lparr>in_ledger := L\<rparr>)
              | (Inr decision, L) \<Rightarrow>
                (let s2 = s1\<lparr>in_ledger := L\<rparr> in
                 case partition_of session (is_partition_granularity (in_spec s2)) of
                   Inl e \<Rightarrow> (Inl e, s2)
                 | Inr (start, end) \<Rightarrow>
                   (let pk = (start, end, pe_shard_key p);
                        rows = (case dget (in_buffer s2) pk of Some rs \<Rightarrow> rs | None \<Rightarrow> []);
                        reason = (if is_correction parsed then ''CORRECTION_APPLIED''
                                  else if wd_outcome decision = ADVANCED then ''ACCEPTED_NEW''
                                  else ''ACCEPTED_LATE'')
                    in (Inr (decision_of parsed (pe_shard_key p) True reason (Some (wd_outcome decision))),
                        s2\<lparr>in_buffer := dset pk (dset key row rows) (in_buffer s2),
                           in_slots := dset key \<lparr>bs_revision = me_revision parsed,
                              bs_event_id = me_event_id parsed, bs_session = session\<rparr> (in_slots s2),
                           in_seen := dset (me_event_id parsed) session (in_seen s2)\<rparr>))))
         | _ \<Rightarrow> (Inl AssertionError, s)))"

definition empty_overlay :: batch_overlay where
  "empty_overlay = \<lparr>ov_event_ids = [], ov_slots = []\<rparr>"

definition submit :: "env \<Rightarrow> ingestor \<Rightarrow> pyval \<Rightarrow> ingest_decision res \<times> ingestor" where
  "submit E s event =
     (case prepare E s empty_overlay event of Inl e \<Rightarrow> (Inl e, s) | Inr (p, _) \<Rightarrow> commit E s p)"

fun prepare_all :: "env \<Rightarrow> ingestor \<Rightarrow> batch_overlay \<Rightarrow> pyval list \<Rightarrow> prepared_event list res" where
  "prepare_all E s ov [] = Inr []"
| "prepare_all E s ov (e # es) =
     bindE (prepare E s ov e) (\<lambda>(p, ov'). bindE (prepare_all E s ov' es) (\<lambda>ps. Inr (p # ps)))"

fun commit_all :: "env \<Rightarrow> ingestor \<Rightarrow> prepared_event list \<Rightarrow> ingest_decision list res \<times> ingestor" where
  "commit_all E s [] = (Inr [], s)"
| "commit_all E s (p # ps) =
     (case commit E s p of
        (Inl e, s1) \<Rightarrow> (Inl e, s1)
      | (Inr d, s1) \<Rightarrow>
        (case commit_all E s1 ps of (Inl e, s2) \<Rightarrow> (Inl e, s2) | (Inr ds, s2) \<Rightarrow> (Inr (d # ds), s2)))"

definition submit_batch :: "env \<Rightarrow> ingestor \<Rightarrow> pyval list \<Rightarrow> ingest_decision list res \<times> ingestor" where
  "submit_batch E s events =
     (case prepare_all E s empty_overlay events of Inl e \<Rightarrow> (Inl e, s) | Inr ps \<Rightarrow> commit_all E s ps)"

section \<open>Publication\<close>

record publish_group =
  pg_granularity :: string
  pg_start :: date
  pg_end :: date
  pg_shard :: string
  pg_rows :: "bar_row list"

record manifest_result =
  mr_manifest_id :: string
  mr_status :: string
  mr_dataset_hash :: string
  mr_incident_count :: int

record 'e engine_ops =
  eo_fingerprint :: string
  eo_run_record :: "'e \<Rightarrow> string \<Rightarrow> string \<Rightarrow> string res \<times> 'e"
  eo_publish_dataset :: "'e \<Rightarrow> dataset_contract \<Rightarrow> int \<Rightarrow> publish_group list \<Rightarrow> (date \<times> date) list
     \<Rightarrow> string \<Rightarrow> manifest_result res \<times> 'e"
  eo_finish_run :: "'e \<Rightarrow> string \<Rightarrow> string \<Rightarrow> string \<Rightarrow> string option \<Rightarrow> unit res \<times> 'e"
  eo_objects_for_manifest :: "'e \<Rightarrow> string \<Rightarrow> string list res"
  eo_table_check :: "bar_row list \<Rightarrow> unit res"

record flush_result =
  fr_status :: string
  fr_row_count :: nat
  fr_object_keys :: "string list"
  fr_manifest_ids :: "string list"
  fr_partitions :: "string list"
  fr_incident_count :: int
  fr_watermark_position :: "string option"

definition REALTIME_RUN_CODE :: string where "REALTIME_RUN_CODE = ''MARKET_DATA_REALTIME_INGEST''"

definition group_of :: "string \<Rightarrow> partition_key \<times> (slot_key, bar_row) dict \<Rightarrow> publish_group" where
  "group_of gran = (\<lambda>((start, end, shard), rows).
     \<lparr>pg_granularity = gran, pg_start = start, pg_end = end, pg_shard = shard,
      pg_rows = map (\<lambda>k. the (dget rows k)) (sort (map fst rows))\<rparr>)"

definition buffer_groups :: "ingestor \<Rightarrow> publish_group list" where
  "buffer_groups s = map (group_of (is_partition_granularity (in_spec s))) (sort_key fst (in_buffer s))"

text \<open>\<open>by_year.setdefault(start.year, []).append(..)\<close> over the groups.\<close>

definition group_years :: "publish_group list \<Rightarrow> (int, publish_group list) dict" where
  "group_years gs = fold (\<lambda>g d. let y = year_of (pg_start g)
     in dset y ((case dget d y of Some xs \<Rightarrow> xs | None \<Rightarrow> []) @ [g]) d) gs []"

definition group_key :: "publish_group \<Rightarrow> date \<times> date \<times> string" where
  "group_key g = (pg_start g, pg_end g, pg_shard g)"

definition group_text :: "publish_group \<Rightarrow> string" where
  "group_text g = isoformat_date (pg_start g) @ '':'' @ isoformat_date (pg_end g) @ '':'' @ pg_shard g"

definition partition_text :: "publish_group \<Rightarrow> string" where
  "partition_text g = isoformat_date (pg_start g) @ ''/'' @ isoformat_date (pg_end g)"

definition year_idempotency_key :: "env \<Rightarrow> string \<Rightarrow> ingest_spec \<Rightarrow> int \<Rightarrow> publish_group list \<Rightarrow> string" where
  "year_idempotency_key E fingerprint spec year groups =
     join '':'' [fingerprint, ''realtime'', logical_code (is_contract spec),
       is_partition_granularity spec, int_str year,
       deterministic_uuid E (map group_text (sort_key group_key groups))]"

definition publish_year :: "env \<Rightarrow> 'e engine_ops \<Rightarrow> ingest_spec \<Rightarrow> 'e \<Rightarrow> int \<Rightarrow> publish_group list
    \<Rightarrow> manifest_result res \<times> 'e" where
  "publish_year E ops spec w year groups =
     (let periods = dedup_sorted (map (\<lambda>g. (pg_start g, pg_end g)) groups) in
      case eo_run_record ops w REALTIME_RUN_CODE (year_idempotency_key E (eo_fingerprint ops) spec year groups) of
        (Inl e, w1) \<Rightarrow> (Inl e, w1)
      | (Inr run, w1) \<Rightarrow>
        (case eo_publish_dataset ops w1 (is_contract spec) year groups periods ''INGESTED_FROM'' of
           (Inl e, w2) \<Rightarrow> (Inl e, w2)
         | (Inr result, w2) \<Rightarrow>
           (let succeeded = (mr_status result = ''AVAILABLE'') in
            case eo_finish_run ops w2 run (if succeeded then ''SUCCEEDED'' else ''FAILED'')
                   (mr_dataset_hash result)
                   (if succeeded then None else Some ''REALTIME_INGEST_QUARANTINED'') of
              (Inl e, w3) \<Rightarrow> (Inl e, w3)
            | (Inr _, w3) \<Rightarrow> (Inr result, w3))))"

fun publish_years :: "env \<Rightarrow> 'e engine_ops \<Rightarrow> ingest_spec \<Rightarrow> 'e \<Rightarrow> (int \<times> publish_group list) list
    \<Rightarrow> (manifest_result \<times> string list) list res \<times> 'e" where
  "publish_years E ops spec w [] = (Inr [], w)"
| "publish_years E ops spec w ((year, groups) # rest) =
     (case publish_year E ops spec w year groups of
        (Inl e, w1) \<Rightarrow> (Inl e, w1)
      | (Inr result, w1) \<Rightarrow>
        (case eo_objects_for_manifest ops w1 (mr_manifest_id result) of
           Inl e \<Rightarrow> (Inl e, w1)
         | Inr objs \<Rightarrow>
           (case publish_years E ops spec w1 rest of
              (Inl e, w2) \<Rightarrow> (Inl e, w2)
            | (Inr rs, w2) \<Rightarrow> (Inr ((result, objs) # rs), w2))))"

type_synonym 's repo_ops = "'s \<Rightarrow> stream_watermark \<Rightarrow> stream_watermark \<times> 's"

definition ingestor_checkpoint :: "'s repo_ops \<Rightarrow> ingestor \<Rightarrow> 's option \<Rightarrow> instant \<Rightarrow> string option res \<times> 's option" where
  "ingestor_checkpoint adv s repo now =
     (case checkpoint adv (in_ledger s) repo now of
        (Inl e, r) \<Rightarrow> (Inl e, r)
      | (Inr None, r) \<Rightarrow> (Inr None, r)
      | (Inr (Some w), r) \<Rightarrow> (Inr (Some (position_isoformat (wm_position w))), r))"

definition flush_status :: "string list \<Rightarrow> string" where
  "flush_status statuses =
     (if statuses \<noteq> [] \<and> list_all (\<lambda>x. x = ''AVAILABLE'') statuses then ''AVAILABLE'' else ''QUARANTINED'')"

definition flush :: "env \<Rightarrow> 'e engine_ops \<Rightarrow> 's repo_ops \<Rightarrow> ingestor \<Rightarrow> 'e \<Rightarrow> 's option \<Rightarrow> instant
    \<Rightarrow> flush_result res \<times> ingestor \<times> 'e \<times> 's option" where
  "flush E ops adv s w repo now =
     (if in_buffer s = [] then
        (case ingestor_checkpoint adv s repo now of
           (Inl e, r) \<Rightarrow> (Inl e, s, w, r)
         | (Inr pos, r) \<Rightarrow>
             (Inr \<lparr>fr_status = ''NO_CHANGE'', fr_row_count = 0, fr_object_keys = [], fr_manifest_ids = [],
                   fr_partitions = [], fr_incident_count = 0, fr_watermark_position = pos\<rparr>, s, w, r))
      else
        (let groups = buffer_groups s in
         case mapE (\<lambda>g. eo_table_check ops (pg_rows g)) groups of
           Inl e \<Rightarrow> (Inl e, s, w, repo)
         | Inr _ \<Rightarrow>
           (case publish_years E ops (in_spec s) w (sort_key fst (group_years groups)) of
              (Inl e, w1) \<Rightarrow> (Inl e, s, w1, repo)
            | (Inr results, w1) \<Rightarrow>
              (let s1 = s\<lparr>in_buffer := []\<rparr> in
               case ingestor_checkpoint adv s1 repo now of
                 (Inl e, r) \<Rightarrow> (Inl e, s1, w1, r)
               | (Inr pos, r) \<Rightarrow>
                 (Inr \<lparr>fr_status = flush_status (map (\<lambda>(m, _). mr_status m) results),
                       fr_row_count = sum_list (map (\<lambda>g. length (pg_rows g)) groups),
                       fr_object_keys = sort (concat (map snd results)),
                       fr_manifest_ids = map (\<lambda>(m, _). mr_manifest_id m) results,
                       fr_partitions = dedup_sorted (map partition_text groups),
                       fr_incident_count = sum_list (map (\<lambda>(m, _). mr_incident_count m) results),
                       fr_watermark_position = pos\<rparr>, s1, w1, r)))))"

end
