(* ===== verification/Realtime_Safety.thy ===== *)
theory Realtime_Safety
  imports Realtime_Ingestor
begin

text \<open>
  The correctness of \<open>RealtimeIngestor\<close>: the buffer invariant, all-or-nothing batches,
  idempotent redelivery, monotone revisions, the retention bound, independence of admission
  from the watermark, and what a flush hands to the engine.
\<close>

section \<open>Frames\<close>

definition same_setup :: "ingestor \<Rightarrow> ingestor \<Rightarrow> bool" where
  "same_setup s t \<longleftrightarrow> in_spec s = in_spec t \<and> in_shard_count s = in_shard_count t \<and>
     in_retention s = in_retention t \<and> in_symbols s = in_symbols t \<and>
     (\<forall>k. has_key (lg_heads (in_ledger s)) k \<longleftrightarrow> has_key (lg_heads (in_ledger t)) k)"

lemma same_setup_refl [simp]: "same_setup s s"
  by (simp add: same_setup_def)

lemma same_setup_trans: "same_setup s t \<Longrightarrow> same_setup t u \<Longrightarrow> same_setup s u"
  by (simp add: same_setup_def)

lemma retain_frame [simp]:
  "in_spec (retain s d) = in_spec s" "in_shard_count (retain s d) = in_shard_count s"
  "in_retention (retain s d) = in_retention s" "in_symbols (retain s d) = in_symbols s"
  "in_ledger (retain s d) = in_ledger s" "in_buffer (retain s d) = in_buffer s"
  by (simp_all add: retain_def Let_def)

lemma observe_has_key: "has_key (lg_heads (snd (observe L k p))) j \<longleftrightarrow> has_key (lg_heads L) j"
  by (auto simp: observe_heads has_key_def)

lemma observe_ok_iff: "(\<exists>d. fst (observe L k p) = Inr d) \<longleftrightarrow> has_key (lg_heads L) k"
  by (auto simp: observe_def has_key_def Let_def split: option.splits)

lemma observe_outcome: "fst (observe L k p) = Inr d \<Longrightarrow> wd_outcome d = classify (the (dget (lg_heads L) k)) p"
  by (auto simp: observe_def Let_def split: option.splits)

text \<open>The state an accepted event leaves.\<close>

definition slot_of :: "market_event \<Rightarrow> date \<Rightarrow> bar_slot" where
  "slot_of m d = \<lparr>bs_revision = me_revision m, bs_event_id = me_event_id m, bs_session = d\<rparr>"

definition file_row :: "('p, ('k, 'r) dict) dict \<Rightarrow> 'p \<Rightarrow> 'k \<Rightarrow> 'r \<Rightarrow> ('p, ('k, 'r) dict) dict" where
  "file_row buf pk key row = dset pk (dset key row (case dget buf pk of Some rs \<Rightarrow> rs | None \<Rightarrow> [])) buf"

lemma commit_rejected: "pe_rejection p = Some r \<Longrightarrow>
  commit E s p = (Inr (decision_of (pe_parsed p) (pe_shard_key p) False r None), s)"
  by (simp add: commit_def)

lemma commit_accepted_cases:
  assumes "pe_rejection p = None" "pe_row p = Some row" "pe_session p = Some d" "pe_slot_key p = Some key"
  obtains (unknown) e where "commit E s p = (Inl e, (retain s d)\<lparr>in_ledger := snd (observe (in_ledger s) (pe_shard_key p) (me_position (pe_parsed p)))\<rparr>)"
      "\<not> has_key (lg_heads (in_ledger s)) (pe_shard_key p)"
  | (range) e where "commit E s p = (Inl e, (retain s d)\<lparr>in_ledger := snd (observe (in_ledger s) (pe_shard_key p) (me_position (pe_parsed p)))\<rparr>)"
      "partition_of d (is_partition_granularity (in_spec s)) = Inl e"
  | (filed) dec st en reason where
      "fst (observe (in_ledger s) (pe_shard_key p) (me_position (pe_parsed p))) = Inr dec"
      "partition_of d (is_partition_granularity (in_spec s)) = Inr (st, en)"
      "commit E s p = (Inr (decision_of (pe_parsed p) (pe_shard_key p) True reason (Some (wd_outcome dec))),
         (retain s d)\<lparr>in_ledger := snd (observe (in_ledger s) (pe_shard_key p) (me_position (pe_parsed p))),
            in_buffer := file_row (in_buffer s) (st, en, pe_shard_key p) key row,
            in_slots := dset key (slot_of (pe_parsed p) d) (in_slots (retain s d)),
            in_seen := dset (me_event_id (pe_parsed p)) d (in_seen (retain s d))\<rparr>)"
proof (cases "observe (in_ledger s) (pe_shard_key p) (me_position (pe_parsed p))")
  case (Pair r L)
  show thesis
  proof (cases r)
    case (Inl e)
    have "\<not> has_key (lg_heads (in_ledger s)) (pe_shard_key p)"
      using observe_ok_iff[of "in_ledger s" "pe_shard_key p" "me_position (pe_parsed p)"] Pair Inl by simp
    then show thesis using unknown[of e] assms Pair Inl by (simp add: commit_def)
  next
    case (Inr dec)
    show thesis
    proof (cases "partition_of d (is_partition_granularity (in_spec s))")
      case pl: (Inl e)
      then show thesis using range[of e] assms Pair Inr by (simp add: commit_def)
    next
      case (Inr b)
      obtain st en where b: "b = (st, en)" by (cases b)
      show thesis
        using filed[of dec st en] assms Pair \<open>r = Inr dec\<close> Inr b
        by (simp add: commit_def Let_def file_row_def slot_of_def)
    qed
  qed
qed

definition prepared_ok :: "env \<Rightarrow> ingestor \<Rightarrow> prepared_event \<Rightarrow> bool" where
  "prepared_ok E s p \<longleftrightarrow>
     (case pe_rejection p of Some r \<Rightarrow> True
      | None \<Rightarrow> \<exists>row d. pe_row p = Some row \<and> pe_session p = Some d \<and>
          pe_slot_key p = Some (me_instrument_id (pe_parsed p), me_occurred_at (pe_parsed p)) \<and>
          br_instrument_id row = me_instrument_id (pe_parsed p) \<and>
          br_bar_start_at row = me_occurred_at (pe_parsed p) \<and> br_session_date_et row = d \<and>
          et_session E (me_occurred_at (pe_parsed p)) = Inr d \<and>
          stable_shard_key E (me_instrument_id (pe_parsed p)) (in_shard_count s) = Inr (pe_shard_key p) \<and>
          has_key (in_symbols s) (me_instrument_id (pe_parsed p)))"

lemma prepared_ok_setup: "same_setup s t \<Longrightarrow> prepared_ok E s p = prepared_ok E t p"
  by (cases "pe_rejection p") (simp_all add: same_setup_def prepared_ok_def)

lemma mk_bar_row_fields:
  "mk_bar_row E fm i u t vs = Inr row \<Longrightarrow>
   br_instrument_id row = i \<and> br_bar_start_at row = t \<and> et_session E t = Inr (br_session_date_et row)"
  by (auto simp: mk_bar_row_def)

text \<open>What a successful preparation says.\<close>

lemma prepare_cases:
  assumes "prepare E s ov v = Inr (p, ov')"
  obtains (reject) m sh r where "parse_market_event E v = Inr m" "p = rejected m sh r" "ov' = ov"
  | (accept) m sh row d where "parse_market_event E v = Inr m"
      "p = \<lparr>pe_parsed = m, pe_shard_key = sh, pe_rejection = None, pe_row = Some row,
            pe_session = Some d, pe_slot_key = Some (me_instrument_id m, me_occurred_at m)\<rparr>"
      "ov' = \<lparr>ov_event_ids = me_event_id m # ov_event_ids ov,
              ov_slots = dset (me_instrument_id m, me_occurred_at m) (slot_of m d) (ov_slots ov)\<rparr>"
      "\<not> has_key (in_seen s) (me_event_id m)" "me_event_id m \<notin> set (ov_event_ids ov)"
      "\<forall>h. held_slot s ov (me_instrument_id m, me_occurred_at m) = Some h \<longrightarrow> bs_revision h < me_revision m"
      "prepared_ok E s p"
proof -
  obtain m where m: "parse_market_event E v = Inr m" using assms by (auto simp: prepare_def)
  obtain symbol where sym: "dget (in_symbols s) (me_instrument_id m) = Some symbol"
    using assms m by (auto simp: prepare_def Let_def split: if_splits option.splits)
  obtain sh where sh: "stable_shard_key E (me_instrument_id m) (in_shard_count s) = Inr sh"
    using assms m sym by (auto simp: prepare_def Let_def split: if_splits)
  show thesis
  proof (cases "\<exists>r. p = rejected m sh r \<and> ov' = ov")
    case True
    then show thesis using reject[of m sh] m by blast
  next
    case False
    have new: "\<not> has_key (in_seen s) (me_event_id m)" "me_event_id m \<notin> set (ov_event_ids ov)"
      and held: "\<forall>h. held_slot s ov (me_instrument_id m, me_occurred_at m) = Some h \<longrightarrow> bs_revision h < me_revision m"
      using assms m sym sh False by (auto simp: prepare_def Let_def split: if_splits option.splits)
    obtain d row where d: "et_session E (me_occurred_at m) = Inr d"
      and row: "mk_bar_row E (is_fields (in_spec s)) (me_instrument_id m) symbol (me_occurred_at m) (me_values m) = Inr row"
      and p: "p = \<lparr>pe_parsed = m, pe_shard_key = sh, pe_rejection = None, pe_row = Some row,
            pe_session = Some d, pe_slot_key = Some (me_instrument_id m, me_occurred_at m)\<rparr>"
      and ov': "ov' = \<lparr>ov_event_ids = me_event_id m # ov_event_ids ov,
              ov_slots = dset (me_instrument_id m, me_occurred_at m) (slot_of m d) (ov_slots ov)\<rparr>"
      using assms m sym sh False by (auto simp: prepare_def Let_def slot_of_def split: if_splits option.splits)
    have "prepared_ok E s p"
      using mk_bar_row_fields[OF row] d sh sym by (simp add: prepared_ok_def p has_key_def)
    then show thesis using accept[OF m p ov' new held] by blast
  qed
qed

lemma prepare_prepared_ok: "prepare E s ov v = Inr (p, ov') \<Longrightarrow> prepared_ok E s p"
  by (erule prepare_cases) (auto simp: prepared_ok_def rejected_def)

lemma commit_setup: "same_setup s (snd (commit E s p))"
proof (cases "pe_rejection p")
  case None
  show ?thesis
  proof (cases "(pe_row p, pe_session p, pe_slot_key p)")
    case (fields a b c)
    show ?thesis
    proof (cases "a = None \<or> b = None \<or> c = None")
      case True
      then show ?thesis using None fields
        by (cases a; cases b; cases c) (simp_all add: commit_def)
    next
      case False
      then obtain row d key where f: "pe_row p = Some row" "pe_session p = Some d" "pe_slot_key p = Some key"
        using fields by auto
      show ?thesis
        by (rule commit_accepted_cases[OF None f, of E s])
           (simp_all add: same_setup_def observe_has_key)
    qed
  qed
qed (simp add: commit_rejected)

section \<open>The buffer invariant\<close>

text \<open>A row is filed under its own instrument and bar start, in the partition of its own ET
  session and the shard of its own instrument.\<close>

definition row_filed :: "env \<Rightarrow> ingestor \<Rightarrow> partition_key \<Rightarrow> slot_key \<Rightarrow> bar_row \<Rightarrow> bool" where
  "row_filed E s pk key row \<longleftrightarrow>
     key = (br_instrument_id row, br_bar_start_at row) \<and>
     et_session E (br_bar_start_at row) = Inr (br_session_date_et row) \<and>
     partition_of (br_session_date_et row) (is_partition_granularity (in_spec s)) = Inr (fst pk, fst (snd pk)) \<and>
     stable_shard_key E (br_instrument_id row) (in_shard_count s) = Inr (snd (snd pk))"

definition rows_ok :: "env \<Rightarrow> ingestor \<Rightarrow> partition_key \<Rightarrow> (slot_key, bar_row) dict \<Rightarrow> bool" where
  "rows_ok E s pk rows \<longleftrightarrow> rows \<noteq> [] \<and> dict_ok rows \<and>
     (\<forall>key row. (key, row) \<in> set rows \<longrightarrow> row_filed E s pk key row)"

definition buffer_ok :: "env \<Rightarrow> ingestor \<Rightarrow> bool" where
  "buffer_ok E s \<longleftrightarrow> dict_ok (in_buffer s) \<and>
     (\<forall>pk rows. (pk, rows) \<in> set (in_buffer s) \<longrightarrow> rows_ok E s pk rows)"

definition ingestor_ok :: "env \<Rightarrow> ingestor \<Rightarrow> bool" where
  "ingestor_ok E s \<longleftrightarrow> buffer_ok E s \<and> dict_ok (in_seen s) \<and> dict_ok (in_slots s) \<and> 1 \<le> in_retention s"

lemma row_filed_setup: "same_setup s t \<Longrightarrow> row_filed E s = row_filed E t"
  by (intro ext) (simp add: row_filed_def same_setup_def)

lemma buffer_ok_setup: "same_setup s t \<Longrightarrow> in_buffer s = in_buffer t \<Longrightarrow> buffer_ok E s = buffer_ok E t"
  by (simp add: buffer_ok_def rows_ok_def row_filed_setup)

lemma in_set_file_row:
  assumes "(pk', rows') \<in> set (file_row buf pk key row)"
  shows "(pk', rows') \<in> set buf \<or>
    (pk' = pk \<and> rows' = dset key row (case dget buf pk of Some rs \<Rightarrow> rs | None \<Rightarrow> []))"
  using in_set_dset assms unfolding file_row_def by fastforce

lemma buffer_ok_file_row:
  assumes ok: "buffer_ok E s" and row: "row_filed E s pk key row"
  shows "buffer_ok E (s\<lparr>in_buffer := file_row (in_buffer s) pk key row\<rparr>)"
proof -
  let ?s' = "s\<lparr>in_buffer := file_row (in_buffer s) pk key row\<rparr>"
  define old where "old = (case dget (in_buffer s) pk of Some rs \<Rightarrow> rs | None \<Rightarrow> [])"
  have old: "dict_ok old \<and> (\<forall>k r. (k, r) \<in> set old \<longrightarrow> row_filed E s pk k r)"
  proof (cases "dget (in_buffer s) pk")
    case (Some rs)
    then have "(pk, rs) \<in> set (in_buffer s)" by (rule map_of_SomeD)
    then have "rows_ok E s pk rs" using ok unfolding buffer_ok_def by blast
    then show ?thesis by (simp add: old_def Some rows_ok_def)
  qed (simp add: old_def)
  have new: "rows_ok E s pk (dset key row old)"
  proof -
    have "has_key (dset key row old) key" by simp
    then have "dset key row old \<noteq> []" by (auto simp: has_key_def)
    then show ?thesis using old row unfolding rows_ok_def
      by (metis dict_ok_dset in_set_dset)
  qed
  have rows: "rows_ok E ?s' = rows_ok E s"
    by (intro ext) (simp add: rows_ok_def row_filed_def)
  have "rows_ok E s pk' rows'" if "(pk', rows') \<in> set (file_row (in_buffer s) pk key row)" for pk' rows'
    using in_set_file_row[OF that]
  proof
    assume "(pk', rows') \<in> set (in_buffer s)"
    then show ?thesis using ok unfolding buffer_ok_def by blast
  qed (use new in \<open>simp add: old_def\<close>)
  moreover have "dict_ok (file_row (in_buffer s) pk key row)"
    using ok by (simp add: buffer_ok_def file_row_def)
  ultimately show ?thesis unfolding buffer_ok_def rows by simp
qed

lemma retain_ok: "dict_ok (in_seen s) \<Longrightarrow> dict_ok (in_slots s) \<Longrightarrow>
  dict_ok (in_seen (retain s d)) \<and> dict_ok (in_slots (retain s d))"
  by (simp add: retain_def Let_def dict_ok_filter)

lemma ingestor_ok_commit:
  assumes ok: "ingestor_ok E s" and p: "prepared_ok E s p"
  shows "ingestor_ok E (snd (commit E s p))"
proof (cases "pe_rejection p")
  case None
  then obtain row d where f: "pe_row p = Some row" "pe_session p = Some d"
      "pe_slot_key p = Some (me_instrument_id (pe_parsed p), me_occurred_at (pe_parsed p))"
    and r: "br_instrument_id row = me_instrument_id (pe_parsed p)"
      "br_bar_start_at row = me_occurred_at (pe_parsed p)" "br_session_date_et row = d"
      "et_session E (me_occurred_at (pe_parsed p)) = Inr d"
      "stable_shard_key E (me_instrument_id (pe_parsed p)) (in_shard_count s) = Inr (pe_shard_key p)"
    using p by (auto simp: prepared_ok_def)
  have dicts: "dict_ok (in_seen (retain s d))" "dict_ok (in_slots (retain s d))"
    using ok retain_ok by (auto simp: ingestor_ok_def)
  have buf: "buffer_ok E t" if "same_setup s t" "in_buffer t = in_buffer s" for t
    using ok that buffer_ok_setup by (auto simp: ingestor_ok_def)
  have err: "ingestor_ok E ((retain s d)\<lparr>in_ledger := snd (observe (in_ledger s) k q)\<rparr>)" for k q
    using ok dicts buf[of "(retain s d)\<lparr>in_ledger := snd (observe (in_ledger s) k q)\<rparr>"]
    by (simp add: ingestor_ok_def same_setup_def observe_has_key)
  show ?thesis
  proof (rule commit_accepted_cases[OF None f, of E s])
    fix dec st en reason
    assume pt: "partition_of d (is_partition_granularity (in_spec s)) = Inr (st, en)"
      and c: "commit E s p = (Inr (decision_of (pe_parsed p) (pe_shard_key p) True reason (Some (wd_outcome dec))),
         (retain s d)\<lparr>in_ledger := snd (observe (in_ledger s) (pe_shard_key p) (me_position (pe_parsed p))),
            in_buffer := file_row (in_buffer s) (st, en, pe_shard_key p)
               (me_instrument_id (pe_parsed p), me_occurred_at (pe_parsed p)) row,
            in_slots := dset (me_instrument_id (pe_parsed p), me_occurred_at (pe_parsed p))
               (slot_of (pe_parsed p) d) (in_slots (retain s d)),
            in_seen := dset (me_event_id (pe_parsed p)) d (in_seen (retain s d))\<rparr>)"
    let ?key = "(me_instrument_id (pe_parsed p), me_occurred_at (pe_parsed p))"
    let ?b = "file_row (in_buffer s) (st, en, pe_shard_key p) ?key row"
    have "row_filed E s (st, en, pe_shard_key p) ?key row"
      using r pt by (simp add: row_filed_def)
    then have b: "buffer_ok E (s\<lparr>in_buffer := ?b\<rparr>)"
      using ok by (intro buffer_ok_file_row) (simp_all add: ingestor_ok_def)
    have "same_setup (s\<lparr>in_buffer := ?b\<rparr>) (snd (commit E s p))" "in_buffer (snd (commit E s p)) = ?b"
      unfolding c by (simp_all add: same_setup_def observe_has_key)
    then have "buffer_ok E (snd (commit E s p))"
      using b buffer_ok_setup[of "s\<lparr>in_buffer := ?b\<rparr>" "snd (commit E s p)" E] by simp
    then show ?thesis using dicts ok unfolding ingestor_ok_def c by simp
  qed (simp_all only: snd_conv err)
qed (use ok in \<open>simp add: commit_rejected\<close>)

lemma prepare_all_ok: "prepare_all E s ov vs = Inr ps \<Longrightarrow> length ps = length vs \<and> (\<forall>p\<in>set ps. prepared_ok E s p)"
  by (induction vs arbitrary: ov ps) (auto dest: prepare_prepared_ok)

lemma commit_all_Cons:
  "snd (commit_all E s (p # ps)) =
     (if is_ok (fst (commit E s p)) then snd (commit_all E (snd (commit E s p)) ps) else snd (commit E s p))"
  by (auto split: prod.splits sum.splits)

lemma ingestor_ok_commit_all:
  "ingestor_ok E s \<Longrightarrow> \<forall>p\<in>set ps. prepared_ok E s p \<Longrightarrow> ingestor_ok E (snd (commit_all E s ps))"
proof (induction ps arbitrary: s)
  case (Cons p ps)
  have ok: "ingestor_ok E (snd (commit E s p))" using Cons.prems by (auto intro: ingestor_ok_commit)
  moreover have "\<forall>p'\<in>set ps. prepared_ok E (snd (commit E s p)) p'"
    using Cons.prems prepared_ok_setup[OF commit_setup[of s E p]] by auto
  ultimately show ?case unfolding commit_all_Cons using Cons.IH by simp
qed simp

lemma ingestor_ok_submit_batch: "ingestor_ok E s \<Longrightarrow> ingestor_ok E (snd (submit_batch E s events))"
  by (auto simp: submit_batch_def intro: ingestor_ok_commit_all dest: prepare_all_ok split: sum.splits)

text \<open>submitting a message, whatever it contains and whether or not it is refused, keeps the
  buffer well-formed: every row is filed under its own instrument and bar start, in the partition
  of its ET session and the shard of its instrument, and no partition entry is empty.\<close>

theorem submit_batch_keeps_ok:
  assumes "ingestor_ok E s"
  shows "ingestor_ok E (snd (submit_batch E s events))"
  using assms by (rule ingestor_ok_submit_batch)

section \<open>Batches\<close>

definition calendar_room :: "env \<Rightarrow> pyval \<Rightarrow> bool" where
  "calendar_room E v \<longleftrightarrow>
     (case parse_market_event E v of Inl _ \<Rightarrow> True
      | Inr m \<Rightarrow> (case et_session E (me_occurred_at m) of Inl _ \<Rightarrow> True
                  | Inr d \<Rightarrow> 8 \<le> d \<and> d \<le> max_ordinal - 366))"

definition shards_declared :: "env \<Rightarrow> ingestor \<Rightarrow> bool" where
  "shards_declared E s \<longleftrightarrow>
     list_all (\<lambda>(i, _). case stable_shard_key E i (in_shard_count s) of Inl _ \<Rightarrow> True
        | Inr sh \<Rightarrow> has_key (lg_heads (in_ledger s)) sh) (in_symbols s)"

lemma shards_declaredD:
  assumes "shards_declared E s" "has_key (in_symbols s) i" "stable_shard_key E i (in_shard_count s) = Inr sh"
  shows "has_key (lg_heads (in_ledger s)) sh"
proof -
  obtain x where "(i, x) \<in> set (in_symbols s)" using assms(2) by (auto simp: has_key_iff)
  then show ?thesis using assms(1,3) by (force simp: shards_declared_def list_all_iff)
qed

lemma shards_declared_setup: "same_setup s t \<Longrightarrow> shards_declared E s = shards_declared E t"
  by (simp add: same_setup_def shards_declared_def list_all_iff split_def split: sum.split)

lemma year_of_room: "8 \<le> d \<Longrightarrow> d \<le> max_ordinal - 366 \<Longrightarrow> 1 \<le> year_of d \<and> year_of d \<le> 9998"
proof -
  assume d: "8 \<le> d" "d \<le> max_ordinal - 366"
  have b: "days_before_year (year_of d) < d" "d \<le> days_before_year (year_of d + 1)"
    using year_of_bounds[of d] by auto
  have "1 \<le> year_of d"
  proof (rule ccontr)
    assume "\<not> 1 \<le> year_of d"
    then have "days_before_year (year_of d + 1) + 365 * int (nat (- year_of d)) \<le> days_before_year 1"
      using days_before_year_add[of "year_of d + 1" "nat (- year_of d)"] by simp
    moreover have "days_before_year 1 = 0" by code_simp
    ultimately show False using b d by linarith
  qed
  moreover have "year_of d \<le> 9998"
  proof (rule ccontr)
    assume "\<not> year_of d \<le> 9998"
    then have "days_before_year 9999 + 365 * int (nat (year_of d - 9999)) \<le> days_before_year (year_of d)"
      using days_before_year_add[of 9999 "nat (year_of d - 9999)"] by simp
    moreover have "days_before_year 9999 = max_ordinal - 365" by code_simp
    ultimately show False using b d by linarith
  qed
  ultimately show ?thesis by simp
qed

lemma partition_total:
  assumes "8 \<le> d" "d \<le> max_ordinal - 366" "g \<in> set PARTITION_GRANULARITIES"
  shows "\<exists>st en. partition_of d g = Inr (st, en)"
proof -
  have y: "1 \<le> year_of d" "year_of d \<le> 9998" using year_of_room[OF assms(1,2)] by auto
  have m: "1 \<le> month_of d" "month_of d \<le> 12" using month_of_bounds[of d] by auto
  have room: "8 \<le> d" "d + 7 \<le> max_ordinal" using assms(1,2) by (auto simp: max_ordinal_def)
  consider "g = ''DAY''" | "g = ''WEEK''" | "g = ''MONTH''" | "g = ''YEAR''"
    using assms(3) by (auto simp: PARTITION_GRANULARITIES_def)
  then show ?thesis
  proof cases
    case 1
    then show ?thesis using room by (simp add: partition_of_def add_days_def)
  next
    case 2
    then show ?thesis using room weekday_bounds[of d] by (simp add: partition_of_def add_days_def)
  next
    case 3
    then show ?thesis using y m
      by (cases "month_of d = 12") (simp_all add: partition_of_def mk_date_first year_of_ymd month_of_ymd)
  next
    case 4
    then show ?thesis using y by (simp add: partition_of_def mk_date_first)
  qed
qed

text \<open>The bar of a prepared event is in the buffer, filed in some partition.\<close>

definition buffered :: "('p, ('k, 'r) dict) dict \<Rightarrow> 'k \<Rightarrow> bool" where
  "buffered buf key \<longleftrightarrow> list_ex (\<lambda>(_, rows). has_key rows key) buf"

lemma buffered_iff: "dict_ok buf \<Longrightarrow> buffered buf k \<longleftrightarrow> (\<exists>pk rows. dget buf pk = Some rows \<and> has_key rows k)"
  by (force simp: buffered_def list_ex_iff dget_in_set[symmetric])

lemma dict_ok_file_row: "dict_ok buf \<Longrightarrow> dict_ok (file_row buf pk key row)"
  by (simp add: file_row_def)

lemma buffered_file_row:
  assumes "dict_ok buf"
  shows "buffered (file_row buf pk key row) k \<longleftrightarrow> k = key \<or> buffered buf k"
  unfolding buffered_iff[OF assms] buffered_iff[OF dict_ok_file_row[OF assms]]
  unfolding file_row_def
  by (auto simp: has_key_def split: option.splits if_splits) (metis option.distinct(1) option.inject)+

lemma commit_incomplete:
  "pe_rejection p = None \<Longrightarrow> pe_row p = None \<or> pe_session p = None \<or> pe_slot_key p = None \<Longrightarrow>
   commit E s p = (Inl AssertionError, s)"
  by (cases "pe_row p"; cases "pe_session p"; cases "pe_slot_key p") (simp_all add: commit_def)

lemma commit_buffer:
  obtains "in_buffer (snd (commit E s p)) = in_buffer s"
  | pk key row where "pe_slot_key p = Some key" "in_buffer (snd (commit E s p)) = file_row (in_buffer s) pk key row"
proof (cases "pe_rejection p")
  case None
  show thesis
  proof (cases "pe_row p = None \<or> pe_session p = None \<or> pe_slot_key p = None")
    case True
    then show thesis using that(1) commit_incomplete[OF None True, of E s] by simp
  next
    case False
    then obtain row d key where f: "pe_row p = Some row" "pe_session p = Some d" "pe_slot_key p = Some key" by auto
    show thesis by (rule commit_accepted_cases[OF None f, of E s]) (use that f in simp_all)
  qed
qed (use that in \<open>simp add: commit_rejected\<close>)

lemma buffered_commit:
  assumes "dict_ok (in_buffer s)"
  shows "dict_ok (in_buffer (snd (commit E s p)))" "buffered (in_buffer s) k \<Longrightarrow> buffered (in_buffer (snd (commit E s p))) k"
  by (rule commit_buffer[of E s p]; use assms in \<open>simp add: dict_ok_file_row buffered_file_row\<close>)+

lemma buffered_commit_all:
  "dict_ok (in_buffer s) \<Longrightarrow> buffered (in_buffer s) k \<Longrightarrow> buffered (in_buffer (snd (commit_all E s ps))) k"
  by (induction ps arbitrary: s) (simp_all only: commit_all_Cons buffered_commit if_split, simp_all add: buffered_commit)

lemma commit_fits:
  assumes "prepared_ok E s p" "shards_declared E s"
    and room: "\<And>d. pe_session p = Some d \<Longrightarrow> \<exists>st en. partition_of d (is_partition_granularity (in_spec s)) = Inr (st, en)"
    and ok: "dict_ok (in_buffer s)"
  shows "\<exists>dec. fst (commit E s p) = Inr dec \<and> id_event_id dec = me_event_id (pe_parsed p) \<and>
    (id_accepted dec \<longleftrightarrow> pe_rejection p = None) \<and>
    (id_accepted dec \<longrightarrow> buffered (in_buffer (snd (commit E s p))) (me_instrument_id (pe_parsed p), me_occurred_at (pe_parsed p)))"
proof (cases "pe_rejection p")
  case None
  then obtain row d where f: "pe_row p = Some row" "pe_session p = Some d"
      "pe_slot_key p = Some (me_instrument_id (pe_parsed p), me_occurred_at (pe_parsed p))"
    and sh: "stable_shard_key E (me_instrument_id (pe_parsed p)) (in_shard_count s) = Inr (pe_shard_key p)"
      "has_key (in_symbols s) (me_instrument_id (pe_parsed p))"
    using assms(1) by (auto simp: prepared_ok_def)
  have hk: "has_key (lg_heads (in_ledger s)) (pe_shard_key p)" by (rule shards_declaredD[OF assms(2) sh(2,1)])
  show ?thesis
  proof (rule commit_accepted_cases[OF None f, of E s])
    fix dec st en reason
    let ?key = "(me_instrument_id (pe_parsed p), me_occurred_at (pe_parsed p))"
    assume "commit E s p = (Inr (decision_of (pe_parsed p) (pe_shard_key p) True reason (Some (wd_outcome dec))),
         (retain s d)\<lparr>in_ledger := snd (observe (in_ledger s) (pe_shard_key p) (me_position (pe_parsed p))),
            in_buffer := file_row (in_buffer s) (st, en, pe_shard_key p) ?key row,
            in_slots := dset ?key (slot_of (pe_parsed p) d) (in_slots (retain s d)),
            in_seen := dset (me_event_id (pe_parsed p)) d (in_seen (retain s d))\<rparr>)"
    then show ?thesis by (simp add: None decision_of_def buffered_file_row[OF ok])
  qed (use hk room[OF f(2)] in simp_all)
qed (simp add: commit_rejected decision_of_def)

definition applied :: "(partition_key, (slot_key, bar_row) dict) dict \<Rightarrow> market_event \<Rightarrow> ingest_decision \<Rightarrow> bool" where
  "applied buf m d \<longleftrightarrow> id_event_id d = me_event_id m \<and>
     (id_accepted d \<longrightarrow> buffered buf (me_instrument_id m, me_occurred_at m))"

lemma commit_all_fits:
  assumes "\<forall>p\<in>set ps. prepared_ok E s p" "shards_declared E s" "dict_ok (in_buffer s)"
    and "\<forall>p\<in>set ps. \<forall>d. pe_session p = Some d \<longrightarrow> (\<exists>st en. partition_of d (is_partition_granularity (in_spec s)) = Inr (st, en))"
  shows "\<exists>ds. fst (commit_all E s ps) = Inr ds \<and>
     list_all2 (\<lambda>p d. applied (in_buffer (snd (commit_all E s ps))) (pe_parsed p) d \<and>
        (id_accepted d \<longleftrightarrow> pe_rejection p = None)) ps ds"
  using assms
proof (induction ps arbitrary: s)
  case (Cons p ps)
  obtain dec where dec: "fst (commit E s p) = Inr dec" "id_event_id dec = me_event_id (pe_parsed p)"
    "id_accepted dec \<longleftrightarrow> pe_rejection p = None"
    "id_accepted dec \<longrightarrow> buffered (in_buffer (snd (commit E s p))) (me_instrument_id (pe_parsed p), me_occurred_at (pe_parsed p))"
    using commit_fits[of E s p] Cons.prems by auto
  let ?t = "snd (commit E s p)"
  have same: "same_setup s ?t" by (rule commit_setup)
  then have "\<forall>p'\<in>set ps. prepared_ok E ?t p'" "shards_declared E ?t"
    using Cons.prems prepared_ok_setup shards_declared_setup by auto
  moreover have bok: "dict_ok (in_buffer ?t)" using Cons.prems(3) by (rule buffered_commit)
  moreover have "in_spec ?t = in_spec s" using same by (simp add: same_setup_def)
  ultimately obtain ds where ds: "fst (commit_all E ?t ps) = Inr ds"
      "list_all2 (\<lambda>p d. applied (in_buffer (snd (commit_all E ?t ps))) (pe_parsed p) d \<and>
        (id_accepted d \<longleftrightarrow> pe_rejection p = None)) ps ds"
    using Cons.IH[of ?t] Cons.prems(4) by auto
  have snd: "snd (commit_all E s (p # ps)) = snd (commit_all E ?t ps)"
    by (simp add: commit_all_Cons dec(1) del: commit_all.simps)
  have "fst (commit_all E s (p # ps)) = Inr (dec # ds)"
    using dec(1) ds(1) by (auto split: prod.splits sum.splits)
  moreover have "applied (in_buffer (snd (commit_all E ?t ps))) (pe_parsed p) dec"
    using dec(2,4) buffered_commit_all[OF bok] by (auto simp: applied_def)
  ultimately show ?case using ds(2) dec(3) unfolding snd by simp
qed simp

lemma prepare_all_parsed:
  "prepare_all E s ov vs = Inr ps \<Longrightarrow> list_all2 (\<lambda>v p. parse_market_event E v = Inr (pe_parsed p)) vs ps"
proof (induction vs arbitrary: ov ps)
  case (Cons v vs)
  then obtain p ov' ps' where p: "prepare E s ov v = Inr (p, ov')" "prepare_all E s ov' vs = Inr ps'" "ps = p # ps'"
    by auto
  have "parse_market_event E v = Inr (pe_parsed p)"
    using p(1) by (rule prepare_cases) (auto simp: rejected_def)
  then show ?case using Cons.IH[OF p(2)] p(3) by simp
qed simp

lemma room_partition:
  assumes "calendar_room E v" "parse_market_event E v = Inr (pe_parsed p)" "prepared_ok E s p"
    "pe_rejection p = None" "g \<in> set PARTITION_GRANULARITIES" "pe_session p = Some d"
  shows "\<exists>st en. partition_of d g = Inr (st, en)"
  using assms by (intro partition_total) (auto simp: calendar_room_def prepared_ok_def)

lemma spec_check_granularity: "spec_check sp = Inr () \<Longrightarrow> is_partition_granularity sp \<in> set PARTITION_GRANULARITIES"
  by (auto simp: spec_check_def split: if_splits)

lemma list_all2_in_right: "list_all2 P xs ys \<Longrightarrow> y \<in> set ys \<Longrightarrow> \<exists>x\<in>set xs. P x y"
  by (induction rule: list_all2_induct) auto

lemma prepare_session: "prepare E s ov v = Inr (p, ov') \<Longrightarrow> pe_session p = Some d \<Longrightarrow> pe_rejection p = None"
  by (erule prepare_cases) (auto simp: rejected_def)

lemma prepare_all_session: "prepare_all E s ov vs = Inr ps \<Longrightarrow> p \<in> set ps \<Longrightarrow> pe_session p = Some d \<Longrightarrow> pe_rejection p = None"
  by (induction vs arbitrary: ov ps) (auto dest: prepare_session)

text \<open>C3: a message is ingested whole or not at all. For a checked specification whose ledger
  declares the shards of the mapped instruments, and bars inside the calendar, a refused batch
  leaves the ingestor untouched; an accepted one answers every event in order, and each accepted
  bar is in the buffer at the end of the batch.\<close>

theorem batch_all_or_nothing:
  assumes "ingestor_ok E s" "spec_check (in_spec s) = Inr ()" "shards_declared E s"
    "list_all (calendar_room E) events"
  shows "case submit_batch E s events of
      (Inl e, s') \<Rightarrow> s' = s
    | (Inr ds, s') \<Rightarrow> list_all2 (\<lambda>v d. \<exists>m. parse_market_event E v = Inr m \<and> applied (in_buffer s') m d) events ds"
proof (cases "prepare_all E s empty_overlay events")
  case (Inr ps)
  have pok: "\<forall>p\<in>set ps. prepared_ok E s p" using prepare_all_ok[OF Inr] by simp
  have par: "list_all2 (\<lambda>v p. parse_market_event E v = Inr (pe_parsed p)) events ps" by (rule prepare_all_parsed[OF Inr])
  have room: "\<exists>st en. partition_of d (is_partition_granularity (in_spec s)) = Inr (st, en)"
    if "p \<in> set ps" "pe_session p = Some d" for p d
  proof -
    have "\<exists>v\<in>set events. parse_market_event E v = Inr (pe_parsed p)"
      using list_all2_in_right[OF par that(1)] .
    then obtain v where "v \<in> set events" "parse_market_event E v = Inr (pe_parsed p)" by blast
    moreover have "pe_rejection p = None" using prepare_all_session[OF Inr that] .
    ultimately show ?thesis
      using room_partition[of E v p s "is_partition_granularity (in_spec s)" d] assms(4) pok that
        spec_check_granularity[OF assms(2)] by (auto simp: list_all_iff)
  qed
  then obtain ds where ds: "fst (commit_all E s ps) = Inr ds"
      "list_all2 (\<lambda>p d. applied (in_buffer (snd (commit_all E s ps))) (pe_parsed p) d \<and>
        (id_accepted d \<longleftrightarrow> pe_rejection p = None)) ps ds"
    using commit_all_fits[OF pok assms(3)] assms(1) by (auto simp: ingestor_ok_def buffer_ok_def)
  have "list_all2 (\<lambda>v d. \<exists>m. parse_market_event E v = Inr m \<and> applied (in_buffer (snd (commit_all E s ps))) m d) events ds"
    by (rule list_all2_trans[OF _ par ds(2)]) auto
  moreover have "submit_batch E s events = (Inr ds, snd (commit_all E s ps))"
    using ds(1) Inr by (simp add: submit_batch_def prod_eq_iff)
  ultimately show ?thesis by simp
qed (simp add: submit_batch_def)

section \<open>A concrete ingestor, for the witnesses\<close>

definition spec_demo :: ingest_spec where
  "spec_demo = \<lparr>is_contract = mk_contract ''raw'' ''RAW'' ''1m'' RAW_1M_FEED, is_event_type = ''BAR_1M'',
     is_source_provider = ''ALPACA'', is_source_feed = ''SIP'', is_source_resolution = ''PT1M'',
     is_partition_granularity = ''DAY'',
     is_fields = \<lparr>bf_open = ''o'', bf_high = ''h'', bf_low = ''l'', bf_close = ''c'', bf_volume = ''v'',
        bf_trade_count = None, bf_vwap = None\<rparr>\<rparr>"

definition ingestor_demo :: ingestor where
  "ingestor_demo = \<lparr>in_spec = spec_demo,
     in_ledger = \<lparr>lg_feed_id = ''f'', lg_shard_keys = [''s01-of-2''], lg_resumed_from = None,
        lg_heads = [(''s01-of-2'', None)]\<rparr>,
     in_shard_count = 2, in_retention = 2, in_symbols = [(''I'', ''AAA'')], in_buffer = [], in_seen = [],
     in_slots = []\<rparr>"

lemma ingestor_demo_ok: "ingestor_ok ingest_env ingestor_demo" "spec_check (in_spec ingestor_demo) = Inr ()"
  "shards_declared ingest_env ingestor_demo"
  by (simp add: ingestor_ok_def buffer_ok_def ingestor_demo_def) code_simp+

definition events_demo :: "pyval list" where
  "events_demo = [event_demo ''e1'' ''AZ'' 0 VNone 1, event_demo ''e2'' ''BZ'' 0 VNone 2,
     event_demo ''e3'' ''AZ'' 1 (VStr ''e1'') 3]"

lemma events_demo_accepted:
  "map_sum id (map id_reason) (fst (submit_batch ingest_env ingestor_demo events_demo)) =
     Inr [''ACCEPTED_NEW'', ''ACCEPTED_NEW'', ''CORRECTION_APPLIED'']"
  by code_simp

theorem submit_batch_keeps_ok_witness:
  "ingestor_ok ingest_env (snd (submit_batch ingest_env ingestor_demo events_demo))"
  by (rule submit_batch_keeps_ok[OF ingestor_demo_ok(1)])

theorem batch_all_or_nothing_witness:
  "\<exists>ds s'. submit_batch ingest_env ingestor_demo events_demo = (Inr ds, s') \<and> length ds = 3 \<and>
     list_all2 (\<lambda>v d. \<exists>m. parse_market_event ingest_env v = Inr m \<and> applied (in_buffer s') m d) events_demo ds"
proof -
  obtain r s' where r: "submit_batch ingest_env ingestor_demo events_demo = (r, s')" by fastforce
  obtain ds where ds: "r = Inr ds" "map id_reason ds = [''ACCEPTED_NEW'', ''ACCEPTED_NEW'', ''CORRECTION_APPLIED'']"
    using events_demo_accepted r by (cases r) auto
  have room: "list_all (calendar_room ingest_env) events_demo" by code_simp
  have "length ds = 3" using arg_cong[OF ds(2), of length] by simp
  then show ?thesis using batch_all_or_nothing[OF ingestor_demo_ok room] r ds(1) by simp
qed

end
