(* ===== verification/Realtime_Replay.thy ===== *)
theory Realtime_Replay
  imports Realtime_Safety
begin

text \<open>
  What \<open>RealtimeIngestor\<close> does with events it has seen before: redelivered messages,
  corrections, late events, and how much de-duplication state it keeps.
\<close>

section \<open>Redelivery\<close>

lemma prepare_again:
  assumes "prepare E s ov v = Inr (p, ov')" "pe_rejection p = None" "same_setup s t"
    "has_key (in_seen t) (me_event_id (pe_parsed p))"
  shows "prepare E t ov2 v = Inr (rejected (pe_parsed p) (pe_shard_key p) ''DUPLICATE_EVENT'', ov2)"
proof -
  obtain m where m: "parse_market_event E v = Inr m" using assms(1) by (auto simp: prepare_def)
  obtain symbol where sym: "dget (in_symbols s) (me_instrument_id m) = Some symbol"
    using assms(1) m by (auto simp: prepare_def Let_def split: if_splits option.splits)
  obtain sh where sh: "stable_shard_key E (me_instrument_id m) (in_shard_count s) = Inr sh"
    using assms(1) m sym by (auto simp: prepare_def Let_def split: if_splits)
  have g: "me_provider m = is_source_provider (in_spec s)" "me_feed m = is_source_feed (in_spec s)"
    "me_event_type m = is_event_type (in_spec s)"
    using assms(1,2) m sym sh by (auto simp: prepare_def rejected_def Let_def split: if_splits)
  have p: "pe_parsed p = m" "pe_shard_key p = sh"
    using assms(1,2) m sym sh g by (auto simp: prepare_def rejected_def Let_def split: if_splits option.splits)
  have t: "in_spec t = in_spec s" "in_symbols t = in_symbols s" "in_shard_count t = in_shard_count s"
    using assms(3) by (simp_all add: same_setup_def)
  show ?thesis using m sym sh g assms(4) by (simp add: prepare_def Let_def t p)
qed

lemma commit_decision:
  assumes "fst (commit E s p) = Inr d"
  shows "id_event_id d = me_event_id (pe_parsed p) \<and> (id_accepted d \<longleftrightarrow> pe_rejection p = None)"
proof (cases "pe_rejection p")
  case None
  then obtain row e key where f: "pe_row p = Some row" "pe_session p = Some e" "pe_slot_key p = Some key"
    using assms commit_incomplete[OF None, of E s] by fastforce
  show ?thesis by (rule commit_accepted_cases[OF None f, of E s]) (use assms None in \<open>auto simp: decision_of_def\<close>)
qed (use assms in \<open>auto simp: commit_rejected decision_of_def\<close>)

lemma commit_all_decisions:
  "fst (commit_all E s ps) = Inr ds \<Longrightarrow>
   list_all2 (\<lambda>p d. id_event_id d = me_event_id (pe_parsed p) \<and> (id_accepted d \<longleftrightarrow> pe_rejection p = None)) ps ds"
proof (induction ps arbitrary: s ds)
  case (Cons p ps)
  then obtain d s1 where 1: "commit E s p = (Inr d, s1)" by (auto split: prod.splits sum.splits)
  then obtain ds' s2 where 2: "commit_all E s1 ps = (Inr ds', s2)" "ds = d # ds'"
    using Cons.prems by (auto split: prod.splits sum.splits)
  show ?case using commit_decision[of E s p d] Cons.IH[of s1 ds'] 1 2 by simp
qed simp

lemma commit_all_setup: "same_setup s (snd (commit_all E s ps))"
  by (induction ps arbitrary: s)
     (simp, unfold commit_all_Cons, auto intro: same_setup_trans commit_setup)

lemma prepare_all_again:
  assumes "prepare_all E s ov vs = Inr ps" "\<forall>p\<in>set ps. pe_rejection p = None" "same_setup s t"
    "\<forall>p\<in>set ps. has_key (in_seen t) (me_event_id (pe_parsed p))"
  shows "prepare_all E t ov2 vs = Inr (map (\<lambda>p. rejected (pe_parsed p) (pe_shard_key p) ''DUPLICATE_EVENT'') ps)"
  using assms
proof (induction vs arbitrary: ov ps)
  case (Cons v vs)
  then obtain p ov' ps' where p: "prepare E s ov v = Inr (p, ov')" "prepare_all E s ov' vs = Inr ps'" "ps = p # ps'"
    by auto
  then show ?case using Cons.IH[OF p(2)] Cons.prems prepare_again[OF p(1)] by simp
qed simp

lemma commit_all_rejected:
  "commit_all E s (map (\<lambda>p. rejected (pe_parsed p) (pe_shard_key p) r) ps) =
     (Inr (map (\<lambda>p. decision_of (pe_parsed p) (pe_shard_key p) False r None) ps), s)"
  by (induction ps) (simp_all add: commit_def rejected_def)

text \<open>redelivering a message whose events were all accepted, while their ids are still
  retained, changes nothing: every event is answered \<open>DUPLICATE_EVENT\<close> and the ingestor,
  its buffer, slots and ledger included, is exactly as it was.\<close>

theorem batch_redelivery_is_noop:
  assumes "submit_batch E s events = (Inr ds, s')"
    "\<forall>d\<in>set ds. id_accepted d \<and> has_key (in_seen s') (id_event_id d)"
  shows "\<exists>ds'. submit_batch E s' events = (Inr ds', s') \<and> map id_event_id ds' = map id_event_id ds \<and>
    (\<forall>d\<in>set ds'. id_reason d = ''DUPLICATE_EVENT'' \<and> \<not> id_accepted d)"
proof -
  obtain ps where ps: "prepare_all E s empty_overlay events = Inr ps" and c: "commit_all E s ps = (Inr ds, s')"
    using assms(1) by (auto simp: submit_batch_def split: sum.splits)
  have rel: "list_all2 (\<lambda>p d. id_event_id d = me_event_id (pe_parsed p) \<and> (id_accepted d \<longleftrightarrow> pe_rejection p = None)) ps ds"
    using commit_all_decisions[of E s ps ds] c by simp
  then have ids: "map id_event_id ds = map (\<lambda>p. me_event_id (pe_parsed p)) ps"
    by (induction rule: list_all2_induct) simp_all
  have "\<forall>p\<in>set ps. pe_rejection p = None \<and> has_key (in_seen s') (me_event_id (pe_parsed p))"
    using rel assms(2) by (induction rule: list_all2_induct) simp_all
  then have "prepare_all E s' empty_overlay events =
      Inr (map (\<lambda>p. rejected (pe_parsed p) (pe_shard_key p) ''DUPLICATE_EVENT'') ps)"
    using prepare_all_again[OF ps, of s' empty_overlay] commit_all_setup[of s E ps] c by simp
  then show ?thesis using ids
    by (simp add: submit_batch_def commit_all_rejected decision_of_def)
qed

theorem batch_redelivery_is_noop_witness:
  "\<exists>s' ds'. submit_batch ingest_env s' events_demo = (Inr ds', s') \<and> length ds' = 3"
proof -
  let ?r = "submit_batch ingest_env ingestor_demo events_demo"
  have "map_sum id (\<lambda>ds. length ds = 3 \<and> list_all (\<lambda>d. id_accepted d \<and> has_key (in_seen (snd ?r)) (id_event_id d)) ds) (fst ?r) = Inr True"
    by code_simp
  then obtain ds where ds: "?r = (Inr ds, snd ?r)" "length ds = 3"
      "\<forall>d\<in>set ds. id_accepted d \<and> has_key (in_seen (snd ?r)) (id_event_id d)"
    by (cases "fst ?r") (auto simp: list_all_iff prod_eq_iff)
  obtain ds' where "submit_batch ingest_env (snd ?r) events_demo = (Inr ds', snd ?r)" "map id_event_id ds' = map id_event_id ds"
    using batch_redelivery_is_noop[OF ds(1,3)] by blast
  moreover have "length ds' = 3" using map_eq_imp_length_eq calculation(2) ds(2) by metis
  ultimately show ?thesis by blast
qed

section \<open>Revisions\<close>

definition slot_le :: "bar_slot option \<Rightarrow> bar_slot option \<Rightarrow> bool" where
  "slot_le a b \<longleftrightarrow> (\<forall>x. a = Some x \<longrightarrow> (\<exists>y. b = Some y \<and> (y = x \<or> bs_revision x < bs_revision y)))"

lemma slot_le_refl [simp]: "slot_le a a"
  by (simp add: slot_le_def)

lemma slot_le_trans: "slot_le a b \<Longrightarrow> slot_le b c \<Longrightarrow> slot_le a c"
  unfolding slot_le_def by (metis order_less_trans)

lemma prepare_overlay_le: "prepare E s ov v = Inr (p, ov') \<Longrightarrow> slot_le (held_slot s ov k) (held_slot s ov' k)"
  by (erule prepare_cases) (auto simp: slot_le_def held_slot_def slot_of_def)

lemma retain_slots: "dict_ok (in_slots s) \<Longrightarrow> dget (in_slots (retain s d)) k = Some x \<Longrightarrow> dget (in_slots s) k = Some x"
  by (auto simp: retain_def Let_def dget_filter split: if_splits option.splits)

lemma commit_slots:
  assumes "dict_ok (in_slots t)" "dget (in_slots (snd (commit E t p))) k = Some x"
  shows "dget (in_slots t) k = Some x \<or> is_ok (fst (commit E t p)) \<and> pe_rejection p = None \<and>
    (\<exists>d. pe_session p = Some d \<and> pe_slot_key p = Some k \<and> x = slot_of (pe_parsed p) d)"
proof (cases "pe_rejection p")
  case None
  show ?thesis
  proof (cases "pe_row p = None \<or> pe_session p = None \<or> pe_slot_key p = None")
    case True
    then show ?thesis using assms(2) commit_incomplete[OF None True, of E t] by simp
  next
    case False
    then obtain row d key where f: "pe_row p = Some row" "pe_session p = Some d" "pe_slot_key p = Some key" by auto
    show ?thesis
      by (rule commit_accepted_cases[OF None f, of E t])
         (use assms f None retain_slots[OF assms(1), of d k] in \<open>auto split: if_splits\<close>)
  qed
qed (use assms in \<open>simp add: commit_rejected\<close>)

definition slots_within :: "ingestor \<Rightarrow> batch_overlay \<Rightarrow> ingestor \<Rightarrow> bool" where
  "slots_within s ov t \<longleftrightarrow> (\<forall>k x. dget (in_slots t) k = Some x \<longrightarrow> held_slot s ov k = Some x)"

lemma slots_within_commit:
  assumes "slots_within s ov t" "prepare E s ov v = Inr (p, ov')" "dict_ok (in_slots t)" "is_ok (fst (commit E t p))"
  shows "slots_within s ov' (snd (commit E t p))"
  using assms(2)
proof (rule prepare_cases)
  fix m sh r assume p: "p = rejected m sh r" "ov' = ov"
  then have "commit E t p = (Inr (decision_of m sh False r None), t)" by (simp add: commit_def rejected_def)
  then show ?thesis using assms(1) p by simp
next
  fix m sh row d
  assume p: "p = \<lparr>pe_parsed = m, pe_shard_key = sh, pe_rejection = None, pe_row = Some row,
            pe_session = Some d, pe_slot_key = Some (me_instrument_id m, me_occurred_at m)\<rparr>"
    and ov': "ov' = \<lparr>ov_event_ids = me_event_id m # ov_event_ids ov,
              ov_slots = dset (me_instrument_id m, me_occurred_at m) (slot_of m d) (ov_slots ov)\<rparr>"
  let ?key = "(me_instrument_id m, me_occurred_at m)"
  have f: "pe_rejection p = None" "pe_row p = Some row" "pe_session p = Some d" "pe_slot_key p = Some ?key"
    by (simp_all add: p)
  have at_key: "dget (in_slots (snd (commit E t p))) ?key = Some (slot_of m d)"
    by (rule commit_accepted_cases[OF f, of E t]) (use assms(4) in \<open>simp_all add: p\<close>)
  show ?thesis
    unfolding slots_within_def
  proof (intro allI impI)
    fix k x assume x: "dget (in_slots (snd (commit E t p))) k = Some x"
    show "held_slot s ov' k = Some x"
    proof (cases "k = ?key")
      case True
      then show ?thesis using x at_key by (simp add: held_slot_def ov')
    next
      case False
      then have "dget (in_slots t) k = Some x" using commit_slots[OF assms(3) x] by (auto simp: p)
      then have "held_slot s ov k = Some x" using assms(1) unfolding slots_within_def by blast
      then show ?thesis using False by (simp add: held_slot_def ov')
    qed
  qed
qed

lemma commit_all_slots:
  assumes "prepare_all E s ov vs = Inr ps" "slots_within s ov t" "ingestor_ok E t" "same_setup s t"
    "dget (in_slots (snd (commit_all E t ps))) k = Some y"
  shows "slot_le (held_slot s ov k) (Some y)"
  using assms
proof (induction vs arbitrary: ov ps t)
  case Nil
  then have "dget (in_slots t) k = Some y" by simp
  then have "held_slot s ov k = Some y" using Nil(2) unfolding slots_within_def by blast
  then show ?case by simp
next
  case (Cons v vs)
  then obtain p ov' ps' where p: "prepare E s ov v = Inr (p, ov')" "prepare_all E s ov' vs = Inr ps'" "ps = p # ps'"
    by auto
  have dok: "dict_ok (in_slots t)" using Cons.prems(3) by (simp add: ingestor_ok_def)
  let ?t = "snd (commit E t p)"
  show ?case
  proof (cases "is_ok (fst (commit E t p))")
    case True
    have "prepared_ok E t p" using prepare_prepared_ok[OF p(1)] prepared_ok_setup[OF Cons.prems(4)] by simp
    then have "ingestor_ok E ?t" by (rule ingestor_ok_commit[OF Cons.prems(3)])
    moreover have "same_setup s ?t" using Cons.prems(4) commit_setup by (rule same_setup_trans)
    moreover have "dget (in_slots (snd (commit_all E ?t ps'))) k = Some y"
      using Cons.prems(5) True unfolding p(3) commit_all_Cons by simp
    ultimately have "slot_le (held_slot s ov' k) (Some y)"
      using Cons.IH[OF p(2)] slots_within_commit[OF Cons.prems(2) p(1) dok True] by blast
    then show ?thesis using slot_le_trans[OF prepare_overlay_le[OF p(1)]] by blast
  next
    case False
    then have "dget (in_slots ?t) k = Some y" using Cons.prems(5) unfolding p(3) commit_all_Cons by simp
    then have "dget (in_slots t) k = Some y" using commit_slots[OF dok] False by blast
    then have "held_slot s ov k = Some y" using Cons.prems(2) unfolding slots_within_def by blast
    then show ?thesis by simp
  qed
qed



section \<open>Retention\<close>

lemma set_sessions_retain:
  "set (sessions_of (retain s d)) \<subseteq> set (sessions_of s)"
  by (auto simp: retain_def sessions_of_def Let_def)

lemma retain_sessions:
  assumes "1 \<le> in_retention s"
  shows "card (set (sessions_of (retain s d)) \<union> {d}) \<le> nat (in_retention s) + 1"
proof -
  define xs where "xs = dedup_sorted (d # sessions_of s)"
  define n where "n = nat (in_retention s)"
  have set: "set xs = insert d (set (sessions_of s))" and dist: "distinct xs" by (simp_all add: xs_def)
  show ?thesis
  proof (cases "length xs \<le> n")
    case True
    then have "retain s d = s" by (simp add: retain_def Let_def xs_def n_def)
    then have "card (set (sessions_of (retain s d)) \<union> {d}) = length xs"
      using set distinct_card[OF dist] by simp
    then show ?thesis using True by (simp add: n_def)
  next
    case False
    let ?keep = "set (drop (length xs - n) xs)"
    have "set (sessions_of (retain s d)) \<subseteq> ?keep"
    proof -
      have r: "retain s d = s\<lparr>in_seen := filter (\<lambda>(_, seen). seen \<in> ?keep) (in_seen s),
          in_slots := filter (\<lambda>(_, slot). bs_session slot \<in> ?keep) (in_slots s)\<rparr>"
        using False by (simp add: retain_def Let_def xs_def n_def)
      show ?thesis unfolding r by (auto simp: sessions_of_def)
    qed
    then have "card (set (sessions_of (retain s d)) \<union> {d}) \<le> card (insert d ?keep)"
      by (intro card_mono) auto
    also have "\<dots> \<le> card ?keep + 1" by (simp add: card_insert_if)
    also have "card ?keep = n" using dist False by (simp add: distinct_card)
    finally show ?thesis by (simp add: n_def)
  qed
qed

lemma sessions_commit:
  assumes "fst (commit E s p) = Inr d" "pe_rejection p = None" "pe_session p = Some e"
  shows "set (sessions_of (snd (commit E s p))) \<subseteq> set (sessions_of (retain s e)) \<union> {e}"
proof -
  obtain row key where f: "pe_row p = Some row" "pe_slot_key p = Some key"
    using assms commit_incomplete[OF assms(2), of E s] by fastforce
  show ?thesis
    by (rule commit_accepted_cases[OF assms(2) f(1) assms(3) f(2), of E s])
       (use assms(1) in \<open>auto simp: sessions_of_def slot_of_def dest!: in_set_dset\<close>)
qed

text \<open>after an accepted event the ingestor holds de-duplication state of at most one session
  more than the configured retention, whatever it held before.\<close>

theorem retention_bound:
  assumes "1 \<le> in_retention s" "submit E s v = (Inr d, s')" "id_accepted d"
  shows "card (set (sessions_of s')) \<le> nat (in_retention s) + 1"
proof -
  obtain p ov where p: "prepare E s empty_overlay v = Inr (p, ov)" "commit E s p = (Inr d, s')"
    using assms(2) by (auto simp: submit_def split: sum.splits)
  have rej: "pe_rejection p = None" using commit_decision[of E s p d] p(2) assms(3) by simp
  then obtain e where e: "pe_session p = Some e"
    using prepare_prepared_ok[OF p(1)] by (auto simp: prepared_ok_def)
  have "set (sessions_of s') \<subseteq> set (sessions_of (retain s e)) \<union> {e}"
    using sessions_commit[OF _ rej e, of E s d] p(2) by simp
  then have "card (set (sessions_of s')) \<le> card (set (sessions_of (retain s e)) \<union> {e})"
    by (intro card_mono) auto
  then show ?thesis using retain_sessions[OF assms(1), of e] by simp
qed

definition late_events :: "pyval list" where
  "late_events = [event_demo ''e2'' ''BZ'' 0 VNone 2, event_demo ''e3'' ''CZ'' 0 VNone 3]"

theorem retention_bound_witness:
  "\<exists>s d s'. submit ingest_env s (event_demo ''e1'' ''AZ'' 0 VNone 1) = (Inr d, s') \<and> in_retention s = 2 \<and>
     card (set (sessions_of s')) \<le> 3"
proof -
  let ?s = "snd (submit_batch ingest_env ingestor_demo late_events)"
  let ?r = "submit ingest_env ?s (event_demo ''e1'' ''AZ'' 0 VNone 1)"
  have "map_sum id id_accepted (fst ?r) = Inr True" "in_retention ?s = 2" by code_simp+
  then obtain d where d: "?r = (Inr d, snd ?r)" "id_accepted d" by (cases "fst ?r") (auto simp: prod_eq_iff)
  have "card (set (sessions_of (snd ?r))) \<le> 3"
    using retention_bound[OF _ d] \<open>in_retention ?s = 2\<close> by simp
  then show ?thesis using d(1) \<open>in_retention ?s = 2\<close> by blast
qed

text \<open>the bound is reached: an event of a session older than the retained ones is filed after
  the pruning, so with a retention of two sessions three are held.\<close>

theorem retention_overrun:
  "in_retention ingestor_demo = 2 \<and>
   dedup_sorted (sessions_of (snd (submit_batch ingest_env ingestor_demo
      (late_events @ [event_demo ''e1'' ''AZ'' 0 VNone 1])))) = [719228, 719229, 719230]"
  by code_simp

section \<open>Late events\<close>

text \<open>the watermark is a freshness projection, never an admission gate: under any other ledger
  with the same declared shards, wherever its heads are, an event is accepted or refused alike and
  leaves the same buffer, slots and seen events.\<close>

theorem watermark_is_not_a_gate:
  assumes "\<forall>k. has_key (lg_heads L) k \<longleftrightarrow> has_key (lg_heads (in_ledger s)) k"
  shows "map_sum id id_accepted (fst (submit E (s\<lparr>in_ledger := L\<rparr>) v)) = map_sum id id_accepted (fst (submit E s v)) \<and>
    in_buffer (snd (submit E (s\<lparr>in_ledger := L\<rparr>) v)) = in_buffer (snd (submit E s v)) \<and>
    in_slots (snd (submit E (s\<lparr>in_ledger := L\<rparr>) v)) = in_slots (snd (submit E s v)) \<and>
    in_seen (snd (submit E (s\<lparr>in_ledger := L\<rparr>) v)) = in_seen (snd (submit E s v))"
proof -
  let ?t = "s\<lparr>in_ledger := L\<rparr>"
  have prep: "prepare E ?t empty_overlay v = prepare E s empty_overlay v"
    by (simp add: prepare_def held_slot_def Let_def cong: option.case_cong if_cong)
  have ret: "retain ?t d = (retain s d)\<lparr>in_ledger := L\<rparr>" for d
    by (simp add: retain_def sessions_of_def Let_def)
  have "map_sum id id_accepted (fst (commit E ?t p)) = map_sum id id_accepted (fst (commit E s p)) \<and>
     in_buffer (snd (commit E ?t p)) = in_buffer (snd (commit E s p)) \<and>
     in_slots (snd (commit E ?t p)) = in_slots (snd (commit E s p)) \<and>
     in_seen (snd (commit E ?t p)) = in_seen (snd (commit E s p))" for p
  proof (cases "pe_rejection p")
    case None
    show ?thesis
    proof (cases "pe_row p = None \<or> pe_session p = None \<or> pe_slot_key p = None")
      case True
      then show ?thesis using commit_incomplete[OF None True] by simp
    next
      case False
      then obtain row d key where f: "pe_row p = Some row" "pe_session p = Some d" "pe_slot_key p = Some key" by auto
      have e: "fst (observe M k q) = Inl x \<Longrightarrow> x = UnknownShardError" for M k q x
        by (auto simp: observe_def Let_def split: option.splits)
      show ?thesis
        using assms[rule_format, of "pe_shard_key p"] None f
          observe_ok_iff[of L "pe_shard_key p" "me_position (pe_parsed p)"]
          observe_ok_iff[of "in_ledger s" "pe_shard_key p" "me_position (pe_parsed p)"]
          e[of L "pe_shard_key p" "me_position (pe_parsed p)"]
          e[of "in_ledger s" "pe_shard_key p" "me_position (pe_parsed p)"]
        by (cases "observe L (pe_shard_key p) (me_position (pe_parsed p))";
            cases "observe (in_ledger s) (pe_shard_key p) (me_position (pe_parsed p))")
           (auto simp: commit_def ret Let_def decision_of_def split: sum.splits prod.splits)
    qed
  qed (simp add: commit_rejected)
  then show ?thesis by (simp add: submit_def prep split: sum.split)
qed

theorem watermark_is_not_a_gate_witness:
  "let L = (in_ledger ingestor_demo)\<lparr>lg_heads := [(''s01-of-2'', Some \<lparr>sp_source_event_at = 10 ^ 17, sp_sequence = None\<rparr>)]\<rparr>;
       v = event_demo ''e1'' ''AZ'' 0 VNone 1
   in map_sum id id_accepted (fst (submit ingest_env (ingestor_demo\<lparr>in_ledger := L\<rparr>) v)) =
      map_sum id id_accepted (fst (submit ingest_env ingestor_demo v))"
proof -
  let ?L = "(in_ledger ingestor_demo)\<lparr>lg_heads := [(''s01-of-2'', Some \<lparr>sp_source_event_at = 10 ^ 17, sp_sequence = None\<rparr>)]\<rparr>"
  have "\<forall>k. has_key (lg_heads ?L) k \<longleftrightarrow> has_key (lg_heads (in_ledger ingestor_demo)) k"
    by (simp add: ingestor_demo_def has_key_def)
  from watermark_is_not_a_gate[OF this] show ?thesis unfolding Let_def by blast
qed

end
