(* ===== verification/Realtime_Flush.thy ===== *)
theory Realtime_Flush
  imports Realtime_Replay "HOL-Library.Multiset"
begin

text \<open>
  What \<open>RealtimeIngestor.flush\<close> hands to the engine and how it fails: the groups are the
  buffered rows, each exactly once and under its own partition; the buffer is emptied only after
  every year was published, and the watermark is written only after that.
\<close>

section \<open>Grouping by year\<close>

definition add_year :: "publish_group \<Rightarrow> (int, publish_group list) dict \<Rightarrow> (int, publish_group list) dict" where
  "add_year g d = (let y = year_of (pg_start g)
     in dset y ((case dget d y of Some xs \<Rightarrow> xs | None \<Rightarrow> []) @ [g]) d)"

lemma group_years_fold: "group_years gs = fold add_year gs []"
  by (simp add: group_years_def add_year_def[abs_def])

lemma mset_dset_append:
  "dict_ok d \<Longrightarrow> dget d k = Some xs \<Longrightarrow> mset (concat (map snd (dset k (xs @ [g]) d))) = add_mset g (mset (concat (map snd d)))"
proof (induction d)
  case (Cons a d)
  obtain k' v where a: "a = (k', v)" by (cases a)
  show ?case using Cons by (cases "k' = k") (auto simp: a dict_ok_def)
qed simp

lemma mset_add_year:
  "dict_ok d \<Longrightarrow> mset (concat (map snd (add_year g d))) = add_mset g (mset (concat (map snd d)))"
  by (cases "dget d (year_of (pg_start g))")
     (simp_all add: add_year_def Let_def mset_dset_append dset_new has_key_def)

definition years_ok :: "(int, publish_group list) dict \<Rightarrow> bool" where
  "years_ok d \<longleftrightarrow> dict_ok d \<and> (\<forall>y gs. (y, gs) \<in> set d \<longrightarrow> (\<forall>g\<in>set gs. year_of (pg_start g) = y))"

lemma years_ok_add: "years_ok d \<Longrightarrow> years_ok (add_year g d)"
proof -
  assume d: "years_ok d"
  let ?y = "year_of (pg_start g)"
  define old where "old = (case dget d ?y of Some xs \<Rightarrow> xs | None \<Rightarrow> [])"
  have old: "\<forall>h\<in>set old. year_of (pg_start h) = ?y"
  proof (cases "dget d ?y")
    case (Some xs)
    then have "(?y, xs) \<in> set d" by (rule map_of_SomeD)
    then show ?thesis using d Some unfolding years_ok_def old_def by simp
  qed (simp add: old_def)
  have "add_year g d = dset ?y (old @ [g]) d" by (simp add: add_year_def old_def Let_def)
  then show ?thesis using d old unfolding years_ok_def by (auto dest!: in_set_dset)
qed

lemma group_years_facts:
  "years_ok (group_years gs) \<and> mset (concat (map snd (group_years gs))) = mset gs"
proof -
  have "years_ok d \<Longrightarrow> years_ok (fold add_year gs d) \<and>
      mset (concat (map snd (fold add_year gs d))) = mset gs + mset (concat (map snd d))" for d
  proof (induction gs arbitrary: d)
    case (Cons g gs)
    have "dict_ok d" using Cons.prems by (simp add: years_ok_def)
    then show ?case using Cons.IH[OF years_ok_add[OF Cons.prems, of g]] by (simp add: mset_add_year)
  qed simp
  from this[of "[]"] show ?thesis by (simp add: group_years_fold years_ok_def)
qed

section \<open>Rows\<close>

lemma mset_concat_map: "mset (concat (map f xs)) = (\<Sum>x\<in>#mset xs. mset (f x))"
  by (induction xs) auto

lemma group_rows: "dict_ok rows \<Longrightarrow> mset (pg_rows (group_of gran (pk, rows))) = mset (map snd rows)"
proof -
  assume ok: "dict_ok rows"
  obtain a b c where pk: "pk = (a, b, c)" by (cases pk)
  have "mset (pg_rows (group_of gran (pk, rows))) = image_mset (\<lambda>k. the (dget rows k)) (mset (map fst rows))"
    by (simp add: group_of_def pk)
  also have "\<dots> = mset (map (\<lambda>e. the (dget rows (fst e))) rows)" by (simp add: multiset.map_comp o_def)
  also have "map (\<lambda>e. the (dget rows (fst e))) rows = map snd rows"
    using ok by (auto simp: dict_ok_def)
  finally show ?thesis .
qed

definition buffered_rows :: "ingestor \<Rightarrow> bar_row list" where
  "buffered_rows s = concat (map (\<lambda>(_, rows). map snd rows) (in_buffer s))"

definition published_rows :: "(int \<times> publish_group list) list \<Rightarrow> bar_row list" where
  "published_rows G = concat (map pg_rows (concat (map snd G)))"

lemma published_rows_mset:
  assumes "ingestor_ok E s"
  shows "mset (published_rows (sort_key fst (group_years (buffer_groups s)))) = mset (buffered_rows s)"
proof -
  let ?gran = "is_partition_granularity (in_spec s)"
  have rows: "dict_ok rows" if "(pk, rows) \<in> set (in_buffer s)" for pk rows
    using assms that unfolding ingestor_ok_def buffer_ok_def rows_ok_def by blast
  have "mset (concat (map snd (sort_key fst (group_years (buffer_groups s))))) = mset (buffer_groups s)"
    using group_years_facts[of "buffer_groups s"] by (simp add: mset_concat_map)
  then have "mset (published_rows (sort_key fst (group_years (buffer_groups s)))) =
      (\<Sum>g\<in>#mset (buffer_groups s). mset (pg_rows g))"
    unfolding published_rows_def mset_concat_map by simp
  also have "\<dots> = (\<Sum>e\<in>#mset (in_buffer s). mset (pg_rows (group_of ?gran e)))"
    by (simp add: buffer_groups_def multiset.map_comp o_def)
  also have "\<dots> = (\<Sum>e\<in>#mset (in_buffer s). mset (map snd (snd e)))"
    using group_rows rows by (intro arg_cong[where f = sum_mset] image_mset_cong) auto
  also have "\<dots> = mset (buffered_rows s)"
    by (simp add: buffered_rows_def mset_concat_map split_def)
  finally show ?thesis .
qed

lemma distinct_nested:
  "dict_ok buf \<Longrightarrow> (\<And>pk rs. (pk, rs) \<in> set buf \<Longrightarrow> dict_ok rs) \<Longrightarrow>
   (\<And>pk rs pk' rs'. (pk, rs) \<in> set buf \<Longrightarrow> (pk', rs') \<in> set buf \<Longrightarrow> pk \<noteq> pk' \<Longrightarrow> fst ` set rs \<inter> fst ` set rs' = {}) \<Longrightarrow>
   distinct (concat (map (\<lambda>e. map fst (snd e)) buf))"
proof (induction buf)
  case (Cons a buf)
  obtain pk rs where a: "a = (pk, rs)" by (cases a)
  have "distinct (concat (map (\<lambda>e. map fst (snd e)) buf))"
  proof (rule Cons.IH)
    show "dict_ok buf" using Cons.prems(1) by (simp add: dict_ok_def)
    show "dict_ok rs'" if "(pk', rs') \<in> set buf" for pk' rs' using Cons.prems(2)[of pk' rs'] that by simp
    show "fst ` set r1 \<inter> fst ` set r2 = {}" if "(p1, r1) \<in> set buf" "(p2, r2) \<in> set buf" "p1 \<noteq> p2" for p1 r1 p2 r2
      using Cons.prems(3)[of p1 r1 p2 r2] that by simp
  qed
  moreover have "distinct (map fst rs)" using Cons.prems(2)[of pk rs] by (simp add: a dict_ok_def)
  moreover have "fst ` set rs \<inter> (\<Union>e\<in>set buf. fst ` set (snd e)) = {}"
  proof -
    have "fst ` set rs \<inter> fst ` set (snd e) = {}" if "e \<in> set buf" for e
    proof -
      have "pk \<noteq> fst e" using Cons.prems(1) that by (auto simp: a dict_ok_def)
      then show ?thesis using Cons.prems(3)[of pk rs "fst e" "snd e"] that by (simp add: a)
    qed
    then show ?thesis by blast
  qed
  ultimately show ?case by (simp add: a)
qed simp

lemma row_keys_distinct:
  assumes "ingestor_ok E s"
  shows "distinct (map (\<lambda>r. (br_instrument_id r, br_bar_start_at r)) (buffered_rows s))"
proof -
  have rows: "rows_ok E s pk rs" if "(pk, rs) \<in> set (in_buffer s)" for pk rs
    using assms that unfolding ingestor_ok_def buffer_ok_def by blast
  have filed: "row_filed E s pk k row" if "(pk, rs) \<in> set (in_buffer s)" "(k, row) \<in> set rs" for pk rs k row
    using rows[OF that(1)] that(2) unfolding rows_ok_def by blast
  have key: "(br_instrument_id row, br_bar_start_at row) = k"
    if "(pk, rs) \<in> set (in_buffer s)" "(k, row) \<in> set rs" for pk rs k row
    using filed[OF that] by (simp add: row_filed_def)
  have "map (\<lambda>r. (br_instrument_id r, br_bar_start_at r)) (map snd (snd e)) = map fst (snd e)"
    if "e \<in> set (in_buffer s)" for e
    using key[of "fst e" "snd e"] that by simp
  then have "map (\<lambda>r. (br_instrument_id r, br_bar_start_at r)) (buffered_rows s) =
      concat (map (\<lambda>e. map fst (snd e)) (in_buffer s))"
    unfolding buffered_rows_def map_concat map_map o_def split_def
    by (intro arg_cong[where f = concat] map_cong refl) simp
  moreover have "distinct (concat (map (\<lambda>e. map fst (snd e)) (in_buffer s)))"
  proof (rule distinct_nested)
    show "dict_ok (in_buffer s)" using assms by (simp add: ingestor_ok_def buffer_ok_def)
    show "dict_ok rs" if "(pk, rs) \<in> set (in_buffer s)" for pk rs using rows[OF that] by (simp add: rows_ok_def)
    fix pk rs pk' rs'
    assume in1: "(pk, rs) \<in> set (in_buffer s)" and in2: "(pk', rs') \<in> set (in_buffer s)" and ne: "pk \<noteq> pk'"
    show "fst ` set rs \<inter> fst ` set rs' = {}"
    proof (rule ccontr)
      assume "fst ` set rs \<inter> fst ` set rs' \<noteq> {}"
      then obtain k r r' where k: "(k, r) \<in> set rs" "(k, r') \<in> set rs'" by fastforce
      have "pk = pk'"
        using filed[OF in1 k(1)] filed[OF in2 k(2)] unfolding row_filed_def by (auto simp: prod_eq_iff)
      then show False using ne by simp
    qed
  qed
  ultimately show ?thesis by simp
qed

text \<open>a flush hands every buffered row to the engine exactly once: the yearly groups carry
  precisely the buffered rows, no two rows claim the same bar, each year is published once in
  ascending order, and every group goes to the year of its partition start.\<close>

theorem flush_hands_over_every_row:
  assumes "ingestor_ok E s"
  defines "G \<equiv> sort_key fst (group_years (buffer_groups s))"
  shows "mset (published_rows G) = mset (buffered_rows s) \<and>
    distinct (map (\<lambda>r. (br_instrument_id r, br_bar_start_at r)) (published_rows G)) \<and>
    sorted_wrt (<) (map fst G) \<and> list_all (\<lambda>(y, gs). list_all (\<lambda>g. year_of (pg_start g) = y) gs) G"
proof -
  have m: "mset (published_rows G) = mset (buffered_rows s)"
    unfolding G_def by (rule published_rows_mset[OF assms(1)])
  then have "mset (map (\<lambda>r. (br_instrument_id r, br_bar_start_at r)) (published_rows G)) =
      mset (map (\<lambda>r. (br_instrument_id r, br_bar_start_at r)) (buffered_rows s))" by simp
  then have "distinct (map (\<lambda>r. (br_instrument_id r, br_bar_start_at r)) (published_rows G))"
    using row_keys_distinct[OF assms(1)] mset_eq_imp_distinct_iff by blast
  moreover have y: "years_ok (group_years (buffer_groups s))" using group_years_facts by blast
  then have "distinct (map fst G)"
    unfolding G_def years_ok_def dict_ok_def by (metis mset_eq_imp_distinct_iff mset_map mset_sort)
  then have "sorted_wrt (<) (map fst G)" by (simp add: G_def strict_sorted_iff)
  moreover have "list_all (\<lambda>(y, gs). list_all (\<lambda>g. year_of (pg_start g) = y) gs) G"
    using y by (auto simp: G_def years_ok_def list_all_iff)
  ultimately show ?thesis using m by blast
qed

theorem flush_hands_over_every_row_witness:
  "let s = snd (submit_batch ingest_env ingestor_demo events_demo)
   in length (buffered_rows s) = 2 \<and>
      mset (published_rows (sort_key fst (group_years (buffer_groups s)))) = mset (buffered_rows s)"
proof -
  have ok: "ingestor_ok ingest_env (snd (submit_batch ingest_env ingestor_demo events_demo))"
    by (rule ingestor_ok_submit_batch[OF ingestor_demo_ok(1)])
  have "length (buffered_rows (snd (submit_batch ingest_env ingestor_demo events_demo))) = 2" by code_simp
  then show ?thesis using flush_hands_over_every_row[OF ok] by (simp add: Let_def)
qed

section \<open>Outcomes\<close>

lemma pending_groups:
  assumes "ingestor_ok E s"
  shows "sum_list (map (\<lambda>g. length (pg_rows g)) (buffer_groups s)) = pending_rows s"
proof -
  have rows: "dict_ok rows" if "(pk, rows) \<in> set (in_buffer s)" for pk rows
    using assms that unfolding ingestor_ok_def buffer_ok_def rows_ok_def by blast
  have len: "length (pg_rows (group_of gran e)) = length (snd e)" for gran e
    by (cases e) (auto simp: group_of_def split: prod.split)
  have "sum_list (map (\<lambda>g. length (pg_rows g)) (buffer_groups s)) =
      sum_list (map (\<lambda>e. length (snd e)) (sort_key fst (in_buffer s)))"
    by (simp add: buffer_groups_def o_def len)
  also have "\<dots> = sum_list (map (\<lambda>e. length (snd e)) (in_buffer s))"
    unfolding sum_mset_sum_list[symmetric] mset_map by simp
  finally show ?thesis by (simp add: pending_rows_def split_def)
qed

text \<open>how a flush ends. An empty buffer is \<open>NO_CHANGE\<close> and changes nothing; a failed
  publication keeps every buffered row and writes no watermark; only after every year was published
  is the buffer emptied and the watermark written, and the reported row count is the number of rows
  that were pending.\<close>

theorem flush_outcomes:
  assumes "ingestor_ok E s"
  shows "case flush E ops adv s w repo now of
      (Inl e, s', w', repo') \<Rightarrow> in_buffer s' = in_buffer s \<and> repo' = repo \<or> fst (ingestor_checkpoint adv s' repo now) = Inl e
    | (Inr r, s', w', repo') \<Rightarrow> in_buffer s' = [] \<and> s' = s\<lparr>in_buffer := []\<rparr> \<and> fr_row_count r = pending_rows s \<and>
        ingestor_checkpoint adv s' repo now = (Inr (fr_watermark_position r), repo') \<and>
        (fr_status r = ''NO_CHANGE'' \<longleftrightarrow> in_buffer s = []) \<and>
        (in_buffer s \<noteq> [] \<longrightarrow> is_ok (fst (publish_years E ops (in_spec s) w (sort_key fst (group_years (buffer_groups s))))))"
proof (cases "in_buffer s = []")
  case True
  then have "s\<lparr>in_buffer := []\<rparr> = s" by (cases s) simp
  then show ?thesis using True
    by (auto simp: flush_def pending_rows_def split: prod.split sum.split)
next
  case False
  have cp: "ingestor_checkpoint adv (s\<lparr>in_buffer := []\<rparr>) repo now = ingestor_checkpoint adv s repo now"
    by (simp add: ingestor_checkpoint_def)
  have st: "flush_status xs \<noteq> ''NO_CHANGE''" for xs by (simp add: flush_status_def)
  show ?thesis using False pending_groups[OF assms] st
    by (auto simp: flush_def Let_def cp split: prod.split sum.split)
qed

text \<open>An engine that records the groups it is given and answers with one available manifest.\<close>

definition engine_demo :: "publish_group list engine_ops" where
  "engine_demo = \<lparr>eo_fingerprint = ''fp'', eo_run_record = (\<lambda>w _ _. (Inr ''run'', w)),
     eo_publish_dataset = (\<lambda>w _ _ gs _ _. (Inr \<lparr>mr_manifest_id = ''m'', mr_status = ''AVAILABLE'',
        mr_dataset_hash = ''h'', mr_incident_count = 0\<rparr>, w @ gs)),
     eo_finish_run = (\<lambda>w _ _ _ _. (Inr (), w)),
     eo_objects_for_manifest = (\<lambda>w _. Inr [''k'']), eo_table_check = (\<lambda>_. Inr ())\<rparr>"

lemma publish_years_demo: "is_ok (fst (publish_years E engine_demo sp w ys))"
proof (induction ys arbitrary: w)
  case (Cons a ys)
  obtain y gs where a: "a = (y, gs)" by (cases a)
  have "\<exists>m. publish_year E engine_demo sp w y gs = (Inr m, w @ gs)"
    by (simp add: publish_year_def engine_demo_def)
  then obtain m where m: "publish_year E engine_demo sp w y gs = (Inr m, w @ gs)" by blast
  obtain r where r: "fst (publish_years E engine_demo sp (w @ gs) ys) = Inr r"
    using Cons[of "w @ gs"] by (auto simp: is_ok_iff)
  have "eo_objects_for_manifest engine_demo u v = Inr [''k'']" for u v by (simp add: engine_demo_def)
  then show ?case using m r by (cases "publish_years E engine_demo sp (w @ gs) ys") (simp add: a)
qed simp

lemma checkpoint_ok: "lg_feed_id (in_ledger s) \<noteq> [] \<Longrightarrow> is_ok (fst (ingestor_checkpoint adv s repo now))"
  by (auto simp: ingestor_checkpoint_def checkpoint_def mk_watermark_def split: option.split prod.split)

lemma flush_demo_ok:
  assumes "lg_feed_id (in_ledger s) \<noteq> []"
  shows "is_ok (fst (flush E engine_demo adv s w repo now))"
proof -
  have c: "is_ok (fst (ingestor_checkpoint adv t repo now))" if "in_ledger t = in_ledger s" for t
    using checkpoint_ok[of t] assms that by simp
  have m: "mapE (\<lambda>g. eo_table_check engine_demo (pg_rows g)) gs = Inr (replicate (length gs) ())" for gs
    by (induction gs) (simp_all add: engine_demo_def)
  show ?thesis
    using c[of s] c[of "s\<lparr>in_buffer := []\<rparr>"] publish_years_demo[of E "in_spec s" w "sort_key fst (group_years (buffer_groups s))"]
    by (auto simp: flush_def Let_def m split: prod.split sum.split)
qed

theorem flush_outcomes_witness:
  "\<exists>s r s' w repo. flush ingest_env engine_demo mem_advance s [] (Some []) 9 = (Inr r, s', w, repo) \<and>
     fr_row_count r = 2 \<and> in_buffer s' = []"
proof -
  let ?s = "snd (submit_batch ingest_env ingestor_demo events_demo)"
  let ?r = "flush ingest_env engine_demo mem_advance ?s [] (Some []) 9"
  have ok: "ingestor_ok ingest_env ?s" by (rule ingestor_ok_submit_batch[OF ingestor_demo_ok(1)])
  have s: "pending_rows ?s = 2" "lg_feed_id (in_ledger ?s) \<noteq> []" by code_simp+
  obtain r s' w repo where r: "?r = (Inr r, s', w, repo)"
    using flush_demo_ok[OF s(2), where E = ingest_env and w = "[]" and repo = "Some []" and now = 9 and adv = mem_advance] by (cases ?r) (auto simp: is_ok_iff)
  then have "fr_row_count r = pending_rows ?s" "in_buffer s' = []"
    using flush_outcomes[OF ok, where ops = engine_demo and adv = mem_advance and w = "[]" and repo = "Some []" and now = 9] by auto
  then have "fr_row_count r = 2" "in_buffer s' = []" using s(1) by simp_all
  then show ?thesis using r by blast
qed

end
