(* ===== verification/Realtime_Consumer.thy ===== *)
theory Realtime_Consumer
  imports Realtime_Flush
begin

text \<open>
  The transport half of \<open>market_pipeline_lib/realtime_ingest.py\<close>: the event-source port, its
  SQS adapter over the queue client's calls (\<open>sqs_client\<close>), and \<open>RealtimeIngestConsumer\<close>,
  the loop that decides for every delivery whether it is acknowledged, retried or parked. The
  consumer is stated over any source and any ingestor (\<open>source_ops\<close>, \<open>ingestor_ops\<close>);
  \<open>real_ingestor\<close> is the one of \<open>Realtime_Ingestor\<close>.
\<close>

section \<open>The port\<close>

record delivery =
  dl_message_id :: string
  dl_body :: pyval
  dl_receipt_handle :: string
  dl_receive_count :: int

record 'q source_ops =
  so_poll :: "'q \<Rightarrow> int \<Rightarrow> rat \<Rightarrow> delivery list res \<times> 'q"
  so_acknowledge :: "'q \<Rightarrow> delivery \<Rightarrow> unit res \<times> 'q"
  so_retry_later :: "'q \<Rightarrow> delivery \<Rightarrow> rat \<Rightarrow> unit res \<times> 'q"
  so_dead_letter :: "'q \<Rightarrow> delivery \<Rightarrow> string \<Rightarrow> unit res \<times> 'q"

section \<open>The SQS adapter\<close>

record sqs_message =
  sm_message_id :: string
  sm_receipt_handle :: string
  sm_body :: "string option"
  sm_receive_count :: "string option"

record 'c sqs_client =
  sc_receive :: "'c \<Rightarrow> string \<Rightarrow> int \<Rightarrow> int \<Rightarrow> int \<Rightarrow> sqs_message list res \<times> 'c"
  sc_delete :: "'c \<Rightarrow> string \<Rightarrow> string \<Rightarrow> unit res \<times> 'c"
  sc_change_visibility :: "'c \<Rightarrow> string \<Rightarrow> string \<Rightarrow> int \<Rightarrow> unit res \<times> 'c"
  sc_send :: "'c \<Rightarrow> string \<Rightarrow> string \<Rightarrow> (string \<times> string) list \<Rightarrow> unit res \<times> 'c"

record sqs_source =
  sq_queue_url :: string
  sq_dead_letter_queue_url :: "string option"
  sq_visibility_timeout :: int

record json_env =
  json_loads :: "string \<Rightarrow> pyval option"
  json_dumps :: "pyval \<Rightarrow> string res"

definition SQS_MAX_BATCH :: int where "SQS_MAX_BATCH = 10"

definition SQS_MAX_WAIT_SECONDS :: int where "SQS_MAX_WAIT_SECONDS = 20"

definition mk_sqs_source :: "string \<Rightarrow> string option \<Rightarrow> int \<Rightarrow> sqs_source res" where
  "mk_sqs_source url dlq timeout =
     (if url = [] then Inl RealtimeIngestError
      else if timeout < 0 then Inl RealtimeIngestError
      else Inr \<lparr>sq_queue_url = url, sq_dead_letter_queue_url = dlq, sq_visibility_timeout = timeout\<rparr>)"

text \<open>\<open>int(x)\<close> of a number truncates toward zero.\<close>

definition trunc :: "rat \<Rightarrow> int" where
  "trunc x = (if 0 \<le> x then \<lfloor>x\<rfloor> else \<lceil>x\<rceil>)"

definition undecodable :: "string \<Rightarrow> pyval" where
  "undecodable raw = VMap [(''__undecodable__'', VStr raw)]"

definition sqs_decode :: "json_env \<Rightarrow> sqs_message \<Rightarrow> pyval" where
  "sqs_decode J m =
     (let raw = (case sm_body m of Some b \<Rightarrow> b | None \<Rightarrow> []) in
      case json_loads J raw of Some (VMap d) \<Rightarrow> VMap d | _ \<Rightarrow> undecodable raw)"

definition sqs_delivery :: "json_env \<Rightarrow> sqs_message \<Rightarrow> delivery res" where
  "sqs_delivery J m =
     (case (case sm_receive_count m of None \<Rightarrow> Some 1 | Some t \<Rightarrow> py_int t) of
        None \<Rightarrow> Inl ValueError
      | Some n \<Rightarrow> Inr \<lparr>dl_message_id = sm_message_id m, dl_body = sqs_decode J m,
                       dl_receipt_handle = sm_receipt_handle m, dl_receive_count = n\<rparr>)"

definition sqs_poll :: "json_env \<Rightarrow> 'c sqs_client \<Rightarrow> sqs_source \<Rightarrow> 'c \<Rightarrow> int \<Rightarrow> rat \<Rightarrow> delivery list res \<times> 'c" where
  "sqs_poll J cl src q max_messages wait_seconds =
     (case sc_receive cl q (sq_queue_url src) (max 1 (min max_messages SQS_MAX_BATCH))
             (max 0 (min (trunc wait_seconds) SQS_MAX_WAIT_SECONDS)) (sq_visibility_timeout src) of
        (Inl e, q1) \<Rightarrow> (Inl e, q1)
      | (Inr ms, q1) \<Rightarrow> (mapE (sqs_delivery J) ms, q1))"

definition sqs_acknowledge :: "'c sqs_client \<Rightarrow> sqs_source \<Rightarrow> 'c \<Rightarrow> delivery \<Rightarrow> unit res \<times> 'c" where
  "sqs_acknowledge cl src q d = sc_delete cl q (sq_queue_url src) (dl_receipt_handle d)"

definition sqs_retry_later :: "'c sqs_client \<Rightarrow> sqs_source \<Rightarrow> 'c \<Rightarrow> delivery \<Rightarrow> rat \<Rightarrow> unit res \<times> 'c" where
  "sqs_retry_later cl src q d delay =
     sc_change_visibility cl q (sq_queue_url src) (dl_receipt_handle d) (max 0 (trunc delay))"

definition sqs_extend_visibility :: "'c sqs_client \<Rightarrow> sqs_source \<Rightarrow> 'c \<Rightarrow> delivery \<Rightarrow> int \<Rightarrow> unit res \<times> 'c" where
  "sqs_extend_visibility cl src q d timeout =
     sc_change_visibility cl q (sq_queue_url src) (dl_receipt_handle d) (max 0 (min timeout 43200))"

definition parked_body :: "pyval \<Rightarrow> pyval" where
  "parked_body body =
     (case body of
        VMap d \<Rightarrow> (case dget d ''__undecodable__'' of Some raw \<Rightarrow> raw | None \<Rightarrow> VMap d)
      | v \<Rightarrow> v)"

definition sqs_dead_letter :: "json_env \<Rightarrow> 'c sqs_client \<Rightarrow> sqs_source \<Rightarrow> 'c \<Rightarrow> delivery \<Rightarrow> string \<Rightarrow> unit res \<times> 'c" where
  "sqs_dead_letter J cl src q d reason =
     (case (case sq_dead_letter_queue_url src of Some u \<Rightarrow> (if u = [] then None else Some u) | None \<Rightarrow> None) of
        None \<Rightarrow> (Inl RealtimeIngestError, q)
      | Some dlq \<Rightarrow>
        (case json_dumps J (parked_body (dl_body d)) of
           Inl e \<Rightarrow> (Inl e, q)
         | Inr text \<Rightarrow>
           (case sc_send cl q dlq text
                  [(''DeadLetterReason'', reason), (''SourceQueueUrl'', sq_queue_url src),
                   (''ReceiveCount'', int_str (dl_receive_count d))] of
              (Inl e, q1) \<Rightarrow> (Inl e, q1)
            | (Inr _, q1) \<Rightarrow> sqs_acknowledge cl src q1 d)))"

definition sqs_ops :: "json_env \<Rightarrow> 'c sqs_client \<Rightarrow> sqs_source \<Rightarrow> 'c source_ops" where
  "sqs_ops J cl src = \<lparr>so_poll = sqs_poll J cl src, so_acknowledge = sqs_acknowledge cl src,
     so_retry_later = sqs_retry_later cl src, so_dead_letter = sqs_dead_letter J cl src\<rparr>"

section \<open>The loop\<close>

record 'i ingestor_ops =
  io_submit_batch :: "'i \<Rightarrow> pyval list \<Rightarrow> ingest_decision list res \<times> 'i"
  io_flush :: "'i \<Rightarrow> flush_result res \<times> 'i"

record cycle =
  cy_received :: int
  cy_accepted :: int
  cy_skipped :: int
  cy_acknowledged :: int
  cy_retried :: int
  cy_dead_lettered :: int

definition zero_cycle :: cycle where
  "zero_cycle = \<lparr>cy_received = 0, cy_accepted = 0, cy_skipped = 0, cy_acknowledged = 0, cy_retried = 0,
     cy_dead_lettered = 0\<rparr>"

record drain_report = cycle +
  dr_cycles :: int

definition report_add :: "drain_report \<Rightarrow> cycle \<Rightarrow> drain_report" where
  "report_add r c = r\<lparr>dr_cycles := dr_cycles r + 1, cy_received := cy_received r + cy_received c,
     cy_accepted := cy_accepted r + cy_accepted c, cy_skipped := cy_skipped r + cy_skipped c,
     cy_acknowledged := cy_acknowledged r + cy_acknowledged c, cy_retried := cy_retried r + cy_retried c,
     cy_dead_lettered := cy_dead_lettered r + cy_dead_lettered c\<rparr>"

definition zero_report :: drain_report where
  "zero_report = \<lparr>cy_received = 0, cy_accepted = 0, cy_skipped = 0, cy_acknowledged = 0, cy_retried = 0,
     cy_dead_lettered = 0, dr_cycles = 0\<rparr>"

record 'i consumer =
  cs_ingestor :: 'i
  cs_max_receive_count :: int
  cs_flush_every :: int
  cs_max_messages_per_poll :: int
  cs_retry_delay_seconds :: rat
  cs_since_flush :: int

definition consumer_check :: "'i consumer \<Rightarrow> unit res" where
  "consumer_check c =
     (if cs_max_receive_count c < 1 then Inl RealtimeIngestError
      else if cs_flush_every c < 1 then Inl RealtimeIngestError else Inr ())"

definition is_object :: "pyval \<Rightarrow> bool" where
  "is_object v \<longleftrightarrow> (case v of VMap _ \<Rightarrow> True | _ \<Rightarrow> False)"

definition events_of :: "pyval \<Rightarrow> pyval list res" where
  "events_of body =
     (case body of
        VMap d \<Rightarrow>
          (if has_key d ''__undecodable__'' then Inl RealtimeIngestError
           else case dget d ''events'' of
               Some (VList es) \<Rightarrow>
                 (if es = [] then Inl RealtimeIngestError
                  else if \<not> list_all is_object es then Inl RealtimeIngestError
                  else Inr es)
             | _ \<Rightarrow> Inl RealtimeIngestError)
      | _ \<Rightarrow> Inl RealtimeIngestError)"

text \<open>What one delivery deserves, given what the ingestor answered: the \<open>except\<close> clauses of
  \<open>run_once\<close> in their order.\<close>

datatype disposition = Acknowledge int int | RetryLater | Park string

definition disposition_of :: "int \<Rightarrow> int \<Rightarrow> ingest_decision list res \<Rightarrow> disposition" where
  "disposition_of max_receive_count receive_count answer =
     (case answer of
        Inr ds \<Rightarrow> Acknowledge (int (length (filter id_accepted ds))) (int (length (filter (\<lambda>d. \<not> id_accepted d) ds)))
      | Inl e \<Rightarrow>
          (if e = UnsupportedEventVersion then Park ''UNSUPPORTED_EVENT_VERSION''
           else if e = RealtimeIngestError then Park ''MALFORMED_EVENT''
           else if max_receive_count \<le> receive_count then Park ''MAX_RECEIVES_EXCEEDED''
           else RetryLater))"

definition dispose :: "'q source_ops \<Rightarrow> rat \<Rightarrow> 'q \<Rightarrow> delivery \<Rightarrow> disposition \<Rightarrow> unit res \<times> 'q" where
  "dispose ops delay q d disp =
     (case disp of Acknowledge _ _ \<Rightarrow> so_acknowledge ops q d
      | RetryLater \<Rightarrow> so_retry_later ops q d delay
      | Park reason \<Rightarrow> so_dead_letter ops q d reason)"

definition count_disposition :: "cycle \<Rightarrow> disposition \<Rightarrow> cycle" where
  "count_disposition c disp =
     (case disp of
        Acknowledge a s \<Rightarrow> c\<lparr>cy_accepted := cy_accepted c + a, cy_skipped := cy_skipped c + s,
           cy_acknowledged := cy_acknowledged c + 1\<rparr>
      | RetryLater \<Rightarrow> c\<lparr>cy_retried := cy_retried c + 1\<rparr>
      | Park _ \<Rightarrow> c\<lparr>cy_dead_lettered := cy_dead_lettered c + 1\<rparr>)"

text \<open>One delivery: the events are extracted, submitted as a unit, and the message is disposed of.
  An exception of the source's own call leaves the loop.\<close>

definition handle_delivery :: "'q source_ops \<Rightarrow> 'i ingestor_ops \<Rightarrow> 'i consumer \<Rightarrow> 'q \<Rightarrow> delivery \<Rightarrow> cycle
    \<Rightarrow> cycle res \<times> 'i consumer \<times> 'q" where
  "handle_delivery sops iops c q d cyc =
     (let (answer, c1) =
        (case events_of (dl_body d) of
           Inl e \<Rightarrow> (Inl RealtimeIngestError, c)
         | Inr events \<Rightarrow>
           (case io_submit_batch iops (cs_ingestor c) events of (r, i) \<Rightarrow> (r, c\<lparr>cs_ingestor := i\<rparr>)));
          disp = disposition_of (cs_max_receive_count c) (dl_receive_count d) answer
      in case dispose sops (cs_retry_delay_seconds c) q d disp of
           (Inl e, q1) \<Rightarrow> (Inl e, c1, q1)
         | (Inr _, q1) \<Rightarrow> (Inr (count_disposition (cyc\<lparr>cy_received := cy_received cyc + 1\<rparr>) disp), c1, q1))"

fun handle_all :: "'q source_ops \<Rightarrow> 'i ingestor_ops \<Rightarrow> 'i consumer \<Rightarrow> 'q \<Rightarrow> delivery list \<Rightarrow> cycle
    \<Rightarrow> cycle res \<times> 'i consumer \<times> 'q" where
  "handle_all sops iops c q [] cyc = (Inr cyc, c, q)"
| "handle_all sops iops c q (d # ds) cyc =
     (case handle_delivery sops iops c q d cyc of
        (Inl e, c1, q1) \<Rightarrow> (Inl e, c1, q1)
      | (Inr cyc1, c1, q1) \<Rightarrow> handle_all sops iops c1 q1 ds cyc1)"

definition run_once :: "'q source_ops \<Rightarrow> 'i ingestor_ops \<Rightarrow> rat \<Rightarrow> 'i consumer \<Rightarrow> 'q \<Rightarrow> cycle res \<times> 'i consumer \<times> 'q" where
  "run_once sops iops wait c q =
     (case so_poll sops q (cs_max_messages_per_poll c) wait of
        (Inl e, q1) \<Rightarrow> (Inl e, c, q1)
      | (Inr ds, q1) \<Rightarrow>
        (if ds = [] then (Inr zero_cycle, c, q1)
         else case handle_all sops iops c q1 ds zero_cycle of
             (Inl e, c1, q2) \<Rightarrow> (Inl e, c1, q2)
           | (Inr cyc, c1, q2) \<Rightarrow>
             (let since = cs_since_flush c1 + cy_accepted cyc in
              if cs_flush_every c1 \<le> since then
                (case io_flush iops (cs_ingestor c1) of
                   (Inl e, i) \<Rightarrow> (Inl e, c1\<lparr>cs_ingestor := i, cs_since_flush := since\<rparr>, q2)
                 | (Inr _, i) \<Rightarrow> (Inr cyc, c1\<lparr>cs_ingestor := i, cs_since_flush := 0\<rparr>, q2))
              else (Inr cyc, c1\<lparr>cs_since_flush := since\<rparr>, q2))))"

text \<open>The two unbounded loops; not returning is \<open>None\<close>.\<close>

partial_function (option) drain_from :: "'q source_ops \<Rightarrow> 'i ingestor_ops \<Rightarrow> rat \<Rightarrow> int \<Rightarrow> drain_report \<Rightarrow> int
    \<Rightarrow> 'i consumer \<Rightarrow> 'q \<Rightarrow> (drain_report res \<times> 'i consumer \<times> 'q) option" where
  "drain_from sops iops wait max_empty report quiet c q =
     (if quiet < max_empty then
        (case run_once sops iops wait c q of
           (Inl e, c1, q1) \<Rightarrow> Some (Inl e, c1, q1)
         | (Inr cyc, c1, q1) \<Rightarrow>
             drain_from sops iops wait max_empty (report_add report cyc)
               (if cy_received cyc = 0 then quiet + 1 else 0) c1 q1)
      else Some (Inr report, c, q))"

definition drain :: "'q source_ops \<Rightarrow> 'i ingestor_ops \<Rightarrow> rat \<Rightarrow> int \<Rightarrow> 'i consumer \<Rightarrow> 'q
    \<Rightarrow> (drain_report res \<times> 'i consumer \<times> 'q) option" where
  "drain sops iops wait max_empty c q = drain_from sops iops wait max_empty zero_report 0 c q"

definition shutdown :: "'i ingestor_ops \<Rightarrow> 'i consumer \<Rightarrow> flush_result res \<times> 'i consumer" where
  "shutdown iops c =
     (case io_flush iops (cs_ingestor c) of
        (Inl e, i) \<Rightarrow> (Inl e, c\<lparr>cs_ingestor := i\<rparr>)
      | (Inr r, i) \<Rightarrow> (Inr r, c\<lparr>cs_ingestor := i, cs_since_flush := 0\<rparr>))"

text \<open>\<open>should_stop\<close> is consulted between cycles; the list holds its successive answers, and
  running out of answers means it has not answered true yet.\<close>

fun run_until_stopped :: "'q source_ops \<Rightarrow> 'i ingestor_ops \<Rightarrow> rat \<Rightarrow> bool list \<Rightarrow> drain_report \<Rightarrow> 'i consumer \<Rightarrow> 'q
    \<Rightarrow> ((drain_report \<times> flush_result) res \<times> 'i consumer \<times> 'q) option" where
  "run_until_stopped sops iops wait [] report c q = None"
| "run_until_stopped sops iops wait (stop # answers) report c q =
     (if stop then
        (case shutdown iops c of
           (Inl e, c1) \<Rightarrow> Some (Inl e, c1, q)
         | (Inr r, c1) \<Rightarrow> Some (Inr (report, r), c1, q))
      else case run_once sops iops wait c q of
          (Inl e, c1, q1) \<Rightarrow> Some (Inl e, c1, q1)
        | (Inr cyc, c1, q1) \<Rightarrow> run_until_stopped sops iops wait answers (report_add report cyc) c1 q1)"

definition session_window_utc :: "env \<Rightarrow> date \<Rightarrow> (instant \<times> instant) res" where
  "session_window_utc E session =
     bindE (add_days session 1) (\<lambda>next. Inr (et_midnight E session, et_midnight E next))"

type_synonym ('e, 's) real_state = "ingestor \<times> 'e \<times> 's option"

definition real_ingestor :: "env \<Rightarrow> 'e engine_ops \<Rightarrow> 's repo_ops \<Rightarrow> instant \<Rightarrow> ('e, 's) real_state ingestor_ops" where
  "real_ingestor E eops adv now =
     \<lparr>io_submit_batch = (\<lambda>(s, w, repo) events. case submit_batch E s events of (r, s') \<Rightarrow> (r, (s', w, repo))),
      io_flush = (\<lambda>(s, w, repo). case flush E eops adv s w repo now of (r, s', w', repo') \<Rightarrow> (r, (s', w', repo')))\<rparr>"

end
