(* ===== verification/Realtime_Delivery.thy ===== *)
theory Realtime_Delivery
  imports Realtime_Consumer
begin

text \<open>
  The correctness of \<open>RealtimeIngestConsumer\<close> and of the SQS adapter: every received delivery
  is disposed of exactly once and for the stated reason, the counters add up, a drain's report is
  the sum of its cycles, a graceful stop publishes what was acknowledged, and a message is deleted
  from its queue only after it was parked.
\<close>

section \<open>One cycle\<close>

definition balanced :: "('a) cycle_scheme \<Rightarrow> bool" where
  "balanced c \<longleftrightarrow> cy_received c = cy_acknowledged c + cy_retried c + cy_dead_lettered c \<and>
     0 \<le> cy_received c \<and> 0 \<le> cy_accepted c \<and> 0 \<le> cy_skipped c \<and> 0 \<le> cy_acknowledged c \<and>
     0 \<le> cy_retried c \<and> 0 \<le> cy_dead_lettered c"

text \<open>The answers the ingestor gives to the deliveries of a cycle, one after the other.\<close>

definition answer_of :: "'i ingestor_ops \<Rightarrow> 'i \<Rightarrow> delivery \<Rightarrow> ingest_decision list res \<times> 'i" where
  "answer_of iops i d =
     (case events_of (dl_body d) of Inl e \<Rightarrow> (Inl RealtimeIngestError, i) | Inr events \<Rightarrow> io_submit_batch iops i events)"

fun answers :: "'i ingestor_ops \<Rightarrow> 'i \<Rightarrow> delivery list \<Rightarrow> ingest_decision list res list" where
  "answers iops i [] = []"
| "answers iops i (d # ds) = fst (answer_of iops i d) # answers iops (snd (answer_of iops i d)) ds"

fun dispose_all :: "'q source_ops \<Rightarrow> rat \<Rightarrow> 'q \<Rightarrow> (delivery \<times> disposition) list \<Rightarrow> 'q" where
  "dispose_all sops delay q [] = q"
| "dispose_all sops delay q ((d, disp) # rest) = dispose_all sops delay (snd (dispose sops delay q d disp)) rest"

definition dispositions :: "'i ingestor_ops \<Rightarrow> 'i consumer \<Rightarrow> delivery list \<Rightarrow> disposition list" where
  "dispositions iops c ds = map2 (\<lambda>d a. disposition_of (cs_max_receive_count c) (dl_receive_count d) a)
     ds (answers iops (cs_ingestor c) ds)"

lemma handle_delivery_alt:
  "handle_delivery sops iops c q d cyc =
     (let a = answer_of iops (cs_ingestor c) d; c1 = c\<lparr>cs_ingestor := snd a\<rparr>;
          disp = disposition_of (cs_max_receive_count c) (dl_receive_count d) (fst a);
          r = dispose sops (cs_retry_delay_seconds c) q d disp
      in case fst r of Inl e \<Rightarrow> (Inl e, c1, snd r)
         | Inr _ \<Rightarrow> (Inr (count_disposition (cyc\<lparr>cy_received := cy_received cyc + 1\<rparr>) disp), c1, snd r))"
  by (auto simp: handle_delivery_def answer_of_def Let_def split: sum.split prod.split)

lemma count_balanced: "balanced cyc \<Longrightarrow> balanced (count_disposition (cyc\<lparr>cy_received := cy_received cyc + 1\<rparr>)
    (disposition_of m n a))"
  by (auto simp: balanced_def count_disposition_def disposition_of_def split: sum.split)

lemma handle_all_disposed:
  assumes "handle_all sops iops c q ds cyc = (Inr cyc', c', q')" "balanced cyc"
  shows "balanced cyc' \<and> cy_received cyc' = cy_received cyc + int (length ds) \<and>
    q' = dispose_all sops (cs_retry_delay_seconds c) q (zip ds (dispositions iops c ds)) \<and>
    cs_since_flush c' = cs_since_flush c \<and> cs_flush_every c' = cs_flush_every c"
  using assms
proof (induction ds arbitrary: c q cyc)
  case (Cons d ds)
  define a where "a = answer_of iops (cs_ingestor c) d"
  define disp where "disp = disposition_of (cs_max_receive_count c) (dl_receive_count d) (fst a)"
  define cyc1 where "cyc1 = count_disposition (cyc\<lparr>cy_received := cy_received cyc + 1\<rparr>) disp"
  define c1 where "c1 = c\<lparr>cs_ingestor := snd a\<rparr>"
  define q1 where "q1 = snd (dispose sops (cs_retry_delay_seconds c) q d disp)"
  have "handle_delivery sops iops c q d cyc = (Inr cyc1, c1, q1)"
    using Cons.prems(1)
    by (auto simp: handle_delivery_alt Let_def a_def disp_def cyc1_def c1_def q1_def split: sum.splits)
  then have rec: "handle_all sops iops c1 q1 ds cyc1 = (Inr cyc', c', q')" using Cons.prems(1) by simp
  have b: "balanced cyc1" unfolding cyc1_def disp_def by (rule count_balanced[OF Cons.prems(2)])
  have n: "cy_received cyc1 = cy_received cyc + 1"
    by (auto simp: cyc1_def count_disposition_def split: disposition.split)
  have "dispositions iops c (d # ds) = disp # dispositions iops c1 ds"
    by (simp add: dispositions_def disp_def a_def c1_def)
  then show ?case using Cons.IH[OF rec b] n by (simp add: c1_def q1_def)
qed simp


text \<open>A source that hands out a fixed list of deliveries once and records the calls it receives.\<close>

datatype call = Acked string | Retried string | Parked string string

definition trace_ops :: "(delivery list \<times> call list) source_ops" where
  "trace_ops = \<lparr>so_poll = (\<lambda>(ds, tr) _ _. (Inr ds, ([], tr))),
     so_acknowledge = (\<lambda>(ds, tr) d. (Inr (), (ds, tr @ [Acked (dl_message_id d)]))),
     so_retry_later = (\<lambda>(ds, tr) d _. (Inr (), (ds, tr @ [Retried (dl_message_id d)]))),
     so_dead_letter = (\<lambda>(ds, tr) d r. (Inr (), (ds, tr @ [Parked (dl_message_id d) r])))\<rparr>"

definition message_demo :: "string \<Rightarrow> pyval \<Rightarrow> int \<Rightarrow> delivery" where
  "message_demo ident body n = \<lparr>dl_message_id = ident, dl_body = body, dl_receipt_handle = ''r'', dl_receive_count = n\<rparr>"

definition consumer_demo :: "(publish_group list, mem_repo) real_state consumer" where
  "consumer_demo = \<lparr>cs_ingestor = (ingestor_demo, [], Some []), cs_max_receive_count = 3, cs_flush_every = 1000,
     cs_max_messages_per_poll = 10, cs_retry_delay_seconds = 5, cs_since_flush = 0\<rparr>"

definition big_price_event :: pyval where
  "big_price_event = (case event_demo ''e9'' ''DZ'' 0 VNone 9 of
     VMap d \<Rightarrow> VMap (dset ''values'' (VMap [(''o'', VDec (10 ^ 60))]) d) | v \<Rightarrow> v)"

definition deliveries_demo :: "delivery list" where
  "deliveries_demo = [message_demo ''m1'' (VMap [(''events'', VList events_demo)]) 1,
     message_demo ''m2'' (VMap [(''events'', VList [VInt 1])]) 1,
     message_demo ''m3'' (VMap [(''events'', VList [big_price_event])]) 1,
     message_demo ''m4'' (VMap [(''events'', VList [big_price_event])]) 3]"

abbreviation demo_ops :: "(publish_group list, mem_repo) real_state ingestor_ops" where
  "demo_ops \<equiv> real_ingestor ingest_env engine_demo mem_advance 9"

lemma demo_cycle:
  "snd (snd (snd (run_once trace_ops demo_ops 1 consumer_demo (deliveries_demo, [])))) =
     [Acked ''m1'', Parked ''m2'' ''MALFORMED_EVENT'', Retried ''m3'', Parked ''m4'' ''MAX_RECEIVES_EXCEEDED'']"
  "is_ok (fst (run_once trace_ops demo_ops 1 consumer_demo (deliveries_demo, [])))"
  by code_simp+


text \<open>A price that cannot be quantized (a coefficient beyond the working precision) is not
  refused as a malformed event: it is an arithmetic error, so the message goes back to the queue
  until its receives are used up, although every delivery of it fails alike.\<close>

lemma oversized_price_is_retried:
  "number_field [(''o'', VDec (10 ^ 60))] ''o'' = Inl InvalidOperation \<and>
   fst (submit_batch ingest_env ingestor_demo [big_price_event]) = Inl InvalidOperation \<and>
   disposition_of 3 1 (Inl InvalidOperation) = RetryLater"
  by code_simp

section \<open>Draining\<close>

lemma run_once_balanced:
  "run_once sops iops wait c q = (Inr cyc, c', q') \<Longrightarrow> balanced cyc"
proof -
  assume r: "run_once sops iops wait c q = (Inr cyc, c', q')"
  obtain ds q1 where p: "so_poll sops q (cs_max_messages_per_poll c) wait = (Inr ds, q1)"
    using r by (auto simp: run_once_def split: sum.splits prod.splits)
  have z: "balanced zero_cycle" by (simp add: balanced_def zero_cycle_def)
  show ?thesis
  proof (cases "ds = []")
    case True
    then show ?thesis using r p z by (auto simp: run_once_def)
  next
    case False
    obtain c1 where h: "handle_all sops iops c q1 ds zero_cycle = (Inr cyc, c1, q')"
      using r p False by (auto simp: run_once_def Let_def split: sum.splits prod.splits if_splits)
    show ?thesis using handle_all_disposed[OF h z] by blast
  qed
qed

lemma report_add_balanced: "balanced r \<Longrightarrow> balanced cyc \<Longrightarrow> balanced (report_add r cyc)"
  by (simp add: balanced_def report_add_def)

lemma report_add_cycles: "dr_cycles (report_add r cyc) = dr_cycles r + 1"
  by (simp add: report_add_def)

lemma drain_from_sound:
  assumes ret: "drain_from sops iops wait max_empty report quiet c q = Some res"
  shows "\<forall>report' c' q'. res = (Inr report', c', q') \<longrightarrow> balanced report \<longrightarrow> 0 \<le> dr_cycles report \<and> quiet \<le> dr_cycles report \<longrightarrow>
     balanced report' \<and> max_empty \<le> dr_cycles report'"
proof (rule drain_from.raw_induct[where P = "\<lambda>sops iops wait max_empty report quiet c q res.
     \<forall>report' c' q'. res = (Inr report', c', q') \<longrightarrow> balanced report \<longrightarrow> 0 \<le> dr_cycles report \<and> quiet \<le> dr_cycles report \<longrightarrow>
       balanced report' \<and> max_empty \<le> dr_cycles report'", OF _ ret], intro allI impI)
  fix f sops iops wait max_empty report quiet c q res report' c' q'
  assume IH: "\<And>sops iops wait max_empty report quiet c q res. f sops iops wait max_empty report quiet c q = Some res \<Longrightarrow>
       \<forall>report' c' q'. res = (Inr report', c', q') \<longrightarrow> balanced report \<longrightarrow> 0 \<le> dr_cycles report \<and> quiet \<le> dr_cycles report \<longrightarrow>
         balanced report' \<and> max_empty \<le> dr_cycles report'"
    and eq: "(if quiet < max_empty then
        (case run_once sops iops wait c q of
           (Inl e, c1, q1) \<Rightarrow> Some (Inl e, c1, q1)
         | (Inr cyc, c1, q1) \<Rightarrow>
             f sops iops wait max_empty (report_add report cyc) (if cy_received cyc = 0 then quiet + 1 else 0) c1 q1)
      else Some (Inr report, c, q)) = Some res"
    and res: "res = (Inr report', c', q')" and b: "balanced report" and n: "0 \<le> dr_cycles report \<and> quiet \<le> dr_cycles report"
  show "balanced report' \<and> max_empty \<le> dr_cycles report'"
  proof (cases "quiet < max_empty")
    case False
    then show ?thesis using eq res b n by simp
  next
    case True
    then obtain cyc c1 q1 where r: "run_once sops iops wait c q = (Inr cyc, c1, q1)"
      using eq res by (auto split: sum.splits prod.splits)
    let ?quiet = "if cy_received cyc = 0 then quiet + 1 else 0"
    have "f sops iops wait max_empty (report_add report cyc) ?quiet c1 q1 = Some res"
      using eq True r by simp
    from IH[OF this] res have "balanced (report_add report cyc) \<longrightarrow> 0 \<le> dr_cycles (report_add report cyc) \<and> ?quiet \<le> dr_cycles (report_add report cyc) \<longrightarrow>
        balanced report' \<and> max_empty \<le> dr_cycles report'" by blast
    moreover have "0 \<le> dr_cycles (report_add report cyc) \<and> ?quiet \<le> dr_cycles (report_add report cyc)"
      unfolding report_add_cycles using n b by auto
    ultimately show ?thesis using report_add_balanced[OF b run_once_balanced[OF r]] by blast
  qed
qed

text \<open>The state after \<open>n\<close> cycles.\<close>

fun after_cycles :: "'q source_ops \<Rightarrow> 'i ingestor_ops \<Rightarrow> rat \<Rightarrow> nat \<Rightarrow> 'i consumer \<times> 'q \<Rightarrow> 'i consumer \<times> 'q" where
  "after_cycles sops iops wait 0 st = st"
| "after_cycles sops iops wait (Suc n) (c, q) = after_cycles sops iops wait n (snd (run_once sops iops wait c q))"

definition cycle_from :: "'q source_ops \<Rightarrow> 'i ingestor_ops \<Rightarrow> rat \<Rightarrow> 'i consumer \<times> 'q \<Rightarrow> nat \<Rightarrow> cycle res" where
  "cycle_from sops iops wait st n =
     (case after_cycles sops iops wait n st of (c, q) \<Rightarrow> fst (run_once sops iops wait c q))"

lemma cycle_from_Suc:
  "run_once sops iops wait c q = (r, c1, q1) \<Longrightarrow>
   cycle_from sops iops wait (c, q) (Suc n) = cycle_from sops iops wait (c1, q1) n"
  by (simp add: cycle_from_def)

lemma cycle_from_0: "cycle_from sops iops wait (c, q) 0 = fst (run_once sops iops wait c q)"
  by (simp add: cycle_from_def)

lemma drain_from_step:
  assumes "quiet < max_empty" "run_once sops iops wait c q = (Inr cyc, c1, q1)"
  shows "drain_from sops iops wait max_empty report quiet c q =
    drain_from sops iops wait max_empty (report_add report cyc) (if cy_received cyc = 0 then quiet + 1 else 0) c1 q1"
  using assms by (subst drain_from.simps) simp

definition returns :: "(drain_report res \<times> 'i consumer \<times> 'q) option \<Rightarrow> bool" where
  "returns r \<longleftrightarrow> (\<exists>report c q. r = Some (Inr report, c, q))"

lemma drain_quiet_returns:
  assumes "\<forall>n. \<exists>cyc. cycle_from sops iops wait (c, q) n = Inr cyc \<and> cy_received cyc = 0"
  shows "returns (drain_from sops iops wait max_empty report quiet c q)"
  using assms
proof (induction "nat (max_empty - quiet)" arbitrary: report quiet c q)
  case 0
  then show ?case by (subst drain_from.simps) (simp add: returns_def)
next
  case (Suc k)
  obtain cyc where "fst (run_once sops iops wait c q) = Inr cyc" and z: "cy_received cyc = 0"
    using Suc.prems[rule_format, of 0] by (auto simp: cycle_from_0)
  then obtain c1 q1 where r: "run_once sops iops wait c q = (Inr cyc, c1, q1)" by (metis prod.collapse)
  have "\<forall>n. \<exists>cyc. cycle_from sops iops wait (c1, q1) n = Inr cyc \<and> cy_received cyc = 0"
    using Suc.prems cycle_from_Suc[OF r] by metis
  then have "returns (drain_from sops iops wait max_empty (report_add report cyc) (quiet + 1) c1 q1)"
    using Suc.hyps(2) by (intro Suc.hyps(1)) linarith+
  moreover have "quiet < max_empty" using Suc.hyps(2) by linarith
  ultimately show ?case using drain_from_step[OF _ r] z by simp
qed

text \<open>C36: a drain returns whenever the cycles succeed and the source eventually stays empty, however
  many messages precede that point; and what it reports adds up over at least \<open>max_empty_cycles\<close>
  cycles.\<close>

theorem drain_returns:
  assumes "\<forall>n. \<exists>cyc. cycle_from sops iops wait (c, q) n = Inr cyc"
    "\<forall>n\<ge>N. \<forall>cyc. cycle_from sops iops wait (c, q) n = Inr cyc \<longrightarrow> cy_received cyc = 0"
  shows "\<exists>report c' q'. drain sops iops wait max_empty c q = Some (Inr report, c', q') \<and>
    balanced report \<and> max_empty \<le> dr_cycles report"
proof -
  have "returns (drain_from sops iops wait max_empty report quiet c q)" for report quiet
    using assms
  proof (induction N arbitrary: report quiet c q)
    case 0
    then show ?case using drain_quiet_returns[of sops iops wait c q] by (metis le0)
  next
    case (Suc N)
    obtain cyc where "fst (run_once sops iops wait c q) = Inr cyc"
      using Suc.prems(1)[rule_format, of 0] by (auto simp: cycle_from_0)
    then obtain c1 q1 where r: "run_once sops iops wait c q = (Inr cyc, c1, q1)" by (metis prod.collapse)
    have "returns (drain_from sops iops wait max_empty (report_add report cyc)
        (if cy_received cyc = 0 then quiet + 1 else 0) c1 q1)"
    proof (rule Suc.IH)
      show "\<forall>n. \<exists>cyc. cycle_from sops iops wait (c1, q1) n = Inr cyc"
        using Suc.prems(1) cycle_from_Suc[OF r] by metis
      show "\<forall>n\<ge>N. \<forall>cyc. cycle_from sops iops wait (c1, q1) n = Inr cyc \<longrightarrow> cy_received cyc = 0"
        using Suc.prems(2) cycle_from_Suc[OF r] by (metis Suc_le_mono)
    qed
    then show ?case
    proof (cases "quiet < max_empty")
      case False
      then show ?thesis by (subst drain_from.simps) (simp add: returns_def)
    qed (simp add: drain_from_step[OF _ r])
  qed
  then obtain report c' q' where d: "drain sops iops wait max_empty c q = Some (Inr report, c', q')"
    unfolding drain_def returns_def by blast
  have "balanced zero_report \<and> 0 \<le> dr_cycles zero_report" by (simp add: balanced_def zero_report_def)
  then show ?thesis using drain_from_sound[OF d[unfolded drain_def]] d by auto
qed

lemma trace_quiet: "run_once trace_ops iops wait c ([], tr) = (Inr zero_cycle, c, ([], tr))"
  by (simp add: run_once_def trace_ops_def)

lemma trace_quiet_from: "cycle_from trace_ops iops wait (c, ([], tr)) n = Inr zero_cycle"
proof (induction n)
  case (Suc n)
  then show ?case using cycle_from_Suc[OF trace_quiet] by metis
qed (simp add: cycle_from_0 trace_quiet)

theorem drain_returns_witness:
  "\<exists>report c' q'. drain trace_ops demo_ops 1 2 consumer_demo (deliveries_demo, []) = Some (Inr report, c', q') \<and>
     balanced report \<and> 2 \<le> dr_cycles report"
proof -
  let ?r = "run_once trace_ops demo_ops 1 consumer_demo (deliveries_demo, [])"
  obtain cyc where cyc: "fst ?r = Inr cyc" using demo_cycle(2) by (auto simp: is_ok_iff)
  have "fst (snd (snd ?r)) = []" by code_simp
  then obtain c1 tr where r: "?r = (Inr cyc, c1, ([], tr))" using cyc by (metis prod.collapse)
  have ok: "cycle_from trace_ops demo_ops 1 (consumer_demo, (deliveries_demo, [])) n = Inr (if n = 0 then cyc else zero_cycle)" for n
  proof (cases n)
    case (Suc m)
    then show ?thesis using cycle_from_Suc[OF r] trace_quiet_from by simp
  qed (simp add: cycle_from_0 r)
  have z: "cy_received zero_cycle = 0" by (simp add: zero_cycle_def)
  show ?thesis
    by (rule drain_returns[where N = 1]) (simp_all add: ok z)
qed

section \<open>Graceful stop\<close>

lemma flush_empties: "flush E ops adv s w repo now = (Inr r, s', w', repo') \<Longrightarrow> in_buffer s' = []"
  by (auto simp: flush_def Let_def split: if_splits sum.splits prod.splits)

text \<open>a consumer stopped between two cycles has published everything it acknowledged: when
  \<open>run_until_stopped\<close> returns a result, the ingestor's buffer is empty and nothing counts as
  unflushed.\<close>

theorem stop_publishes_everything:
  assumes "run_until_stopped sops (real_ingestor E eops adv now) wait polls report c q = Some (Inr (rep, r), c', q')"
  shows "in_buffer (fst (cs_ingestor c')) = [] \<and> cs_since_flush c' = 0 \<and> True \<in> set polls"
  using assms
proof (induction polls arbitrary: report c q)
  case (Cons stop polls)
  show ?case
  proof (cases stop)
    case True
    obtain s w repo where i: "cs_ingestor c = (s, w, repo)" by (cases "cs_ingestor c")
    obtain fr s' w' repo' where f: "flush E eops adv s w repo now = (fr, s', w', repo')" by (metis prod.collapse)
    then show ?thesis
      using Cons.prems True i flush_empties[of E eops adv s w repo now r s' w' repo']
      by (auto simp: shutdown_def real_ingestor_def split: sum.splits)
  next
    case False
    then show ?thesis using Cons.prems Cons.IH by (auto split: sum.splits prod.splits)
  qed
qed simp

lemma run_stop_now: "run_until_stopped sops iops wait [True] report c q =
    (case shutdown iops c of (Inl e, c1) \<Rightarrow> Some (Inl e, c1, q) | (Inr r, c1) \<Rightarrow> Some (Inr (report, r), c1, q))"
  by simp

theorem stop_publishes_everything_witness:
  "\<exists>rep r c' q'. run_until_stopped trace_ops demo_ops 1 [False, True] zero_report consumer_demo (deliveries_demo, [])
      = Some (Inr (rep, r), c', q') \<and> in_buffer (fst (cs_ingestor c')) = []"
proof -
  let ?r = "run_once trace_ops demo_ops 1 consumer_demo (deliveries_demo, [])"
  obtain cyc c1 q1 where r: "?r = (Inr cyc, c1, q1)"
    using demo_cycle(2) by (cases ?r) (auto simp: is_ok_iff)
  obtain s w repo where i: "cs_ingestor c1 = (s, w, repo)" by (cases "cs_ingestor c1")
  have "lg_feed_id (in_ledger (fst (cs_ingestor (fst (snd ?r))))) = ''f''" by code_simp
  then have "lg_feed_id (in_ledger s) \<noteq> []" using r i by simp
  from flush_demo_ok[OF this, of ingest_env mem_advance w repo 9]
  obtain fr t where f: "flush ingest_env engine_demo mem_advance s w repo 9 = (Inr fr, t)"
    by (metis is_ok_iff prod.collapse)
  obtain c2 where sd: "shutdown demo_ops c1 = (Inr fr, c2)"
    using f i by (cases t) (simp add: shutdown_def real_ingestor_def)
  have "run_until_stopped trace_ops demo_ops 1 [False, True] zero_report consumer_demo (deliveries_demo, []) =
      Some (Inr (report_add zero_report cyc, fr), c2, q1)"
    using r sd by simp
  from stop_publishes_everything[OF this] show ?thesis using \<open>_ = Some _\<close> by blast
qed

section \<open>Parking\<close>

text \<open>the SQS adapter deletes a message only after it was written to the dead-letter queue:
  success means sent, then deleted; without a dead-letter queue, or when the body cannot be rendered
  or the send fails, the source queue was not touched.\<close>

theorem sqs_parks_before_deleting:
  "case sqs_dead_letter J cl src q d reason of
      (Inr u, q') \<Rightarrow> \<exists>dlq text attrs q1. sq_dead_letter_queue_url src = Some dlq \<and> dlq \<noteq> [] \<and>
         (''DeadLetterReason'', reason) \<in> set attrs \<and> sc_send cl q dlq text attrs = (Inr (), q1) \<and>
         sc_delete cl q1 (sq_queue_url src) (dl_receipt_handle d) = (Inr u, q')
    | (Inl e, q') \<Rightarrow> q' = q \<or>
         (\<exists>dlq text attrs. sc_send cl q dlq text attrs = (Inl e, q')) \<or>
         (\<exists>dlq text attrs q1. sc_send cl q dlq text attrs = (Inr (), q1) \<and>
            sc_delete cl q1 (sq_queue_url src) (dl_receipt_handle d) = (Inl e, q'))"
proof (cases "case sq_dead_letter_queue_url src of Some u \<Rightarrow> (if u = [] then None else Some u) | None \<Rightarrow> None")
  case None
  then show ?thesis by (simp add: sqs_dead_letter_def)
next
  case (Some dlq)
  then have dlq: "sq_dead_letter_queue_url src = Some dlq" "dlq \<noteq> []" by (auto split: option.splits if_splits)
  let ?attrs = "[(''DeadLetterReason'', reason), (''SourceQueueUrl'', sq_queue_url src),
                   (''ReceiveCount'', int_str (dl_receive_count d))]"
  show ?thesis
  proof (cases "json_dumps J (parked_body (dl_body d))")
    case (Inl e)
    then show ?thesis using Some by (simp add: sqs_dead_letter_def)
  next
    case (Inr rendered)
    obtain r q1 where s: "sc_send cl q dlq rendered ?attrs = (r, q1)" by fastforce
    obtain r2 q2 where del: "sc_delete cl q1 (sq_queue_url src) (dl_receipt_handle d) = (r2, q2)" by fastforce
    show ?thesis
    proof (cases r)
      case (Inl e)
      then show ?thesis using Some s \<open>json_dumps J _ = Inr rendered\<close> by (auto simp: sqs_dead_letter_def)
    next
      case (Inr u)
      have a: "(''DeadLetterReason'', reason) \<in> set ?attrs" by simp
      have eq: "sqs_dead_letter J cl src q d reason = (r2, q2)"
        using Some s Inr \<open>json_dumps J _ = Inr rendered\<close> del by (simp add: sqs_dead_letter_def sqs_acknowledge_def)
      show ?thesis
      proof (cases r2)
        case (Inl e)
        then show ?thesis unfolding eq using s \<open>r = Inr u\<close> del by auto
      next
        case (Inr v)
        show ?thesis unfolding eq Inr prod.case sum.case
          by (rule exI[of _ dlq], rule exI[of _ rendered], rule exI[of _ ?attrs], rule exI[of _ q1])
             (use dlq a s \<open>r = Inr u\<close> del Inr in simp)
      qed
    qed
  qed
qed

end
