(* ===== verification/Redis_Source.thy ===== *)
theory Redis_Source
  imports Realtime_Consumer
begin

text \<open>
  \<open>market_pipeline_lib/redis_ingest.py\<close>: the producer's key names, the decoding of one
  stream entry, and \<open>RedisMarketEventSource\<close>, the second implementation of the
  event-source port. The Redis client is the record \<open>redis_client\<close> of the calls the code
  makes, over a client state; \<open>json.loads\<close> with \<open>Decimal\<close> numbers, \<open>str\<close> of a
  document and the text of an exception are the record \<open>redis_env\<close>.
\<close>

section \<open>Keys\<close>

definition C_PUBLISH_KEY_ROLES :: "string list" where
  "C_PUBLISH_KEY_ROLES = [''stream'', ''hash'', ''zset'', ''zset'']"

definition C_STREAM_FIELDS :: "string list" where
  "C_STREAM_FIELDS = [''eventId'', ''schemaVersion'', ''instrumentId'', ''provider'', ''feed'',
     ''eventType'', ''providerEventId'', ''occurredAt'', ''receivedAt'', ''sequence'', ''revision'',
     ''correctionOfEventId'', ''values'']"

definition C_MARKET_EVENT_TYPES :: "string list" where
  "C_MARKET_EVENT_TYPES = [''QUOTE'', ''TRADE'', ''BAR_1M'']"

definition DEAD_LETTER_FIELDS :: "string list" where
  "DEAD_LETTER_FIELDS = [''deadLetterReason'', ''sourceStream'', ''sourceStreamEntryId'',
     ''sourceConsumerGroup'', ''deliveryCount'']"

definition INTEGER_FIELDS :: "string list" where
  "INTEGER_FIELDS = [''schemaVersion'', ''sequence'', ''revision'']"

definition UNDECODABLE :: string where "UNDECODABLE = ''__undecodable__''"

definition market_key_base :: "string \<Rightarrow> string res" where
  "market_key_base p =
     (if p = [] \<or> blank p then Inl RealtimeIngestError
      else if CHR ''{'' \<in> set p \<or> CHR ''}'' \<in> set p then Inl RealtimeIngestError
      else Inr (''{'' @ p @ '':market}''))"

definition stream_key :: "string \<Rightarrow> string res" where
  "stream_key p = bindE (market_key_base p) (\<lambda>b. Inr (b @ '':events''))"

definition deduplication_key :: "string \<Rightarrow> string res" where
  "deduplication_key p = bindE (market_key_base p) (\<lambda>b. Inr (b @ '':seen:v2''))"

definition latest_key :: "string \<Rightarrow> string \<Rightarrow> string \<Rightarrow> string res" where
  "latest_key p instrument_id event_type =
     (if blank instrument_id then Inl RealtimeIngestError
      else if blank event_type then Inl RealtimeIngestError
      else bindE (market_key_base p) (\<lambda>b. Inr (b @ '':latest:'' @ instrument_id @ '':'' @ event_type)))"

definition recent_bars_key :: "string \<Rightarrow> string \<Rightarrow> string res" where
  "recent_bars_key p instrument_id =
     (if blank instrument_id then Inl RealtimeIngestError
      else bindE (market_key_base p) (\<lambda>b. Inr (b @ '':bars:'' @ instrument_id @ '':1m'')))"

definition bar_updates_channel :: "string \<Rightarrow> string res" where
  "bar_updates_channel p = bindE (market_key_base p) (\<lambda>b. Inr (b @ '':bar-updates''))"

section \<open>Decoding\<close>

type_synonym entry = "(string, string) dict"

record redis_env =
  json_decimal :: "string \<Rightarrow> pyval res"
  py_str :: "pyval \<Rightarrow> string"
  error_text :: "exc \<Rightarrow> string"

definition decimal_member :: "string \<times> pyval \<Rightarrow> (string \<times> pyval) res" where
  "decimal_member m = (case m of (name, VDec d) \<Rightarrow> Inr (name, VDec d) | _ \<Rightarrow> Inl RedisStreamDecodeError)"

definition decode_values :: "redis_env \<Rightarrow> string \<Rightarrow> doc res" where
  "decode_values R raw =
     (case json_decimal R raw of
        Inl e \<Rightarrow> (if e = TypeError \<or> e = ValueError then Inl RedisStreamDecodeError else Inl e)
      | Inr (VMap d) \<Rightarrow> (if d = [] then Inl RedisStreamDecodeError else mapE decimal_member d)
      | Inr _ \<Rightarrow> Inl RedisStreamDecodeError)"

definition integer_text :: "entry \<Rightarrow> string \<Rightarrow> pyval res" where
  "integer_text f name =
     (case dget f name of
        None \<Rightarrow> Inl KeyError
      | Some t \<Rightarrow> (case py_int t of None \<Rightarrow> Inl RedisStreamDecodeError | Some n \<Rightarrow> Inr (VInt n)))"

definition text_value :: "entry \<Rightarrow> string \<Rightarrow> pyval" where
  "text_value f name = (case dget f name of Some t \<Rightarrow> VStr t | None \<Rightarrow> VNone)"

definition decode_stream_entry :: "redis_env \<Rightarrow> entry \<Rightarrow> doc res" where
  "decode_stream_entry R f =
     (if \<not> list_all (has_key f) C_STREAM_FIELDS then Inl RedisStreamDecodeError
      else bindE (integer_text f ''schemaVersion'') (\<lambda>schema_version.
           bindE (integer_text f ''sequence'') (\<lambda>sequence.
           bindE (integer_text f ''revision'') (\<lambda>revision.
           bindE (case dget f ''values'' of
                    None \<Rightarrow> Inl KeyError
                  | Some raw \<Rightarrow>
                     (case decode_values R raw of
                        Inl e \<Rightarrow> Inl (if e = InvalidOperation then RedisStreamDecodeError else e)
                      | Inr d \<Rightarrow> Inr d)) (\<lambda>vals.
             Inr (dset ''values'' (VMap vals)
                 (dset ''correctionOfEventId''
                    (if dget f ''correctionOfEventId'' = Some [] then VNone else text_value f ''correctionOfEventId'')
                 (dset ''revision'' revision (dset ''sequence'' sequence (dset ''schemaVersion'' schema_version
                    (map (\<lambda>n. (n, text_value f n)) C_STREAM_FIELDS)))))))))))"

definition decode_latest :: "redis_env \<Rightarrow> entry \<Rightarrow> doc res" where
  "decode_latest R f =
     bindE (decode_stream_entry R f) (\<lambda>decoded.
       case dget f ''streamEntryId'' of
         Some (c # cs) \<Rightarrow> Inr (dset ''streamEntryId'' (VStr (c # cs)) decoded)
       | _ \<Rightarrow> Inl RedisStreamDecodeError)"

section \<open>The adapter\<close>

datatype group_result = GroupCreated | BusyGroup | GroupFailed exc

record 'c redis_client =
  rc_xgroup_create :: "'c \<Rightarrow> string \<Rightarrow> string \<Rightarrow> string \<Rightarrow> group_result \<times> 'c"
  rc_xpending :: "'c \<Rightarrow> string \<Rightarrow> string \<Rightarrow> int option res"
  rc_xpending_range :: "'c \<Rightarrow> string \<Rightarrow> string \<Rightarrow> int \<Rightarrow> int \<Rightarrow> (string \<times> int) list res"
  rc_xclaim :: "'c \<Rightarrow> string \<Rightarrow> string \<Rightarrow> string \<Rightarrow> int \<Rightarrow> string list \<Rightarrow> (string \<times> entry option) list res \<times> 'c"
  rc_xclaim_idle :: "'c \<Rightarrow> string \<Rightarrow> string \<Rightarrow> string \<Rightarrow> string \<Rightarrow> int \<Rightarrow> unit res \<times> 'c"
  rc_xreadgroup :: "'c \<Rightarrow> string \<Rightarrow> string \<Rightarrow> string \<Rightarrow> int \<Rightarrow> int option
     \<Rightarrow> (string \<times> (string \<times> entry option) list) list res \<times> 'c"
  rc_xack :: "'c \<Rightarrow> string \<Rightarrow> string \<Rightarrow> string \<Rightarrow> unit res \<times> 'c"
  rc_xadd :: "'c \<Rightarrow> string \<Rightarrow> entry \<Rightarrow> unit res \<times> 'c"
  rc_zscore :: "'c \<Rightarrow> string \<Rightarrow> string \<Rightarrow> rat option res"
  rc_hgetall :: "'c \<Rightarrow> string \<Rightarrow> entry res"

record redis_source =
  rs_stream_key :: string
  rs_deduplication_key :: string
  rs_key_prefix :: string
  rs_consumer_group :: string
  rs_consumer_name :: string
  rs_dead_letter_stream_key :: "string option"
  rs_claim_min_idle_ms :: int
  rs_held :: "(string, entry) dict"

text \<open>\<open>int(seconds * 1000)\<close>, the product rounded to a \<open>float\<close>.\<close>

definition to_millis :: "rat \<Rightarrow> int res" where
  "to_millis seconds = (case float64 (seconds * 1000) of None \<Rightarrow> Inl OverflowError | Some r \<Rightarrow> Inr (trunc r))"

definition mk_redis_source :: "string \<Rightarrow> string \<Rightarrow> string \<Rightarrow> string option \<Rightarrow> rat \<Rightarrow> redis_source res" where
  "mk_redis_source key_prefix consumer_group consumer_name dlq claim_min_idle_seconds =
     (if blank consumer_group then Inl RealtimeIngestError
      else if blank consumer_name then Inl RealtimeIngestError
      else if claim_min_idle_seconds \<le> 0 then Inl RealtimeIngestError
      else bindE (stream_key key_prefix) (\<lambda>sk.
           bindE (deduplication_key key_prefix) (\<lambda>dk.
           bindE (to_millis claim_min_idle_seconds) (\<lambda>idle.
             Inr \<lparr>rs_stream_key = sk, rs_deduplication_key = dk, rs_key_prefix = key_prefix,
                  rs_consumer_group = consumer_group, rs_consumer_name = consumer_name,
                  rs_dead_letter_stream_key = dlq, rs_claim_min_idle_ms = idle, rs_held = []\<rparr>))))"

type_synonym 'c redis_state = "redis_source \<times> 'c"

definition ensure_group :: "'c redis_client \<Rightarrow> 'c redis_state \<Rightarrow> string \<Rightarrow> bool res \<times> 'c redis_state" where
  "ensure_group cl st start_id =
     (let (src, c) = st in
      case rc_xgroup_create cl c (rs_stream_key src) (rs_consumer_group src) start_id of
        (GroupCreated, c1) \<Rightarrow> (Inr True, (src, c1))
      | (BusyGroup, c1) \<Rightarrow> (Inr False, (src, c1))
      | (GroupFailed e, c1) \<Rightarrow> (Inl e, (src, c1)))"

definition pending_count :: "'c redis_client \<Rightarrow> 'c redis_state \<Rightarrow> int res" where
  "pending_count cl st =
     (let (src, c) = st in
      bindE (rc_xpending cl c (rs_stream_key src) (rs_consumer_group src))
        (\<lambda>summary. Inr (case summary of None \<Rightarrow> 0 | Some n \<Rightarrow> n)))"

definition is_ingest_error :: "exc \<Rightarrow> bool" where
  "is_ingest_error e \<longleftrightarrow> e = RealtimeIngestError \<or> e = UnsupportedEventVersion \<or> e = RedisStreamDecodeError"

definition entry_body :: "redis_env \<Rightarrow> string \<Rightarrow> entry \<Rightarrow> pyval res" where
  "entry_body R entry_id f =
     (if f = [] then Inr (VMap [(UNDECODABLE, VStr (''stream entry '' @ entry_id @ '' no longer exists''))])
      else case decode_stream_entry R f of
          Inr d \<Rightarrow> Inr (VMap [(''events'', VList [VMap d])])
        | Inl e \<Rightarrow>
            (if is_ingest_error e then Inr (VMap [(UNDECODABLE, VStr (entry_id @ '': '' @ error_text R e))])
             else Inl e))"

definition redis_delivery :: "redis_env \<Rightarrow> redis_source \<Rightarrow> string \<Rightarrow> entry option \<Rightarrow> int \<Rightarrow> delivery res \<times> redis_source" where
  "redis_delivery R src entry_id fields_opt receive_count =
     (let raw = (case fields_opt of None \<Rightarrow> [] | Some f \<Rightarrow> f);
          src1 = src\<lparr>rs_held := dset entry_id raw (rs_held src)\<rparr>
      in (bindE (entry_body R entry_id raw) (\<lambda>body.
            Inr \<lparr>dl_message_id = entry_id, dl_body = body, dl_receipt_handle = entry_id,
                 dl_receive_count = receive_count\<rparr>), src1))"

fun redis_deliveries :: "redis_env \<Rightarrow> redis_source \<Rightarrow> (string \<times> entry option \<times> int) list \<Rightarrow> delivery list res \<times> redis_source" where
  "redis_deliveries R src [] = (Inr [], src)"
| "redis_deliveries R src ((i, f, n) # rest) =
     (case redis_delivery R src i f n of
        (Inl e, src1) \<Rightarrow> (Inl e, src1)
      | (Inr d, src1) \<Rightarrow>
        (case redis_deliveries R src1 rest of
           (Inl e, src2) \<Rightarrow> (Inl e, src2)
         | (Inr ds, src2) \<Rightarrow> (Inr (d # ds), src2)))"

definition reclaim :: "redis_env \<Rightarrow> 'c redis_client \<Rightarrow> 'c redis_state \<Rightarrow> int \<Rightarrow> delivery list res \<times> 'c redis_state" where
  "reclaim R cl st wanted =
     (let (src, c) = st in
      case rc_xpending_range cl c (rs_stream_key src) (rs_consumer_group src) wanted (rs_claim_min_idle_ms src) of
        Inl e \<Rightarrow> (Inl e, st)
      | Inr pending \<Rightarrow>
        (if pending = [] then (Inr [], st)
         else
           let counts = fold (\<lambda>(i, n). dset i (n + 1)) pending [] in
           case rc_xclaim cl c (rs_stream_key src) (rs_consumer_group src) (rs_consumer_name src)
                  (rs_claim_min_idle_ms src) (map fst counts) of
             (Inl e, c1) \<Rightarrow> (Inl e, (src, c1))
           | (Inr claimed, c1) \<Rightarrow>
             (case redis_deliveries R src (map (\<lambda>(i, f). (i, f, case dget counts i of Some n \<Rightarrow> n | None \<Rightarrow> 1)) claimed) of
                (r, src1) \<Rightarrow> (r, (src1, c1)))))"

definition redis_poll :: "redis_env \<Rightarrow> 'c redis_client \<Rightarrow> 'c redis_state \<Rightarrow> int \<Rightarrow> rat \<Rightarrow> delivery list res \<times> 'c redis_state" where
  "redis_poll R cl st max_messages wait_seconds =
     (let wanted = max 1 max_messages in
      case reclaim R cl st wanted of
        (Inl e, st1) \<Rightarrow> (Inl e, st1)
      | (Inr deliveries, st1) \<Rightarrow>
        (let remaining = wanted - int (length deliveries); (src, c) = st1 in
         if remaining \<le> 0 then (Inr deliveries, st1)
         else case to_millis wait_seconds of
             Inl e \<Rightarrow> (Inl e, st1)
           | Inr ms \<Rightarrow>
             (case rc_xreadgroup cl c (rs_consumer_group src) (rs_consumer_name src) (rs_stream_key src) remaining
                    (if max 0 ms = 0 then None else Some (max 0 ms)) of
                (Inl e, c1) \<Rightarrow> (Inl e, (src, c1))
              | (Inr response, c1) \<Rightarrow>
                (case redis_deliveries R src (map (\<lambda>(i, f). (i, f, 1)) (concat (map snd response))) of
                   (Inl e, src1) \<Rightarrow> (Inl e, (src1, c1))
                 | (Inr fresh, src1) \<Rightarrow> (Inr (deliveries @ fresh), (src1, c1))))))"

definition redis_acknowledge :: "'c redis_client \<Rightarrow> 'c redis_state \<Rightarrow> delivery \<Rightarrow> unit res \<times> 'c redis_state" where
  "redis_acknowledge cl st d =
     (let (src, c) = st in
      case rc_xack cl c (rs_stream_key src) (rs_consumer_group src) (dl_receipt_handle d) of
        (Inl e, c1) \<Rightarrow> (Inl e, (src, c1))
      | (Inr _, c1) \<Rightarrow> (Inr (), (src\<lparr>rs_held := dpop (dl_receipt_handle d) (rs_held src)\<rparr>, c1)))"

definition redis_retry_later :: "'c redis_client \<Rightarrow> 'c redis_state \<Rightarrow> delivery \<Rightarrow> rat \<Rightarrow> unit res \<times> 'c redis_state" where
  "redis_retry_later cl st d delay_seconds =
     (let (src, c) = st in
      case to_millis delay_seconds of
        Inl e \<Rightarrow> (Inl e, st)
      | Inr ms \<Rightarrow>
        (let delay_ms = max 0 ms in
         if rs_claim_min_idle_ms src < delay_ms then (Inl RealtimeIngestError, st)
         else case rc_xclaim_idle cl c (rs_stream_key src) (rs_consumer_group src) (rs_consumer_name src)
                     (dl_receipt_handle d) (rs_claim_min_idle_ms src - delay_ms) of
             (Inl e, c1) \<Rightarrow> (Inl e, (src, c1))
           | (Inr _, c1) \<Rightarrow> (Inr (), (src\<lparr>rs_held := dpop (dl_receipt_handle d) (rs_held src)\<rparr>, c1))))"

definition undecodable_text :: "redis_env \<Rightarrow> pyval \<Rightarrow> string" where
  "undecodable_text R body =
     (case body of
        VMap d \<Rightarrow> (case dget d UNDECODABLE of Some (VStr s) \<Rightarrow> s | Some v \<Rightarrow> py_str R v | None \<Rightarrow> py_str R body)
      | v \<Rightarrow> py_str R v)"

definition parked_entry :: "redis_env \<Rightarrow> redis_source \<Rightarrow> delivery \<Rightarrow> string \<Rightarrow> entry" where
  "parked_entry R src d reason =
     (let raw = (case dget (rs_held src) (dl_receipt_handle d) of
            Some f \<Rightarrow> f | None \<Rightarrow> [(UNDECODABLE, undecodable_text R (dl_body d))])
      in dset ''deliveryCount'' (int_str (dl_receive_count d))
        (dset ''sourceConsumerGroup'' (rs_consumer_group src)
        (dset ''sourceStreamEntryId'' (dl_message_id d)
        (dset ''sourceStream'' (rs_stream_key src)
        (dset ''deadLetterReason'' reason raw)))))"

definition redis_dead_letter :: "redis_env \<Rightarrow> 'c redis_client \<Rightarrow> 'c redis_state \<Rightarrow> delivery \<Rightarrow> string \<Rightarrow> unit res \<times> 'c redis_state" where
  "redis_dead_letter R cl st d reason =
     (let (src, c) = st in
      case rs_dead_letter_stream_key src of
        None \<Rightarrow> (Inl RealtimeIngestError, st)
      | Some dlq \<Rightarrow>
        (if dlq = [] then (Inl RealtimeIngestError, st)
         else case rc_xadd cl c dlq (parked_entry R src d reason) of
             (Inl e, c1) \<Rightarrow> (Inl e, (src, c1))
           | (Inr _, c1) \<Rightarrow> redis_acknowledge cl (src, c1) d))"

definition producer_published :: "'c redis_client \<Rightarrow> 'c redis_state \<Rightarrow> string \<Rightarrow> bool res" where
  "producer_published cl st event_id =
     (let (src, c) = st in
      bindE (rc_zscore cl c (rs_deduplication_key src) event_id) (\<lambda>s. Inr (s \<noteq> None)))"

definition latest_observation :: "redis_env \<Rightarrow> 'c redis_client \<Rightarrow> 'c redis_state \<Rightarrow> string \<Rightarrow> string \<Rightarrow> doc option res" where
  "latest_observation R cl st instrument_id event_type =
     (let (src, c) = st in
      bindE (latest_key (rs_key_prefix src) instrument_id event_type) (\<lambda>key.
      bindE (rc_hgetall cl c key) (\<lambda>f.
        if f = [] then Inr None else bindE (decode_latest R f) (\<lambda>d. Inr (Some d)))))"

definition redis_ops :: "redis_env \<Rightarrow> 'c redis_client \<Rightarrow> 'c redis_state source_ops" where
  "redis_ops R cl = \<lparr>so_poll = redis_poll R cl, so_acknowledge = redis_acknowledge cl,
     so_retry_later = redis_retry_later cl, so_dead_letter = redis_dead_letter R cl\<rparr>"

section \<open>Parking\<close>

lemma dead_letter_not_stream: "list_all (\<lambda>n. n \<notin> set DEAD_LETTER_FIELDS) C_STREAM_FIELDS"
  by code_simp

lemma parked_entry_get:
  "dget (rs_held src) (dl_receipt_handle d) = Some raw \<Longrightarrow> n \<notin> set DEAD_LETTER_FIELDS \<Longrightarrow>
   dget (parked_entry R src d reason) n = dget raw n"
  by (auto simp: parked_entry_def DEAD_LETTER_FIELDS_def)

lemma parked_entry_append:
  assumes "dget (rs_held src) (dl_receipt_handle d) = Some raw"
    "list_all (\<lambda>n. \<not> has_key raw n) DEAD_LETTER_FIELDS"
  shows "\<exists>extra. parked_entry R src d reason = raw @ extra \<and> map fst extra = DEAD_LETTER_FIELDS"
proof -
  let ?w = "[''r'']"
  have new: "\<not> has_key raw ''deadLetterReason''" "\<not> has_key raw ''sourceStream''"
    "\<not> has_key raw ''sourceStreamEntryId''" "\<not> has_key raw ''sourceConsumerGroup''" "\<not> has_key raw ''deliveryCount''"
    using assms(2) by (simp_all add: DEAD_LETTER_FIELDS_def)
  have "parked_entry R src d reason = raw @ [(''deadLetterReason'', reason), (''sourceStream'', rs_stream_key src),
      (''sourceStreamEntryId'', dl_message_id d), (''sourceConsumerGroup'', rs_consumer_group src),
      (''deliveryCount'', int_str (dl_receive_count d))]"
    unfolding parked_entry_def assms(1) option.case Let_def
    using new by (simp add: dset_new)
  then show ?thesis by (simp add: DEAD_LETTER_FIELDS_def)
qed

text \<open>a parked entry is the entry as the producer wrote it plus the five dead-letter fields:
  none of the thirteen stream fields is altered, and stripping exactly the five gives back the
  original entry, field order included.\<close>

theorem parked_entry_roundtrip:
  assumes "dget (rs_held src) (dl_receipt_handle d) = Some raw"
    "list_all (\<lambda>n. \<not> has_key raw n) DEAD_LETTER_FIELDS"
  shows "filter (\<lambda>(n, _). n \<notin> set DEAD_LETTER_FIELDS) (parked_entry R src d reason) = raw \<and>
    list_all (\<lambda>n. dget (parked_entry R src d reason) n = dget raw n) C_STREAM_FIELDS \<and>
    dget (parked_entry R src d reason) ''deadLetterReason'' = Some reason \<and>
    dget (parked_entry R src d reason) ''sourceStreamEntryId'' = Some (dl_message_id d)"
proof -
  obtain extra where e: "parked_entry R src d reason = raw @ extra" "map fst extra = DEAD_LETTER_FIELDS"
    using parked_entry_append[OF assms] by blast
  have "filter (\<lambda>(n, _). n \<notin> set DEAD_LETTER_FIELDS) raw = raw"
    using assms(2) by (auto simp: filter_id_conv list_all_iff has_key_iff)
  moreover have "filter (\<lambda>(n, _). n \<notin> set DEAD_LETTER_FIELDS) extra = []"
    unfolding e(2)[symmetric] by (force simp: filter_empty_conv)
  moreover have "list_all (\<lambda>n. dget (parked_entry R src d reason) n = dget raw n) C_STREAM_FIELDS"
    using parked_entry_get[OF assms(1)] dead_letter_not_stream by (simp add: list_all_iff)
  moreover have "dget (parked_entry R src d reason) ''deadLetterReason'' = Some reason"
    "dget (parked_entry R src d reason) ''sourceStreamEntryId'' = Some (dl_message_id d)"
    by (simp_all add: parked_entry_def)
  ultimately show ?thesis unfolding e(1) filter_append by simp
qed

definition redis_source_demo :: redis_source where
  "redis_source_demo = \<lparr>rs_stream_key = ''{p:market}:events'', rs_deduplication_key = ''{p:market}:seen:v2'',
     rs_key_prefix = ''p'', rs_consumer_group = ''g'', rs_consumer_name = ''w'',
     rs_dead_letter_stream_key = Some ''dlq'', rs_claim_min_idle_ms = 30000,
     rs_held = [(''1-0'', [(''eventId'', ''e''), (''values'', ''bad'')])]\<rparr>"

definition redis_delivery_demo :: delivery where
  "redis_delivery_demo = \<lparr>dl_message_id = ''1-0'', dl_body = VMap [(UNDECODABLE, VStr ''x'')],
     dl_receipt_handle = ''1-0'', dl_receive_count = 2\<rparr>"

definition redis_env_demo :: redis_env where
  "redis_env_demo = \<lparr>json_decimal = (\<lambda>s. if s = ''bad'' then Inl ValueError else Inr (VMap [(''c'', VDec 1)])),
     py_str = (\<lambda>_. ''?''), error_text = (\<lambda>_. ''refused'')\<rparr>"

theorem parked_entry_roundtrip_witness:
  "filter (\<lambda>(n, _). n \<notin> set DEAD_LETTER_FIELDS)
     (parked_entry redis_env_demo redis_source_demo redis_delivery_demo ''MALFORMED_EVENT'') =
   [(''eventId'', ''e''), (''values'', ''bad'')]"
proof -
  have "dget (rs_held redis_source_demo) (dl_receipt_handle redis_delivery_demo) = Some [(''eventId'', ''e''), (''values'', ''bad'')]"
    by code_simp
  moreover have "list_all (\<lambda>n. \<not> has_key [(''eventId'', ''e''), (''values'', ''bad'')] n) DEAD_LETTER_FIELDS"
    by code_simp
  ultimately show ?thesis using parked_entry_roundtrip by blast
qed

section \<open>Retrying\<close>

text \<open>\<open>retry_later\<close> makes the entry eligible for reclaim after exactly the requested delay: it
  sets a non-negative idle time that reaches the reclaim threshold precisely when the delay has
  elapsed; a delay beyond the threshold is refused and nothing is sent.\<close>

theorem retry_delay_is_exact:
  "case redis_retry_later cl (src, c) d delay of
     (Inr u, (src', c')) \<Rightarrow> \<exists>ms idle. to_millis delay = Inr ms \<and> 0 \<le> idle \<and>
        rc_xclaim_idle cl c (rs_stream_key src) (rs_consumer_group src) (rs_consumer_name src) (dl_receipt_handle d) idle = (Inr (), c') \<and>
        (\<forall>elapsed. (rs_claim_min_idle_ms src \<le> idle + elapsed) = (max 0 ms \<le> elapsed)) \<and>
        \<not> has_key (rs_held src') (dl_receipt_handle d)
   | (Inl e, st') \<Rightarrow>
        (case to_millis delay of
           Inl e' \<Rightarrow> e = e' \<and> st' = (src, c)
         | Inr ms \<Rightarrow>
             if rs_claim_min_idle_ms src < max 0 ms then e = RealtimeIngestError \<and> st' = (src, c)
             else rc_xclaim_idle cl c (rs_stream_key src) (rs_consumer_group src) (rs_consumer_name src)
                    (dl_receipt_handle d) (rs_claim_min_idle_ms src - max 0 ms) = (Inl e, snd st') \<and> fst st' = src)"
proof (cases "to_millis delay")
  case (Inl e)
  then show ?thesis by (simp add: redis_retry_later_def)
next
  case (Inr ms)
  show ?thesis
  proof (cases "rs_claim_min_idle_ms src < max 0 ms")
    case True
    then show ?thesis using Inr by (simp add: redis_retry_later_def)
  next
    case False
    obtain r c1 where x: "rc_xclaim_idle cl c (rs_stream_key src) (rs_consumer_group src) (rs_consumer_name src)
        (dl_receipt_handle d) (rs_claim_min_idle_ms src - max 0 ms) = (r, c1)" by fastforce
    have "\<And>elapsed. (rs_claim_min_idle_ms src \<le> rs_claim_min_idle_ms src - max 0 ms + elapsed) = (max 0 ms \<le> elapsed)"
      by linarith
    note exact = this
    show ?thesis
    proof (cases r)
      case (Inl e)
      then show ?thesis using Inr False x by (simp add: redis_retry_later_def Let_def)
    next
      case ok: (Inr u)
      define idle where "idle = rs_claim_min_idle_ms src - max 0 ms"
      have "0 \<le> idle" using False unfolding idle_def by linarith
      then show ?thesis using Inr False x ok exact
        by (simp add: redis_retry_later_def Let_def idle_def[symmetric] del: max_less_iff_conj max.bounded_iff)
           (rule exI[of _ idle], simp del: max_less_iff_conj max.bounded_iff)
    qed
  qed
qed

text \<open>the positive reclaim threshold the constructor demands can still be zero milliseconds: a
  threshold under one millisecond passes the guard and is truncated.\<close>

theorem sub_millisecond_threshold:
  "map_sum id rs_claim_min_idle_ms (mk_redis_source ''p'' ''g'' ''w'' None (1 / 2048)) = Inr 0"
  by code_simp

section \<open>Undecodable entries\<close>

text \<open>an entry reaches the ingestor exactly when it still exists and decodes, and then as the one
  event it decodes to; every other entry becomes a body the consumer refuses, so it is parked rather
  than dropped or lost in an exception.\<close>

theorem entry_body_decides_parking:
  assumes "entry_body R i f = Inr body"
  shows "events_of body = (if f = [] then Inl RealtimeIngestError else
     case decode_stream_entry R f of Inl e \<Rightarrow> Inl RealtimeIngestError | Inr d \<Rightarrow> Inr [VMap d])"
  using assms
  by (auto simp: entry_body_def events_of_def UNDECODABLE_def is_object_def split: if_splits sum.splits)

theorem entry_body_decides_parking_witness:
  "events_of (case entry_body redis_env_demo ''1-0'' [(''eventId'', ''e''), (''values'', ''bad'')] of Inr b \<Rightarrow> b | Inl _ \<Rightarrow> VNone)
     = Inl RealtimeIngestError"
proof -
  let ?r = "entry_body redis_env_demo ''1-0'' [(''eventId'', ''e''), (''values'', ''bad'')]"
  have "is_ok ?r" "\<not> is_ok (decode_stream_entry redis_env_demo [(''eventId'', ''e''), (''values'', ''bad'')])"
    by code_simp+
  then obtain b e where b: "?r = Inr b" "decode_stream_entry redis_env_demo [(''eventId'', ''e''), (''values'', ''bad'')] = Inl e"
    by (metis is_ok.simps(2) is_ok_iff sum.exhaust)
  show ?thesis using entry_body_decides_parking[OF b(1)] b by simp
qed

section \<open>Held entries\<close>

lemma redis_deliveries_held:
  "redis_deliveries R src es = (Inr ds, src') \<Longrightarrow>
   (\<forall>k. has_key (rs_held src') k \<longleftrightarrow> has_key (rs_held src) k \<or> k \<in> dl_receipt_handle ` set ds) \<and>
   length ds = length es"
proof (induction es arbitrary: src ds)
  case (Cons a es)
  obtain i f n where a: "a = (i, f, n)" by (cases a)
  obtain d src1 where d: "redis_delivery R src i f n = (Inr d, src1)"
    using Cons.prems by (auto simp: a split: sum.splits prod.splits)
  then obtain ds' where r: "redis_deliveries R src1 es = (Inr ds', src')" "ds = d # ds'"
    using Cons.prems by (auto simp: a split: sum.splits prod.splits)
  have "dl_receipt_handle d = i" "\<forall>k. has_key (rs_held src1) k \<longleftrightarrow> has_key (rs_held src) k \<or> k = i"
    using d by (auto simp: redis_delivery_def Let_def)
  then show ?case using Cons.IH[OF r(1)] r(2) by auto
qed simp

end
