(* ===== verification/Tables.thy ===== *)
theory Tables
  imports Prelude
begin

text \<open>
  \<open>market_pipeline_lib/db/tables.py\<close>: the canonical schema the catalogs and the codec are
  addressed by. A table keeps its columns (type, nullability, primary key, uniqueness, foreign key,
  server default) and its indexes (columns, uniqueness) in source order.
\<close>

datatype col_type =
    TUuid | TTimestamp | TDate | TBool | TJsonb | TBigInt | TInt
  | TVarchar nat | TChar nat | TText | TEnum "string list"

record column =
  cl_name :: string
  cl_type :: col_type
  cl_nullable :: bool
  cl_primary_key :: bool
  cl_unique :: bool
  cl_foreign_key :: "string option"
  cl_default :: "string option"

record table =
  tb_schema :: string
  tb_name :: string
  tb_columns :: "column list"
  tb_indexes :: "(string \<times> string list \<times> bool) list"

definition col :: "string \<Rightarrow> col_type \<Rightarrow> bool \<Rightarrow> bool \<Rightarrow> bool \<Rightarrow> string option \<Rightarrow> string option \<Rightarrow> column" where
  "col n t nullable pk unique fk dflt =
     \<lparr>cl_name = n, cl_type = t, cl_nullable = nullable, cl_primary_key = pk, cl_unique = unique,
      cl_foreign_key = fk, cl_default = dflt\<rparr>"

definition mk_table :: "string \<Rightarrow> string \<Rightarrow> column list \<Rightarrow> (string \<times> string list \<times> bool) list \<Rightarrow> table" where
  "mk_table s n cs ix = \<lparr>tb_schema = s, tb_name = n, tb_columns = cs, tb_indexes = ix\<rparr>"

definition ASSET_TYPE_LABELS :: "string list" where
  "ASSET_TYPE_LABELS = [''STOCK'', ''ETF'', ''INDEX'']"

definition DATASET_STATUS_LABELS :: "string list" where
  "DATASET_STATUS_LABELS = [''BUILDING'', ''AVAILABLE'', ''QUARANTINED'', ''SUPERSEDED'', ''DELETED'']"

definition PARTITION_GRANULARITY_LABELS :: "string list" where
  "PARTITION_GRANULARITY_LABELS = [''DAY'', ''WEEK'', ''MONTH'', ''YEAR'']"

definition OBJECT_STATUS_LABELS :: "string list" where
  "OBJECT_STATUS_LABELS = [''STAGED'', ''AVAILABLE'', ''QUARANTINED'', ''SUPERSEDED'', ''DELETED'']"

definition WORK_STATUS_LABELS :: "string list" where
  "WORK_STATUS_LABELS = [''PENDING'', ''RUNNING'', ''SUCCEEDED'', ''FAILED'', ''CANCELLED'', ''SKIPPED'']"

definition tbl_storage_objects :: table where
  "tbl_storage_objects = mk_table ''storage'' ''objects''
  [col ''id'' (TUuid) False True False None (Some ''gen_random_uuid()''),
   col ''status'' (TEnum OBJECT_STATUS_LABELS) False False False None None,
   col ''storage_provider'' (TVarchar 40) False False False None None,
   col ''bucket_name'' (TVarchar 160) False False False None None,
   col ''object_key'' (TVarchar 900) False False False None None,
   col ''provider_version_id'' (TVarchar 300) False False False None None,
   col ''content_hash'' (TVarchar 128) False False False None None,
   col ''byte_size'' (TBigInt) False False False None None,
   col ''file_format'' (TVarchar 40) False False False None None,
   col ''compression_codec'' (TVarchar 40) False False False None None,
   col ''media_type'' (TVarchar 120) False False False None None,
   col ''schema_version'' (TVarchar 40) False False False None None,
   col ''row_count'' (TBigInt) True False False None None,
   col ''period_start'' (TTimestamp) True False False None None,
   col ''period_end'' (TTimestamp) True False False None None,
   col ''encryption_key_ref'' (TVarchar 300) True False False None None,
   col ''retention_policy_version'' (TVarchar 80) False False False None None,
   col ''retention_until'' (TTimestamp) True False False None None,
   col ''legal_hold'' (TBool) False False False None (Some ''false''),
   col ''created_at'' (TTimestamp) False False False None (Some ''now()''),
   col ''verified_at'' (TTimestamp) True False False None None,
   col ''quarantined_at'' (TTimestamp) True False False None None,
   col ''superseded_at'' (TTimestamp) True False False None None,
   col ''deleted_at'' (TTimestamp) True False False None None
  ]
  [(''uq_storage_objects_provider_bucket_key_version'', [''storage_provider'', ''bucket_name'', ''object_key'', ''provider_version_id''], True),
   (''ix_storage_objects_content_hash_byte_size'', [''content_hash'', ''byte_size''], False),
   (''ix_storage_objects_status_created_at'', [''status'', ''created_at''], False),
   (''ix_storage_objects_retention_until'', [''retention_until''], False)]"

definition tbl_instruments :: table where
  "tbl_instruments = mk_table ''market_data'' ''instruments''
  [col ''id'' (TUuid) False True False None (Some ''gen_random_uuid()''),
   col ''asset_type'' (TEnum ASSET_TYPE_LABELS) False False False None None,
   col ''primary_exchange_mic'' (TChar 4) False False False None None,
   col ''currency_code'' (TChar 3) False False False None (Some (CHR 0x27 # ''USD'' @ [CHR 0x27])),
   col ''provider_reference'' (TVarchar 160) True False False None None,
   col ''listed_at'' (TDate) True False False None None,
   col ''delisted_at'' (TDate) True False False None None,
   col ''created_at'' (TTimestamp) False False False None (Some ''now()'')
  ]
  [(''ix_instruments_asset_type_mic'', [''asset_type'', ''primary_exchange_mic''], False)]"

definition tbl_instrument_symbols :: table where
  "tbl_instrument_symbols = mk_table ''market_data'' ''instrument_symbols''
  [col ''id'' (TUuid) False True False None (Some ''gen_random_uuid()''),
   col ''instrument_id'' (TUuid) False False False (Some ''market_data.instruments.id'') None,
   col ''exchange_mic'' (TChar 4) False False False None None,
   col ''symbol'' (TVarchar 32) False False False None None,
   col ''effective_from'' (TTimestamp) False False False None None,
   col ''effective_to'' (TTimestamp) True False False None None
  ]
  [(''uq_instrument_symbols_mic_symbol_from'', [''exchange_mic'', ''symbol'', ''effective_from''], True),
   (''ix_instrument_symbols_instrument_from'', [''instrument_id'', ''effective_from''], False)]"

definition tbl_trading_sessions :: table where
  "tbl_trading_sessions = mk_table ''market_data'' ''trading_sessions''
  [col ''id'' (TUuid) False True False None (Some ''gen_random_uuid()''),
   col ''exchange_mic'' (TChar 4) False False False None None,
   col ''session_date'' (TDate) False False False None None,
   col ''opens_at'' (TTimestamp) True False False None None,
   col ''closes_at'' (TTimestamp) True False False None None,
   col ''session_type'' (TVarchar 30) False False False None None,
   col ''calendar_version'' (TVarchar 40) False False False None None
  ]
  [(''uq_trading_sessions_mic_date_calendar'', [''exchange_mic'', ''session_date'', ''calendar_version''], True)]"

definition tbl_providers :: table where
  "tbl_providers = mk_table ''market_data'' ''providers''
  [col ''id'' (TUuid) False True False None (Some ''gen_random_uuid()''),
   col ''code'' (TVarchar 80) False False True None None,
   col ''display_name'' (TVarchar 160) False False False None None,
   col ''rights_version'' (TVarchar 80) False False False None None,
   col ''status'' (TVarchar 30) False False False None None,
   col ''created_at'' (TTimestamp) False False False None None
  ]
  []"

definition tbl_feeds :: table where
  "tbl_feeds = mk_table ''market_data'' ''feeds''
  [col ''id'' (TUuid) False True False None (Some ''gen_random_uuid()''),
   col ''provider_id'' (TUuid) False False False (Some ''market_data.providers.id'') None,
   col ''code'' (TVarchar 80) False False False None None,
   col ''data_kind'' (TVarchar 40) False False False None None,
   col ''resolution'' (TVarchar 30) False False False None None,
   col ''timezone_name'' (TVarchar 80) False False False None None,
   col ''feed_version'' (TVarchar 40) False False False None None,
   col ''created_at'' (TTimestamp) False False False None None,
   col ''retired_at'' (TTimestamp) True False False None None
  ]
  [(''uq_feeds_provider_code_version'', [''provider_id'', ''code'', ''feed_version''], True)]"

definition tbl_dataset_manifests :: table where
  "tbl_dataset_manifests = mk_table ''market_data'' ''dataset_manifests''
  [col ''id'' (TUuid) False True False None (Some ''gen_random_uuid()''),
   col ''feed_id'' (TUuid) False False False (Some ''market_data.feeds.id'') None,
   col ''instrument_id'' (TUuid) True False False (Some ''market_data.instruments.id'') None,
   col ''data_layer'' (TVarchar 40) False False False None None,
   col ''resolution'' (TVarchar 30) False False False None None,
   col ''revision_number'' (TInt) False False False None None,
   col ''status'' (TEnum DATASET_STATUS_LABELS) False False False None None,
   col ''period_start'' (TTimestamp) False False False None None,
   col ''period_end'' (TTimestamp) False False False None None,
   col ''schema_version'' (TVarchar 40) False False False None None,
   col ''dataset_hash'' (TVarchar 128) False False False None None,
   col ''supersedes_manifest_id'' (TUuid) True False False (Some ''market_data.dataset_manifests.id'') None,
   col ''created_at'' (TTimestamp) False False False None (Some ''now()''),
   col ''available_at'' (TTimestamp) True False False None None,
   col ''object_count'' (TBigInt) False False False None (Some ''0'')
  ]
  [(''uq_dataset_manifests_feed_instrument_layer_resolution_start_rev'', [''feed_id'', ''instrument_id'', ''data_layer'', ''resolution'', ''period_start'', ''revision_number''], True),
   (''ix_dataset_manifests_status_period'', [''status'', ''period_start'', ''period_end''], False),
   (''uq_dataset_manifests_dataset_hash'', [''dataset_hash''], True)]"

definition tbl_dataset_objects :: table where
  "tbl_dataset_objects = mk_table ''market_data'' ''dataset_objects''
  [col ''id'' (TUuid) False True False None (Some ''gen_random_uuid()''),
   col ''dataset_manifest_id'' (TUuid) False False False (Some ''market_data.dataset_manifests.id'') None,
   col ''object_id'' (TUuid) False False False (Some ''storage.objects.id'') None,
   col ''object_kind'' (TVarchar 40) False False False None None,
   col ''partition_granularity'' (TEnum PARTITION_GRANULARITY_LABELS) False False False None None,
   col ''partition_start'' (TDate) False False False None None,
   col ''partition_end'' (TDate) False False False None None,
   col ''period_start'' (TTimestamp) False False False None None,
   col ''period_end'' (TTimestamp) False False False None None,
   col ''shard_key'' (TVarchar 120) False False False None None,
   col ''part_number'' (TInt) False False False None None,
   col ''row_count'' (TBigInt) False False False None None,
   col ''min_instrument_id'' (TUuid) True False False None None,
   col ''max_instrument_id'' (TUuid) True False False None None
  ]
  [(''uq_dataset_objects_manifest_kind_granularity_partition_shard_part'', [''dataset_manifest_id'', ''object_kind'', ''partition_granularity'', ''partition_start'', ''partition_end'', ''shard_key'', ''part_number''], True),
   (''ix_dataset_objects_granularity_partition'', [''partition_granularity'', ''partition_start'', ''partition_end''], False),
   (''ix_dataset_objects_manifest_period'', [''dataset_manifest_id'', ''period_start'', ''period_end''], False)]"

definition tbl_dataset_lineage :: table where
  "tbl_dataset_lineage = mk_table ''market_data'' ''dataset_lineage''
  [col ''derived_manifest_id'' (TUuid) False True False (Some ''market_data.dataset_manifests.id'') None,
   col ''source_manifest_id'' (TUuid) False True False (Some ''market_data.dataset_manifests.id'') None,
   col ''relation_type'' (TVarchar 40) False True False None None
  ]
  []"

definition tbl_pipeline_runs :: table where
  "tbl_pipeline_runs = mk_table ''market_data'' ''pipeline_runs''
  [col ''id'' (TUuid) False True False None (Some ''gen_random_uuid()''),
   col ''pipeline_code'' (TVarchar 80) False False False None None,
   col ''pipeline_version'' (TVarchar 40) False False False None None,
   col ''idempotency_key'' (TVarchar 160) False False True None None,
   col ''status'' (TEnum WORK_STATUS_LABELS) False False False None None,
   col ''input_hash'' (TVarchar 128) False False False None None,
   col ''output_hash'' (TVarchar 128) True False False None None,
   col ''started_at'' (TTimestamp) True False False None None,
   col ''completed_at'' (TTimestamp) True False False None None,
   col ''failure_code'' (TVarchar 80) True False False None None
  ]
  [(''ix_pipeline_runs_code_status_started'', [''pipeline_code'', ''status'', ''started_at''], False)]"

definition tbl_dataset_object_lineage :: table where
  "tbl_dataset_object_lineage = mk_table ''market_data'' ''dataset_object_lineage''
  [col ''derived_dataset_object_id'' (TUuid) False True False (Some ''market_data.dataset_objects.id'') None,
   col ''source_dataset_object_id'' (TUuid) False True False (Some ''market_data.dataset_objects.id'') None,
   col ''pipeline_run_id'' (TUuid) False False False (Some ''market_data.pipeline_runs.id'') None,
   col ''relation_type'' (TVarchar 40) False True False None None,
   col ''created_at'' (TTimestamp) False False False None (Some ''now()'')
  ]
  [(''ix_dataset_object_lineage_source'', [''source_dataset_object_id''], False),
   (''ix_dataset_object_lineage_pipeline_run'', [''pipeline_run_id''], False)]"

definition tbl_feature_definitions :: table where
  "tbl_feature_definitions = mk_table ''market_data'' ''feature_definitions''
  [col ''id'' (TUuid) False True False None (Some ''gen_random_uuid()''),
   col ''element_catalog_version_id'' (TUuid) False False False None None,
   col ''feature_code'' (TVarchar 120) False False False None None,
   col ''calculator_version'' (TVarchar 80) False False False None None,
   col ''resolution'' (TVarchar 30) False False False None None,
   col ''normalized_parameters'' (TJsonb) False False False None None,
   col ''output_value_type'' (TVarchar 40) False False False None None,
   col ''required_history_points'' (TInt) False False False None None,
   col ''definition_hash'' (TVarchar 128) False False True None None,
   col ''created_at'' (TTimestamp) False False False None (Some ''now()'')
  ]
  [(''uq_feature_definitions_catalog_code_calculator_resolution_hash'', [''element_catalog_version_id'', ''feature_code'', ''calculator_version'', ''resolution'', ''definition_hash''], True)]"

definition tbl_feature_materializations :: table where
  "tbl_feature_materializations = mk_table ''market_data'' ''feature_materializations''
  [col ''id'' (TUuid) False True False None (Some ''gen_random_uuid()''),
   col ''feature_definition_id'' (TUuid) False False False (Some ''market_data.feature_definitions.id'') None,
   col ''instrument_id'' (TUuid) False False False (Some ''market_data.instruments.id'') None,
   col ''pipeline_run_id'' (TUuid) False False True (Some ''market_data.pipeline_runs.id'') None,
   col ''input_dataset_set_hash'' (TVarchar 128) False False False None None,
   col ''period_start'' (TTimestamp) False False False None None,
   col ''period_end'' (TTimestamp) False False False None None,
   col ''source_watermark'' (TVarchar 300) False False False None None,
   col ''output_dataset_manifest_id'' (TUuid) True False False (Some ''market_data.dataset_manifests.id'') None,
   col ''result_hash'' (TVarchar 128) True False False None None,
   col ''status'' (TEnum WORK_STATUS_LABELS) False False False None None,
   col ''available_at'' (TTimestamp) True False False None None,
   col ''created_at'' (TTimestamp) False False False None (Some ''now()'')
  ]
  [(''uq_feature_materializations_definition_instrument_inputs_period'', [''feature_definition_id'', ''instrument_id'', ''input_dataset_set_hash'', ''period_start'', ''period_end''], True),
   (''ix_feature_materializations_instrument_period_status'', [''instrument_id'', ''period_end'', ''status''], False),
   (''uq_feature_materializations_output_manifest'', [''output_dataset_manifest_id''], True)]"

definition tbl_feature_snapshot_batches :: table where
  "tbl_feature_snapshot_batches = mk_table ''market_data'' ''feature_snapshot_batches''
  [col ''id'' (TUuid) False True False None (Some ''gen_random_uuid()''),
   col ''feature_set_hash'' (TVarchar 128) False False False None None,
   col ''input_market_set_hash'' (TVarchar 128) False False False None None,
   col ''source_start_watermark'' (TVarchar 300) False False False None None,
   col ''source_end_watermark'' (TVarchar 300) False False False None None,
   col ''period_start'' (TTimestamp) False False False None None,
   col ''period_end'' (TTimestamp) False False False None None,
   col ''snapshot_object_id'' (TUuid) True False False (Some ''storage.objects.id'') None,
   col ''batch_hash'' (TVarchar 128) True False False None None,
   col ''row_count'' (TBigInt) True False False None None,
   col ''status'' (TEnum WORK_STATUS_LABELS) False False False None None,
   col ''idempotency_key'' (TVarchar 160) False False True None None,
   col ''available_at'' (TTimestamp) True False False None None,
   col ''created_at'' (TTimestamp) False False False None (Some ''now()'')
  ]
  [(''uq_feature_snapshot_batches_feature_input_period'', [''feature_set_hash'', ''input_market_set_hash'', ''period_start'', ''period_end''], True),
   (''ix_feature_snapshot_batches_status_period_end'', [''status'', ''period_end''], False)]"

definition tbl_corporate_actions :: table where
  "tbl_corporate_actions = mk_table ''market_data'' ''corporate_actions''
  [col ''id'' (TUuid) False True False None (Some ''gen_random_uuid()''),
   col ''instrument_id'' (TUuid) False False False (Some ''market_data.instruments.id'') None,
   col ''source_manifest_id'' (TUuid) False False False (Some ''market_data.dataset_manifests.id'') None,
   col ''provider_event_key'' (TVarchar 160) False False False None None,
   col ''action_type'' (TVarchar 60) False False False None None,
   col ''effective_at'' (TTimestamp) False False False None None,
   col ''terms_document'' (TJsonb) False False False None None,
   col ''terms_hash'' (TVarchar 128) False False False None None,
   col ''supersedes_action_id'' (TUuid) True False False (Some ''market_data.corporate_actions.id'') None,
   col ''created_at'' (TTimestamp) False False False None (Some ''now()'')
  ]
  [(''uq_corporate_actions_source_manifest_event'', [''source_manifest_id'', ''provider_event_key''], True),
   (''ix_corporate_actions_instrument_effective'', [''instrument_id'', ''effective_at''], False)]"

definition tbl_quality_incidents :: table where
  "tbl_quality_incidents = mk_table ''market_data'' ''quality_incidents''
  [col ''id'' (TUuid) False True False None (Some ''gen_random_uuid()''),
   col ''dataset_manifest_id'' (TUuid) True False False (Some ''market_data.dataset_manifests.id'') None,
   col ''instrument_id'' (TUuid) True False False (Some ''market_data.instruments.id'') None,
   col ''severity'' (TVarchar 20) False False False None None,
   col ''incident_code'' (TVarchar 80) False False False None None,
   col ''period_start'' (TTimestamp) False False False None None,
   col ''period_end'' (TTimestamp) True False False None None,
   col ''status'' (TVarchar 30) False False False None None,
   col ''evidence_object_id'' (TUuid) True False False (Some ''storage.objects.id'') None,
   col ''detected_at'' (TTimestamp) False False False None None,
   col ''resolved_at'' (TTimestamp) True False False None None
  ]
  [(''ix_quality_incidents_status_severity_detected'', [''status'', ''severity'', ''detected_at''], False),
   (''ix_quality_incidents_manifest_period'', [''dataset_manifest_id'', ''period_start''], False)]"

definition tbl_stream_watermarks :: table where
  "tbl_stream_watermarks = mk_table ''market_data'' ''stream_watermarks''
  [col ''feed_id'' (TUuid) False True False (Some ''market_data.feeds.id'') None,
   col ''last_source_event_at'' (TTimestamp) False False False None None,
   col ''last_ingested_at'' (TTimestamp) False False False None None,
   col ''last_sequence'' (TBigInt) True False False None None,
   col ''updated_at'' (TTimestamp) False False False None None
  ]
  []"

definition WRITABLE_TABLES :: "table list" where
  "WRITABLE_TABLES = [tbl_providers, tbl_feeds, tbl_instruments, tbl_instrument_symbols, tbl_trading_sessions, tbl_pipeline_runs, tbl_dataset_manifests, tbl_dataset_objects, tbl_dataset_lineage, tbl_dataset_object_lineage, tbl_quality_incidents, tbl_stream_watermarks, tbl_corporate_actions, tbl_feature_definitions, tbl_feature_materializations, tbl_feature_snapshot_batches]"

definition READ_ONLY_TABLES :: "table list" where
  "READ_ONLY_TABLES = [tbl_storage_objects]"

definition TABLES_BY_NAME :: "(string, table) dict" where
  "TABLES_BY_NAME = fold (\<lambda>t. dset (tb_schema t @ ''.'' @ tb_name t) t) (WRITABLE_TABLES @ READ_ONLY_TABLES) []"

text \<open>The columns of a single-column primary key named \<open>id\<close>, and the unique indexes.\<close>

definition primary_key :: "table \<Rightarrow> string list" where
  "primary_key t = map cl_name (filter cl_primary_key (tb_columns t))"

text \<open>The names of the tables, and evaluation rules for lookups.\<close>

lemmas table_defs = tbl_storage_objects_def tbl_instruments_def tbl_instrument_symbols_def tbl_trading_sessions_def tbl_providers_def tbl_feeds_def tbl_dataset_manifests_def tbl_dataset_objects_def tbl_dataset_lineage_def tbl_pipeline_runs_def tbl_dataset_object_lineage_def tbl_feature_definitions_def tbl_feature_materializations_def tbl_feature_snapshot_batches_def tbl_corporate_actions_def tbl_quality_incidents_def tbl_stream_watermarks_def

lemma table_names:
  "tb_schema tbl_storage_objects = ''storage''" "tb_name tbl_storage_objects = ''objects''"
  "tb_schema tbl_instruments = ''market_data''" "tb_name tbl_instruments = ''instruments''"
  "tb_schema tbl_instrument_symbols = ''market_data''" "tb_name tbl_instrument_symbols = ''instrument_symbols''"
  "tb_schema tbl_trading_sessions = ''market_data''" "tb_name tbl_trading_sessions = ''trading_sessions''"
  "tb_schema tbl_providers = ''market_data''" "tb_name tbl_providers = ''providers''"
  "tb_schema tbl_feeds = ''market_data''" "tb_name tbl_feeds = ''feeds''"
  "tb_schema tbl_dataset_manifests = ''market_data''" "tb_name tbl_dataset_manifests = ''dataset_manifests''"
  "tb_schema tbl_dataset_objects = ''market_data''" "tb_name tbl_dataset_objects = ''dataset_objects''"
  "tb_schema tbl_dataset_lineage = ''market_data''" "tb_name tbl_dataset_lineage = ''dataset_lineage''"
  "tb_schema tbl_pipeline_runs = ''market_data''" "tb_name tbl_pipeline_runs = ''pipeline_runs''"
  "tb_schema tbl_dataset_object_lineage = ''market_data''" "tb_name tbl_dataset_object_lineage = ''dataset_object_lineage''"
  "tb_schema tbl_feature_definitions = ''market_data''" "tb_name tbl_feature_definitions = ''feature_definitions''"
  "tb_schema tbl_feature_materializations = ''market_data''" "tb_name tbl_feature_materializations = ''feature_materializations''"
  "tb_schema tbl_feature_snapshot_batches = ''market_data''" "tb_name tbl_feature_snapshot_batches = ''feature_snapshot_batches''"
  "tb_schema tbl_corporate_actions = ''market_data''" "tb_name tbl_corporate_actions = ''corporate_actions''"
  "tb_schema tbl_quality_incidents = ''market_data''" "tb_name tbl_quality_incidents = ''quality_incidents''"
  "tb_schema tbl_stream_watermarks = ''market_data''" "tb_name tbl_stream_watermarks = ''stream_watermarks''"
  by (simp_all add: table_defs mk_table_def)

lemma TABLES_BY_NAME_eq:
  "TABLES_BY_NAME =
     [(''market_data.providers'', tbl_providers),
      (''market_data.feeds'', tbl_feeds),
      (''market_data.instruments'', tbl_instruments),
      (''market_data.instrument_symbols'', tbl_instrument_symbols),
      (''market_data.trading_sessions'', tbl_trading_sessions),
      (''market_data.pipeline_runs'', tbl_pipeline_runs),
      (''market_data.dataset_manifests'', tbl_dataset_manifests),
      (''market_data.dataset_objects'', tbl_dataset_objects),
      (''market_data.dataset_lineage'', tbl_dataset_lineage),
      (''market_data.dataset_object_lineage'', tbl_dataset_object_lineage),
      (''market_data.quality_incidents'', tbl_quality_incidents),
      (''market_data.stream_watermarks'', tbl_stream_watermarks),
      (''market_data.corporate_actions'', tbl_corporate_actions),
      (''market_data.feature_definitions'', tbl_feature_definitions),
      (''market_data.feature_materializations'', tbl_feature_materializations),
      (''market_data.feature_snapshot_batches'', tbl_feature_snapshot_batches),
      (''storage.objects'', tbl_storage_objects)]"
  by (simp add: TABLES_BY_NAME_def WRITABLE_TABLES_def READ_ONLY_TABLES_def table_names)

lemma tables_distinct: "distinct (map fst TABLES_BY_NAME)" "length TABLES_BY_NAME = 17"
  by code_simp+

lemma columns_distinct: "list_all (\<lambda>(_, t). distinct (map cl_name (tb_columns t))) TABLES_BY_NAME"
  by code_simp

end
