(* ===== verification/Codec.thy ===== *)
theory Codec
  imports Tables Contracts
begin

text \<open>
  \<open>market_pipeline_lib/db/codec.py\<close>: the one canonical record shape both catalogs share. A
  value handed to it is a JSON value or one of the Python objects a caller may pass instead of its
  text (\<open>pyobj\<close>); \<open>str_of\<close> is \<open>str\<close> of the values no canonical column holds.
\<close>

datatype pyobj = OVal pyval | OAware instant | ONaive instant | ODate date | OUuid string

type_synonym obj_record = "(string, pyobj) dict"

definition table_for :: "string \<Rightarrow> table res" where
  "table_for name = (case dget TABLES_BY_NAME name of None \<Rightarrow> Inl UnknownCatalogTable | Some t \<Rightarrow> Inr t)"

text \<open>The lookup as a chain of tests, to evaluate one table only.\<close>

lemma table_for_code [code]:
  "table_for name =
     (if name = ''market_data.providers'' then Inr tbl_providers else
      if name = ''market_data.feeds'' then Inr tbl_feeds else
      if name = ''market_data.instruments'' then Inr tbl_instruments else
      if name = ''market_data.instrument_symbols'' then Inr tbl_instrument_symbols else
      if name = ''market_data.trading_sessions'' then Inr tbl_trading_sessions else
      if name = ''market_data.pipeline_runs'' then Inr tbl_pipeline_runs else
      if name = ''market_data.dataset_manifests'' then Inr tbl_dataset_manifests else
      if name = ''market_data.dataset_objects'' then Inr tbl_dataset_objects else
      if name = ''market_data.dataset_lineage'' then Inr tbl_dataset_lineage else
      if name = ''market_data.dataset_object_lineage'' then Inr tbl_dataset_object_lineage else
      if name = ''market_data.quality_incidents'' then Inr tbl_quality_incidents else
      if name = ''market_data.stream_watermarks'' then Inr tbl_stream_watermarks else
      if name = ''market_data.corporate_actions'' then Inr tbl_corporate_actions else
      if name = ''market_data.feature_definitions'' then Inr tbl_feature_definitions else
      if name = ''market_data.feature_materializations'' then Inr tbl_feature_materializations else
      if name = ''market_data.feature_snapshot_batches'' then Inr tbl_feature_snapshot_batches else
      if name = ''storage.objects'' then Inr tbl_storage_objects else
      Inl UnknownCatalogTable)"
  by (simp add: table_for_def TABLES_BY_NAME_eq)

definition column_names :: "table \<Rightarrow> string list" where
  "column_names t = map cl_name (tb_columns t)"

definition canonical_columns :: "string \<Rightarrow> string list res" where
  "canonical_columns name = bindE (table_for name) (\<lambda>t. Inr (column_names t))"

definition check_columns :: "string \<Rightarrow> ('k \<Rightarrow> string) \<Rightarrow> 'k list \<Rightarrow> table res" where
  "check_columns name key ks =
     bindE (table_for name) (\<lambda>t.
       if list_all (\<lambda>k. key k \<in> set (column_names t)) ks then Inr t else Inl UnknownCatalogColumn)"

definition canonical_uuid :: "env \<Rightarrow> pyobj \<Rightarrow> pyval res" where
  "canonical_uuid E v =
     (case v of
        OUuid u \<Rightarrow> Inr (VStr u)
      | OVal (VStr s) \<Rightarrow> (case uuid_parse E s of None \<Rightarrow> Inl ValueError | Some u \<Rightarrow> Inr (VStr u))
      | _ \<Rightarrow> Inl TypeError)"

definition in_calendar :: "instant \<Rightarrow> bool" where
  "in_calendar t \<longleftrightarrow> (1 - epoch_ordinal) * day_micros \<le> t \<and> t < (max_ordinal + 1 - epoch_ordinal) * day_micros"

definition render_utc :: "instant \<Rightarrow> pyval res" where
  "render_utc t = (if in_calendar t then Inr (VStr (iso_utc t)) else Inl OverflowError)"

definition timestamp_text :: "string \<Rightarrow> string" where
  "timestamp_text s =
     (let t = strip s in if endswith t ''Z'' \<or> endswith t ''z'' then butlast t @ ''+00:00'' else t)"

definition canonical_timestamp :: "env \<Rightarrow> pyobj \<Rightarrow> pyval res" where
  "canonical_timestamp E v =
     (case v of
        OAware t \<Rightarrow> render_utc t
      | ONaive t \<Rightarrow> Inl ValueError
      | OVal (VStr s) \<Rightarrow>
          (case fromisoformat E (timestamp_text s) of
             IsoAware t \<Rightarrow> render_utc t
           | _ \<Rightarrow> Inl ValueError)
      | _ \<Rightarrow> Inl TypeError)"

definition canonical_date :: "env \<Rightarrow> pyobj \<Rightarrow> pyval res" where
  "canonical_date E v =
     (case v of
        ODate d \<Rightarrow> Inr (VStr (isoformat_date d))
      | OVal (VStr s) \<Rightarrow>
          (case date_fromisoformat E s of None \<Rightarrow> Inl ValueError | Some d \<Rightarrow> Inr (VStr (isoformat_date d)))
      | _ \<Rightarrow> Inl TypeError)"

definition canonical_int :: "pyobj \<Rightarrow> pyval res" where
  "canonical_int v =
     (case v of
        OVal (VInt n) \<Rightarrow> Inr (VInt n)
      | OVal (VStr s) \<Rightarrow> (case py_int s of None \<Rightarrow> Inl ValueError | Some n \<Rightarrow> Inr (VInt n))
      | _ \<Rightarrow> Inl TypeError)"

definition canonical_bool :: "pyobj \<Rightarrow> pyval res" where
  "canonical_bool v = (case v of OVal (VBool b) \<Rightarrow> Inr (VBool b) | _ \<Rightarrow> Inl TypeError)"

definition canonical_json :: "pyobj \<Rightarrow> pyval res" where
  "canonical_json v =
     (case v of OVal (VMap d) \<Rightarrow> Inr (VMap d) | OVal (VList l) \<Rightarrow> Inr (VList l) | _ \<Rightarrow> Inl TypeError)"

definition canonical_text :: "(pyobj \<Rightarrow> string) \<Rightarrow> pyobj \<Rightarrow> pyval res" where
  "canonical_text str_of v =
     Inr (VStr (case v of OVal (VStr s) \<Rightarrow> s | OUuid u \<Rightarrow> u | OVal (VInt n) \<Rightarrow> int_str n | x \<Rightarrow> str_of x))"

definition to_canonical :: "env \<Rightarrow> (pyobj \<Rightarrow> string) \<Rightarrow> col_type \<Rightarrow> pyobj \<Rightarrow> pyval res" where
  "to_canonical E str_of ty v =
     (if v = OVal VNone then Inr VNone
      else case ty of
          TUuid \<Rightarrow> canonical_uuid E v
        | TTimestamp \<Rightarrow> canonical_timestamp E v
        | TDate \<Rightarrow> canonical_date E v
        | TBool \<Rightarrow> canonical_bool v
        | TJsonb \<Rightarrow> canonical_json v
        | TBigInt \<Rightarrow> canonical_int v
        | TInt \<Rightarrow> canonical_int v
        | _ \<Rightarrow> canonical_text str_of v)"

definition canonical_cell :: "env \<Rightarrow> (pyobj \<Rightarrow> string) \<Rightarrow> obj_record \<Rightarrow> column \<Rightarrow> (string \<times> pyval) res" where
  "canonical_cell E str_of r c =
     (case dget r (cl_name c) of
        None \<Rightarrow> Inl KeyError
      | Some v \<Rightarrow> bindE (to_canonical E str_of (cl_type c) v) (\<lambda>w. Inr (cl_name c, w)))"

definition normalise_record :: "env \<Rightarrow> (pyobj \<Rightarrow> string) \<Rightarrow> string \<Rightarrow> obj_record \<Rightarrow> doc res" where
  "normalise_record E str_of name r =
     bindE (check_columns name fst r) (\<lambda>t.
       mapE (canonical_cell E str_of r) (filter (\<lambda>c. has_key r (cl_name c)) (tb_columns t)))"

text \<open>Bind parameters: UUIDs, instants and dates as objects, everything else as it is.\<close>

definition replace_Z :: "string \<Rightarrow> string" where
  "replace_Z s = concat (map (\<lambda>c. if c = CHR ''Z'' then ''+00:00'' else [c]) s)"

definition to_param :: "env \<Rightarrow> col_type \<Rightarrow> pyval \<Rightarrow> pyobj res" where
  "to_param E ty v =
     (case (ty, v) of
        (TUuid, VStr s) \<Rightarrow> (case uuid_parse E s of None \<Rightarrow> Inl ValueError | Some u \<Rightarrow> Inr (OUuid u))
      | (TTimestamp, VStr s) \<Rightarrow>
          (case fromisoformat E (replace_Z s) of
             IsoInvalid \<Rightarrow> Inl ValueError | IsoNaive t \<Rightarrow> Inr (ONaive t) | IsoAware t \<Rightarrow> Inr (OAware t))
      | (TDate, VStr s) \<Rightarrow> (case date_fromisoformat E s of None \<Rightarrow> Inl ValueError | Some d \<Rightarrow> Inr (ODate d))
      | (_, w) \<Rightarrow> Inr (OVal w))"

definition column_type :: "table \<Rightarrow> string \<Rightarrow> col_type" where
  "column_type t n = (case dget (map (\<lambda>c. (cl_name c, cl_type c)) (tb_columns t)) n of Some ty \<Rightarrow> ty | None \<Rightarrow> TText)"

definition to_db_params :: "env \<Rightarrow> (pyobj \<Rightarrow> string) \<Rightarrow> string \<Rightarrow> obj_record \<Rightarrow> obj_record res" where
  "to_db_params E str_of name r =
     bindE (normalise_record E str_of name r) (\<lambda>canonical.
     bindE (table_for name) (\<lambda>t.
       mapE (\<lambda>(n, v). if v = VNone then Inr (n, OVal VNone)
                      else bindE (to_param E (column_type t n) v) (\<lambda>p. Inr (n, p))) canonical))"

definition from_db_row :: "env \<Rightarrow> (pyobj \<Rightarrow> string) \<Rightarrow> string \<Rightarrow> obj_record \<Rightarrow> doc res" where
  "from_db_row E str_of name row =
     bindE (table_for name) (\<lambda>t. mapE (canonical_cell E str_of row) (tb_columns t))"

section \<open>Texts of instants and dates\<close>

definition digit_char :: "char \<Rightarrow> bool" where
  "digit_char c \<longleftrightarrow> (48::nat) \<le> of_char c \<and> of_char c \<le> (57::nat)"

lemma digit_digit: "d < 10 \<Longrightarrow> digit_char (digit d)"
  by (simp add: digit_char_def digit_def)

lemma digits_of_digits: "c \<in> set (digits_of n) \<Longrightarrow> digit_char c"
proof (induction n rule: digits_of.induct)
  case (1 n)
  then show ?case by (subst (asm) (2) digits_of.simps) (auto split: if_splits simp: digit_digit)
qed

definition date_char :: "char \<Rightarrow> bool" where
  "date_char c \<longleftrightarrow> digit_char c \<or> c \<in> {CHR ''-'', CHR '':'', CHR ''.'', CHR ''T''}"

lemma int_str_chars: "c \<in> set (int_str n) \<Longrightarrow> date_char c"
  by (auto simp: int_str_def date_char_def dest: digits_of_digits split: if_splits)

lemma zero_pad_chars: "c \<in> set (zero_pad w (int_str n)) \<Longrightarrow> date_char c"
  by (auto simp: zero_pad_def date_char_def digit_char_def dest: int_str_chars split: if_splits)

lemma isoformat_date_chars: "c \<in> set (isoformat_date d) \<Longrightarrow> date_char c"
  by (auto simp: isoformat_date_def dest: zero_pad_chars) (auto simp: date_char_def)

definition iso_body :: "instant \<Rightarrow> string" where
  "iso_body t = butlast (iso_utc t)"

lemma iso_utc_split: "iso_utc t = iso_body t @ ''Z''"
  by (simp add: iso_body_def iso_utc_def Let_def butlast_append)

lemma iso_body_chars: "c \<in> set (iso_body t) \<Longrightarrow> date_char c"
  unfolding iso_body_def iso_utc_def Let_def
  by (auto simp: butlast_append dest: zero_pad_chars isoformat_date_chars split: if_splits) (auto simp: date_char_def)

lemma iso_body_nonempty: "iso_body t \<noteq> []"
  by (simp add: iso_body_def iso_utc_def Let_def butlast_append)

lemma date_char_space: "date_char c \<Longrightarrow> \<not> py_isspace c"
  by (auto simp: date_char_def digit_char_def py_isspace_def)

lemma strip_iso_utc: "strip (iso_utc t) = iso_utc t"
proof -
  obtain c cs where b: "iso_body t = c # cs" using iso_body_nonempty by (cases "iso_body t") auto
  then have "\<not> py_isspace c" using iso_body_chars[of c t] date_char_space by simp
  moreover have "\<not> py_isspace (CHR ''Z'')" by code_simp
  ultimately show ?thesis by (simp add: iso_utc_split b strip_def lstrip_def rstrip_def)
qed

lemma timestamp_text_iso: "timestamp_text (iso_utc t) = iso_body t @ ''+00:00''"
  unfolding timestamp_text_def strip_iso_utc Let_def by (simp add: endswith_def iso_utc_split)

lemma replace_Z_iso: "replace_Z (iso_utc t) = iso_body t @ ''+00:00''"
proof -
  have "c \<noteq> CHR ''Z''" if "c \<in> set (iso_body t)" for c
  proof
    assume "c = CHR ''Z''"
    then have "date_char (CHR ''Z'')" using iso_body_chars[OF that] by simp
    moreover have "\<not> date_char (CHR ''Z'')" by code_simp
    ultimately show False by blast
  qed
  then have "map (\<lambda>c. if c = CHR ''Z'' then ''+00:00'' else [c]) (iso_body t) = map (\<lambda>c. [c]) (iso_body t)"
    by simp
  moreover have "concat (map (\<lambda>c. [c]) xs) = xs" for xs :: string by (induction xs) auto
  ultimately have "concat (map (\<lambda>c. if c = CHR ''Z'' then ''+00:00'' else [c]) (iso_body t)) = iso_body t"
    by presburger
  then show ?thesis unfolding replace_Z_def iso_utc_split map_append concat_append by simp
qed

section \<open>Round trips\<close>

text \<open>
  What the codec relies on from the standard library, on the texts it parses: \<open>isoformat\<close> of a
  parsed instant of the calendar, or of a parsed date, parses back to it, and the text of a parsed UUID is itself a UUID text.
\<close>

definition codec_laws :: "env \<Rightarrow> bool" where
  "codec_laws E \<longleftrightarrow>
     (\<forall>s t. fromisoformat E s = IsoAware t \<and> in_calendar t \<longrightarrow> fromisoformat E (iso_body t @ ''+00:00'') = IsoAware t) \<and>
     (\<forall>s d. date_fromisoformat E s = Some d \<longrightarrow> date_fromisoformat E (isoformat_date d) = Some d) \<and>
     (\<forall>s u. uuid_parse E s = Some u \<longrightarrow> uuid_parse E u = Some u)"

definition json_record :: "obj_record \<Rightarrow> bool" where
  "json_record r \<longleftrightarrow> list_all (\<lambda>(_, v). case v of OVal _ \<Rightarrow> True | _ \<Rightarrow> False) r"

definition as_record_of :: "doc \<Rightarrow> obj_record" where
  "as_record_of d = map (\<lambda>(n, v). (n, OVal v)) d"

lemma canonical_stable:
  assumes "codec_laws E" "to_canonical E f ty (OVal v) = Inr w"
  shows "to_canonical E f ty (OVal w) = Inr w"
  using assms
  by (cases ty) (auto simp: to_canonical_def canonical_uuid_def canonical_timestamp_def canonical_date_def
      canonical_int_def canonical_bool_def canonical_json_def canonical_text_def codec_laws_def render_utc_def
      timestamp_text_iso split: pyval.splits option.splits iso_result.splits if_splits)

lemma param_stable:
  assumes "codec_laws E" "to_canonical E f ty (OVal v) = Inr w" "w \<noteq> VNone"
  shows "\<exists>p. to_param E ty w = Inr p \<and> to_canonical E f ty p = Inr w"
  using assms
  by (cases ty) (auto simp: to_canonical_def to_param_def canonical_uuid_def canonical_timestamp_def canonical_date_def
      canonical_int_def canonical_bool_def canonical_json_def canonical_text_def codec_laws_def render_utc_def
      replace_Z_iso split: pyval.splits option.splits iso_result.splits if_splits)

lemma mapE_keys: "mapE (canonical_cell E f r) cs = Inr c \<Longrightarrow> map fst c = map cl_name cs"
  by (induction cs arbitrary: c) (auto simp: canonical_cell_def split: option.splits)

lemma dget_as_record: "dget (as_record_of d) n = map_option OVal (dget d n)"
  by (induction d) (auto simp: as_record_of_def)

lemma mapE_cell_get:
  "mapE (canonical_cell E f r) cs = Inr c \<Longrightarrow> distinct (map cl_name cs) \<Longrightarrow> cl \<in> set cs \<Longrightarrow>
   \<exists>v w. dget r (cl_name cl) = Some v \<and> to_canonical E f (cl_type cl) v = Inr w \<and> dget c (cl_name cl) = Some w"
proof (induction cs arbitrary: c)
  case (Cons a cs)
  from Cons.prems(1) obtain p c' where p: "canonical_cell E f r a = Inr p"
      "mapE (canonical_cell E f r) cs = Inr c'" "c = p # c'"
    by auto
  from p(1) obtain v w where "dget r (cl_name a) = Some v" "to_canonical E f (cl_type a) v = Inr w" "p = (cl_name a, w)"
    by (auto simp: canonical_cell_def split: option.splits)
  note a = this(1,2) p(2) p(3)[unfolded this(3)]
  have IH: "cl \<in> set cs \<Longrightarrow>
      \<exists>v w. dget r (cl_name cl) = Some v \<and> to_canonical E f (cl_type cl) v = Inr w \<and> dget c' (cl_name cl) = Some w"
    using Cons.IH[OF a(3)] Cons.prems(2) by simp
  show ?case
  proof (cases "cl = a")
    case True
    then show ?thesis using a(1,2,4) by simp
  next
    case False
    then have c: "cl \<in> set cs" using Cons.prems(3) by simp
    moreover have "cl_name cl \<noteq> cl_name a" using c Cons.prems(2) by (metis distinct.simps(2) imageI list.simps(9) list.set_map)
    ultimately show ?thesis using IH a(4) by simp
  qed
qed simp

lemma mapE_eq_map: "(\<And>x. x \<in> set xs \<Longrightarrow> f x = Inr (g x)) \<Longrightarrow> mapE f xs = Inr (map g xs)"
  by (induction xs) auto

lemma map_of_self: "distinct (map fst d) \<Longrightarrow> map (\<lambda>n. (n, the (dget d n))) (map fst d) = d"
  by (auto intro!: map_idI)

lemma table_columns_distinct: "table_for name = Inr t \<Longrightarrow> distinct (map cl_name (tb_columns t))"
  using columns_distinct by (auto simp: table_for_def list_all_iff split: option.splits dest!: map_of_SomeD)

text \<open>What a canonical record is: its columns in canonical order, each value canonical.\<close>

lemma normalise_facts:
  assumes "normalise_record E f name r = Inr c"
  obtains t where "table_for name = Inr t"
    "map fst c = map cl_name (filter (\<lambda>c. has_key r (cl_name c)) (tb_columns t))" "distinct (map fst c)"
    "\<And>cl. cl \<in> set (tb_columns t) \<Longrightarrow> has_key r (cl_name cl) \<Longrightarrow>
       \<exists>v w. dget r (cl_name cl) = Some v \<and> to_canonical E f (cl_type cl) v = Inr w \<and> dget c (cl_name cl) = Some w"
proof -
  obtain t where t: "check_columns name fst r = Inr t"
    and m: "mapE (canonical_cell E f r) (filter (\<lambda>c. has_key r (cl_name c)) (tb_columns t)) = Inr c"
    using assms by (auto simp: normalise_record_def)
  have tf: "table_for name = Inr t" using t by (auto simp: check_columns_def split: if_splits)
  have d: "distinct (map cl_name (filter (\<lambda>c. has_key r (cl_name c)) (tb_columns t)))"
    using table_columns_distinct[OF tf] by (simp add: distinct_map_filter)
  show thesis
    by (rule that[OF tf mapE_keys[OF m]]) (use mapE_keys[OF m] d mapE_cell_get[OF m d] in auto)
qed

lemma renormalise:
  assumes laws: "codec_laws E" and n: "normalise_record E f name r = Inr c" and j: "json_record r"
  shows "normalise_record E f name (as_record_of c) = Inr c"
proof -
  obtain t where tf: "table_for name = Inr t"
    and keys: "map fst c = map cl_name (filter (\<lambda>cl. has_key r (cl_name cl)) (tb_columns t))"
    and dist: "distinct (map fst c)"
    and vals: "\<And>cl. cl \<in> set (tb_columns t) \<Longrightarrow> has_key r (cl_name cl) \<Longrightarrow>
       \<exists>v w. dget r (cl_name cl) = Some v \<and> to_canonical E f (cl_type cl) v = Inr w \<and> dget c (cl_name cl) = Some w"
    using normalise_facts[OF n] by metis
  have hk: "has_key (as_record_of c) n \<longleftrightarrow> has_key c n" for n by (simp add: has_key_def dget_as_record)
  have ck: "has_key c n \<longleftrightarrow> (\<exists>cl\<in>set (tb_columns t). cl_name cl = n \<and> has_key r n)" for n
    unfolding has_key_iff[of c] set_map[symmetric] keys by (auto simp: has_key_iff)
  have filt: "filter (\<lambda>cl. has_key (as_record_of c) (cl_name cl)) (tb_columns t) = filter (\<lambda>cl. has_key r (cl_name cl)) (tb_columns t)"
    unfolding hk using ck by (intro filter_cong) auto
  have "check_columns name fst (as_record_of c) = Inr t"
    using tf ck by (force simp: check_columns_def list_all_iff as_record_of_def column_names_def has_key_iff)
  moreover have "mapE (canonical_cell E f (as_record_of c)) (filter (\<lambda>cl. has_key r (cl_name cl)) (tb_columns t)) = Inr c"
  proof -
    have cell: "canonical_cell E f (as_record_of c) cl = Inr (cl_name cl, the (dget c (cl_name cl)))"
      if "cl \<in> set (filter (\<lambda>cl. has_key r (cl_name cl)) (tb_columns t))" for cl
    proof -
      have "cl \<in> set (tb_columns t)" "has_key r (cl_name cl)" using that by simp_all
      then obtain v w where w: "dget r (cl_name cl) = Some v" "to_canonical E f (cl_type cl) v = Inr w"
          "dget c (cl_name cl) = Some w"
        using vals by blast
      obtain v' where "v = OVal v'"
        using j w(1) by (force simp: json_record_def list_all_iff dest!: map_of_SomeD split: pyobj.splits)
      then have "to_canonical E f (cl_type cl) (OVal w) = Inr w" using canonical_stable[OF laws] w(2) by blast
      then show ?thesis using w(3) by (simp add: canonical_cell_def dget_as_record)
    qed
    have "mapE (canonical_cell E f (as_record_of c)) (filter (\<lambda>cl. has_key r (cl_name cl)) (tb_columns t))
        = Inr (map (\<lambda>cl. (cl_name cl, the (dget c (cl_name cl)))) (filter (\<lambda>cl. has_key r (cl_name cl)) (tb_columns t)))"
      by (rule mapE_eq_map[OF cell])
    also have "map (\<lambda>cl. (cl_name cl, the (dget c (cl_name cl)))) (filter (\<lambda>cl. has_key r (cl_name cl)) (tb_columns t))
        = map (\<lambda>n. (n, the (dget c n))) (map fst c)" unfolding keys by (simp add: o_def)
    also have "\<dots> = c" using map_of_self[OF dist] .
    finally show ?thesis .
  qed
  ultimately show ?thesis unfolding normalise_record_def using filt by simp
qed


text \<open>
  The row a database keeps of bind parameters: every column of the table, those not bound NULL;
  and the record of a table padded in the same way.
\<close>

definition stored_row :: "table \<Rightarrow> obj_record \<Rightarrow> obj_record" where
  "stored_row t ps = map (\<lambda>cl. (cl_name cl, case dget ps (cl_name cl) of None \<Rightarrow> OVal VNone | Some p \<Rightarrow> p)) (tb_columns t)"

definition padded :: "table \<Rightarrow> doc \<Rightarrow> doc" where
  "padded t c = map (\<lambda>cl. (cl_name cl, case dget c (cl_name cl) of None \<Rightarrow> VNone | Some w \<Rightarrow> w)) (tb_columns t)"

definition bind_cell :: "env \<Rightarrow> table \<Rightarrow> string \<times> pyval \<Rightarrow> (string \<times> pyobj) res" where
  "bind_cell E t = (\<lambda>(n, v). if v = VNone then Inr (n, OVal VNone)
                             else bindE (to_param E (column_type t n) v) (\<lambda>p. Inr (n, p)))"

lemma to_db_params_alt:
  "to_db_params E f name r =
     bindE (normalise_record E f name r) (\<lambda>c. bindE (table_for name) (\<lambda>t. mapE (bind_cell E t) c))"
  by (simp add: to_db_params_def bind_cell_def)

lemma to_canonical_None [simp]: "to_canonical E f ty (OVal VNone) = Inr VNone"
  by (simp add: to_canonical_def)

lemma column_type_of:
  "distinct (map cl_name (tb_columns t)) \<Longrightarrow> cl \<in> set (tb_columns t) \<Longrightarrow> column_type t (cl_name cl) = cl_type cl"
  unfolding column_type_def by (subst map_of_is_SomeI) (auto simp: o_def intro!: image_eqI[where x = cl])

lemma mapE_bind_get:
  "mapE (bind_cell E t) c = Inr ps \<Longrightarrow> distinct (map fst c) \<Longrightarrow>
   (case dget c n of None \<Rightarrow> dget ps n = None | Some w \<Rightarrow> \<exists>p. bind_cell E t (n, w) = Inr (n, p) \<and> dget ps n = Some p)"
proof (induction c arbitrary: ps)
  case (Cons a c)
  obtain k v where a: "a = (k, v)" by (cases a)
  from Cons.prems(1) obtain q ps' where q: "bind_cell E t (k, v) = Inr q" "mapE (bind_cell E t) c = Inr ps'" "ps = q # ps'"
    unfolding a by auto
  from q(1) obtain p where p: "q = (k, p)" by (auto simp: bind_cell_def split: if_splits)
  show ?case
  proof (cases "n = k")
    case True
    then show ?thesis using q(1,3) p a by simp
  next
    case False
    then show ?thesis using Cons.IH[OF q(2)] Cons.prems(2) q(3) p a by (cases "dget c n") simp_all
  qed
qed simp

lemma written_cell_reads_back:
  assumes laws: "codec_laws E" and v: "to_canonical E f ty (OVal v) = Inr w"
  shows "\<exists>p. (if w = VNone then Inr (OVal VNone) else to_param E ty w) = Inr p \<and> to_canonical E f ty p = Inr w"
  using param_stable[OF laws v] by (cases "w = VNone") auto

lemma table_cells:
  assumes "normalise_record E f name r = Inr c" and j: "json_record r" and t: "table_for name = Inr t"
    and cl: "cl \<in> set (tb_columns t)" and w: "dget c (cl_name cl) = Some w"
  shows "\<exists>v. to_canonical E f (cl_type cl) (OVal v) = Inr w"
proof -
  obtain t' where t': "table_for name = Inr t'"
    and keys: "map fst c = map cl_name (filter (\<lambda>cl. has_key r (cl_name cl)) (tb_columns t'))"
    and vals: "\<And>cl. cl \<in> set (tb_columns t') \<Longrightarrow> has_key r (cl_name cl) \<Longrightarrow>
       \<exists>v w. dget r (cl_name cl) = Some v \<and> to_canonical E f (cl_type cl) v = Inr w \<and> dget c (cl_name cl) = Some w"
    using normalise_facts[OF assms(1)] by metis
  have "cl_name cl \<in> set (map fst c)" using w by (force dest: map_of_SomeD)
  then have "has_key r (cl_name cl)" unfolding keys by auto
  then obtain v where v: "dget r (cl_name cl) = Some v" "to_canonical E f (cl_type cl) v = Inr w"
    using vals[of cl] cl t t' w by auto
  have "(cl_name cl, v) \<in> set r" using v(1) by (rule map_of_SomeD)
  then obtain x where "v = OVal x"
    using j by (auto simp: json_record_def list_all_iff split: pyobj.splits)
  then show ?thesis using v(2) by blast
qed




definition codec_env :: env where
  "codec_env = demo_env\<lparr>fromisoformat := (\<lambda>s. if s = ''1970-01-01T00:00:00+00:00'' then IsoAware 0 else IsoInvalid)\<rparr>"

definition codec_row :: obj_record where
  "codec_row = [(''updated_at'', OVal (VStr '' 1970-01-01T00:00:00z'')), (''feed_id'', OVal (VStr ''abc'')),
     (''last_sequence'', OVal VNone)]"

definition codec_canonical :: doc where
  "codec_canonical = [(''feed_id'', VStr ''ABC''), (''last_sequence'', VNone),
     (''updated_at'', VStr ''1970-01-01T00:00:00Z'')]"

definition no_str :: "pyobj \<Rightarrow> string" where
  "no_str _ = []"

lemma codec_env_laws: "codec_laws codec_env"
proof -
  have "iso_body 0 @ ''+00:00'' = ''1970-01-01T00:00:00+00:00''" by code_simp
  then show ?thesis
    by (auto simp: codec_laws_def codec_env_def demo_env_def ascii_upper_idem split: if_splits)
qed


text \<open>Canonical records are fixed points: a record the local catalog has written is accepted
  again unchanged, so reading a row and writing it back never alters it.\<close>

theorem normalise_idempotent:
  assumes "codec_laws E" "json_record r" "normalise_record E f name r = Inr c"
  shows "normalise_record E f name (as_record_of c) = Inr c"
  by (rule renormalise[OF assms(1,3,2)])

theorem normalise_idempotent_witness:
  "normalise_record codec_env no_str ''market_data.stream_watermarks'' (as_record_of codec_canonical) = Inr codec_canonical"
proof -
  have j: "json_record codec_row" by code_simp
  have n: "normalise_record codec_env no_str ''market_data.stream_watermarks'' codec_row = Inr codec_canonical"
    by code_simp
  show ?thesis by (rule normalise_idempotent[OF codec_env_laws j n])
qed

end
