(* ===== verification/Catalog.thy ===== *)
theory Catalog
  imports Codec "HOL-Library.Sublist" "HOL-Library.Multiset"
begin

text \<open>
  \<open>market_pipeline_lib/catalog.py\<close>: the catalog boundary and its local implementation
  \<open>LocalCatalog\<close>, one JSONL file per canonical table. A file is the list of the JSON objects
  of its lines; writing one sorts the keys of every object (\<open>json.dumps(sort_keys=True)\<close>) and
  refuses a \<open>Decimal\<close>. The directory is a dictionary from file names to files.
\<close>

definition TABLE_FILES :: "(string, string) dict" where
  "TABLE_FILES =
     [(''market_data.providers'', ''providers.jsonl''),
      (''market_data.feeds'', ''feeds.jsonl''),
      (''market_data.pipeline_runs'', ''pipeline-runs.jsonl''),
      (''market_data.dataset_manifests'', ''dataset-manifests.jsonl''),
      (''storage.objects'', ''storage-objects.jsonl''),
      (''market_data.dataset_objects'', ''dataset-objects.jsonl''),
      (''market_data.dataset_lineage'', ''dataset-lineage.jsonl''),
      (''market_data.dataset_object_lineage'', ''dataset-object-lineage.jsonl''),
      (''market_data.quality_incidents'', ''quality-incidents.jsonl'')]"

definition after_dot :: "string \<Rightarrow> string" where
  "after_dot s = tl (dropWhile (\<lambda>c. c \<noteq> CHR ''.'') s)"

definition dashes :: "string \<Rightarrow> string" where
  "dashes s = map (\<lambda>c. if c = CHR ''_'' then CHR ''-'' else c) s"

definition LOCAL_TABLE_FILES :: "(string, string) dict" where
  "LOCAL_TABLE_FILES =
     TABLE_FILES @ map (\<lambda>name. (name, dashes (after_dot name) @ ''.jsonl''))
       (filter (\<lambda>name. \<not> has_key TABLE_FILES name) (sort (map fst TABLES_BY_NAME)))"

definition ID_TABLES :: "string list" where
  "ID_TABLES = map fst (filter (\<lambda>(_, t). primary_key t = [''id'']) TABLES_BY_NAME)"

definition PIPELINE_OUTPUT_SIDECAR :: string where
  "PIPELINE_OUTPUT_SIDECAR = ''pipeline-run-outputs.local.jsonl''"

definition NATURAL_KEYS :: "(string, string list) dict" where
  "NATURAL_KEYS = [(''market_data.corporate_actions'', [''source_manifest_id'', ''provider_event_key''])]"

definition all_paths :: "string list" where
  "all_paths = map snd LOCAL_TABLE_FILES @ [PIPELINE_OUTPUT_SIDECAR]"

text \<open>The two tables written out, for evaluation.\<close>

lemma LOCAL_TABLE_FILES_code [code]:
  "LOCAL_TABLE_FILES =
     [(''market_data.providers'', ''providers.jsonl''),
      (''market_data.feeds'', ''feeds.jsonl''),
      (''market_data.pipeline_runs'', ''pipeline-runs.jsonl''),
      (''market_data.dataset_manifests'', ''dataset-manifests.jsonl''),
      (''storage.objects'', ''storage-objects.jsonl''),
      (''market_data.dataset_objects'', ''dataset-objects.jsonl''),
      (''market_data.dataset_lineage'', ''dataset-lineage.jsonl''),
      (''market_data.dataset_object_lineage'', ''dataset-object-lineage.jsonl''),
      (''market_data.quality_incidents'', ''quality-incidents.jsonl''),
      (''market_data.corporate_actions'', ''corporate-actions.jsonl''),
      (''market_data.feature_definitions'', ''feature-definitions.jsonl''),
      (''market_data.feature_materializations'', ''feature-materializations.jsonl''),
      (''market_data.feature_snapshot_batches'', ''feature-snapshot-batches.jsonl''),
      (''market_data.instrument_symbols'', ''instrument-symbols.jsonl''),
      (''market_data.instruments'', ''instruments.jsonl''),
      (''market_data.stream_watermarks'', ''stream-watermarks.jsonl''),
      (''market_data.trading_sessions'', ''trading-sessions.jsonl'')]"
  by code_simp

lemma ID_TABLES_code [code]:
  "ID_TABLES =
     [''market_data.providers'',
      ''market_data.feeds'',
      ''market_data.instruments'',
      ''market_data.instrument_symbols'',
      ''market_data.trading_sessions'',
      ''market_data.pipeline_runs'',
      ''market_data.dataset_manifests'',
      ''market_data.dataset_objects'',
      ''market_data.quality_incidents'',
      ''market_data.corporate_actions'',
      ''market_data.feature_definitions'',
      ''market_data.feature_materializations'',
      ''market_data.feature_snapshot_batches'',
      ''storage.objects'']"
  by code_simp

section \<open>JSON values in a file\<close>

text \<open>\<open>str(v)\<close> of a catalog value, \<open>str_of\<close> for the containers and numbers no key column holds.\<close>

definition py_str :: "(pyobj \<Rightarrow> string) \<Rightarrow> pyval \<Rightarrow> string" where
  "py_str str_of v =
     (case v of VStr s \<Rightarrow> s | VNone \<Rightarrow> ''None'' | VInt n \<Rightarrow> int_str n | x \<Rightarrow> str_of (OVal x))"

primrec sort_value :: "pyval \<Rightarrow> pyval" where
  "sort_value VNone = VNone"
| "sort_value (VBool b) = VBool b"
| "sort_value (VInt n) = VInt n"
| "sort_value (VFloat r) = VFloat r"
| "sort_value (VDec r) = VDec r"
| "sort_value (VStr s) = VStr s"
| "sort_value (VList l) = VList (map sort_value l)"
| "sort_value (VMap d) = VMap (sort_key fst (map (map_prod id sort_value) d))"

primrec dumpable :: "pyval \<Rightarrow> bool" where
  "dumpable VNone = True"
| "dumpable (VBool b) = True"
| "dumpable (VInt n) = True"
| "dumpable (VFloat r) = True"
| "dumpable (VDec r) = False"
| "dumpable (VStr s) = True"
| "dumpable (VList l) = list_all id (map dumpable l)"
| "dumpable (VMap d) = list_all id (map snd (map (map_prod id dumpable) d))"

definition json_row :: "doc \<Rightarrow> doc" where
  "json_row r = sort_key fst (map (map_prod id sort_value) r)"

text \<open>Python's \<open>==\<close>: key order does not matter, and numbers compare by value.\<close>

primrec plain_value :: "pyval \<Rightarrow> pyval" where
  "plain_value VNone = VNone"
| "plain_value (VBool b) = VFloat (if b then 1 else 0)"
| "plain_value (VInt n) = VFloat (of_int n)"
| "plain_value (VFloat r) = VFloat r"
| "plain_value (VDec r) = VFloat r"
| "plain_value (VStr s) = VStr s"
| "plain_value (VList l) = VList (map plain_value l)"
| "plain_value (VMap d) = VMap (sort_key fst (map (map_prod id plain_value) d))"

definition py_eq :: "pyval \<Rightarrow> pyval \<Rightarrow> bool" where
  "py_eq v w \<longleftrightarrow> plain_value v = plain_value w"

definition dget_none :: "doc \<Rightarrow> string \<Rightarrow> pyval" where
  "dget_none r k = (case dget r k of None \<Rightarrow> VNone | Some v \<Rightarrow> v)"

definition get_item :: "doc \<Rightarrow> string \<Rightarrow> pyval res" where
  "get_item r k = (case dget r k of None \<Rightarrow> Inl KeyError | Some v \<Rightarrow> Inr v)"

section \<open>The local catalog\<close>

type_synonym avail_key = "string \<times> string option \<times> string \<times> string \<times> int"

record local_catalog =
  lc_files :: "(string, doc list) dict"
  lc_snapshot :: "(string \<times> doc list option) list option"
  lc_touched :: "avail_key list"
  lc_summary :: "doc option"

definition new_catalog :: local_catalog where
  "new_catalog = \<lparr>lc_files = [], lc_snapshot = None, lc_touched = [], lc_summary = None\<rparr>"

definition availability_key :: "(pyobj \<Rightarrow> string) \<Rightarrow> doc \<Rightarrow> avail_key res" where
  "availability_key str_of r =
     bindE (get_item r ''feed_id'') (\<lambda>feed.
     bindE (get_item r ''data_layer'') (\<lambda>layer.
     bindE (get_item r ''resolution'') (\<lambda>res.
     bindE (get_item r ''period_start'') (\<lambda>start.
       case py_int (take 4 (py_str str_of start)) of
         None \<Rightarrow> Inl ValueError
       | Some year \<Rightarrow>
           Inr (py_str str_of feed,
                (case dget_none r ''instrument_id'' of VNone \<Rightarrow> None | v \<Rightarrow> Some (py_str str_of v)),
                py_str str_of layer, py_str str_of res, year)))))"

definition canonical_filter :: "env \<Rightarrow> (pyobj \<Rightarrow> string) \<Rightarrow> string \<Rightarrow> obj_record \<Rightarrow> doc res" where
  "canonical_filter E str_of t w = (if w = [] then Inr [] else normalise_record E str_of t w)"

definition path_of :: "string \<Rightarrow> string res" where
  "path_of t = bindE (table_for t) (\<lambda>_. case dget LOCAL_TABLE_FILES t of None \<Rightarrow> Inl KeyError | Some p \<Rightarrow> Inr p)"

definition row_id :: "(pyobj \<Rightarrow> string) \<Rightarrow> doc \<Rightarrow> string res" where
  "row_id str_of r = bindE (get_item r ''id'') (\<lambda>v. Inr (py_str str_of v))"

text \<open>\<open>{key(row): row for row in rows}\<close>: the last row of a key, at the place of its first.\<close>

definition build_dict :: "'k list \<Rightarrow> 'v list \<Rightarrow> ('k, 'v) dict" where
  "build_dict ks vs = fold (\<lambda>(k, v). dset k v) (zip ks vs) []"

definition rows_by_id :: "(pyobj \<Rightarrow> string) \<Rightarrow> doc list \<Rightarrow> (string, doc) dict res" where
  "rows_by_id str_of rows = bindE (mapE (row_id str_of) rows) (\<lambda>ids. Inr (build_dict ids rows))"

definition latest_rows :: "(pyobj \<Rightarrow> string) \<Rightarrow> doc list \<Rightarrow> doc list res" where
  "latest_rows str_of rows = bindE (rows_by_id str_of rows) (\<lambda>d. Inr (map snd d))"

definition row_matches :: "doc \<Rightarrow> doc \<Rightarrow> bool" where
  "row_matches criteria r = list_all (\<lambda>(name, v). py_eq (dget_none r name) v) criteria"

definition records :: "env \<Rightarrow> (pyobj \<Rightarrow> string) \<Rightarrow> local_catalog \<Rightarrow> string \<Rightarrow> obj_record \<Rightarrow> doc list res" where
  "records E str_of c t wh =
     bindE (path_of t) (\<lambda>p.
     bindE (canonical_filter E str_of t wh) (\<lambda>criteria.
       case dget (lc_files c) p of
         None \<Rightarrow> Inr []
       | Some rows \<Rightarrow>
           bindE (if t \<in> set ID_TABLES then latest_rows str_of rows else Inr rows) (\<lambda>rows.
             Inr (filter (row_matches criteria) rows))))"

definition write_rows :: "string \<Rightarrow> doc list \<Rightarrow> local_catalog \<Rightarrow> unit res \<times> local_catalog" where
  "write_rows t rows c =
     (case path_of t of
        Inl e \<Rightarrow> (Inl e, c)
      | Inr p \<Rightarrow>
          if list_all (list_all (\<lambda>(_, v). dumpable v)) rows
          then (Inr (), c\<lparr>lc_files := dset p (map json_row rows) (lc_files c)\<rparr>)
          else (Inl TypeError, c))"

text \<open>The rows an upsert leaves, by natural key (the stored \<open>id\<close> is kept) or by \<open>id\<close>.\<close>

definition key_values :: "string list \<Rightarrow> doc \<Rightarrow> pyval list" where
  "key_values ks r = map (dget_none r) ks"

definition same_key :: "string list \<Rightarrow> doc \<Rightarrow> doc \<Rightarrow> bool" where
  "same_key ks r q \<longleftrightarrow> list_all2 py_eq (key_values ks r) (key_values ks q)"

definition merge_natural :: "string list \<Rightarrow> doc \<Rightarrow> doc list \<Rightarrow> doc list res" where
  "merge_natural ks canonical rows =
     bindE (mapE (\<lambda>r. if same_key ks r canonical
                      then bindE (get_item r ''id'') (\<lambda>i. Inr (dset ''id'' i canonical)) else Inr r) rows) (\<lambda>merged.
       Inr (if list_ex (\<lambda>r. same_key ks r canonical) rows then merged else merged @ [canonical]))"

definition merge_id :: "(pyobj \<Rightarrow> string) \<Rightarrow> doc \<Rightarrow> doc list \<Rightarrow> doc list res" where
  "merge_id str_of canonical rows =
     bindE (rows_by_id str_of rows) (\<lambda>by_id.
     bindE (row_id str_of canonical) (\<lambda>k. Inr (map snd (dset k canonical by_id))))"

definition upsert_rows :: "(pyobj \<Rightarrow> string) \<Rightarrow> string \<Rightarrow> doc \<Rightarrow> doc list \<Rightarrow> doc list res" where
  "upsert_rows str_of t canonical rows =
     (case dget NATURAL_KEYS t of
        Some ks \<Rightarrow>
          if list_all (has_key canonical) ks then merge_natural ks canonical rows else Inl ValueError
      | None \<Rightarrow> merge_id str_of canonical rows)"

definition upsert :: "env \<Rightarrow> (pyobj \<Rightarrow> string) \<Rightarrow> string \<Rightarrow> obj_record \<Rightarrow> local_catalog \<Rightarrow> unit res \<times> local_catalog" where
  "upsert E str_of t record c =
     (if t \<notin> set ID_TABLES then (Inl ValueError, c)
      else case bindE (normalise_record E str_of t record) (\<lambda>canonical.
                bindE (records E str_of c t []) (upsert_rows str_of t canonical)) of
             Inl e \<Rightarrow> (Inl e, c)
           | Inr rows \<Rightarrow> write_rows t rows c)"

definition append_unique ::
  "env \<Rightarrow> (pyobj \<Rightarrow> string) \<Rightarrow> string \<Rightarrow> obj_record \<Rightarrow> string list \<Rightarrow> local_catalog \<Rightarrow> unit res \<times> local_catalog" where
  "append_unique E str_of t record keys c =
     (case bindE (normalise_record E str_of t record) (\<lambda>canonical.
           bindE (records E str_of c t []) (\<lambda>rows. Inr (canonical, rows))) of
        Inl e \<Rightarrow> (Inl e, c)
      | Inr (canonical, rows) \<Rightarrow>
          if list_ex (\<lambda>r. same_key keys r canonical) rows then (Inr (), c)
          else write_rows t (rows @ [canonical]) c)"

section \<open>The unit of work\<close>

definition snapshot_of :: "local_catalog \<Rightarrow> (string \<times> doc list option) list" where
  "snapshot_of c = map (\<lambda>p. (p, dget (lc_files c) p)) all_paths"

definition restore :: "(string \<times> doc list option) list \<Rightarrow> (string, doc list) dict \<Rightarrow> (string, doc list) dict" where
  "restore snap files =
     fold (\<lambda>(p, payload) fs. case payload of None \<Rightarrow> dpop p fs | Some rows \<Rightarrow> dset p rows fs) snap files"

definition available_rows :: "doc list \<Rightarrow> doc list res" where
  "available_rows rows =
     bindE (mapE (\<lambda>r. bindE (get_item r ''status'') (\<lambda>s. Inr (r, py_eq s (VStr ''AVAILABLE'')))) rows) (\<lambda>ps.
       Inr (map fst (filter snd ps)))"

text \<open>
  \<open>sorted(self._touched)\<close> compares two keys of one feed by their instrument when these differ, and
  \<open>None\<close> does not compare with a string: exactly then two neighbours of the order raise.
\<close>

definition sortable :: "avail_key list \<Rightarrow> bool" where
  "sortable ks \<longleftrightarrow>
     list_all (\<lambda>(f, i, _). list_all (\<lambda>(f', i', _). f = f' \<longrightarrow> (i = None \<longleftrightarrow> i' = None)) ks) ks"

definition assert_single :: "env \<Rightarrow> (pyobj \<Rightarrow> string) \<Rightarrow> local_catalog \<Rightarrow> unit res" where
  "assert_single E str_of c =
     bindE (records E str_of c ''market_data.dataset_manifests'' []) (\<lambda>rows.
     bindE (available_rows rows) (\<lambda>available.
     bindE (mapE (\<lambda>r. bindE (availability_key str_of r) (\<lambda>k. bindE (row_id str_of r) (\<lambda>_. Inr k))) available) (\<lambda>keys.
     bindE (guardE (sortable (lc_touched c)) TypeError) (\<lambda>_.
       guardE (list_all (\<lambda>k. length (filter (\<lambda>k'. k' = k) keys) \<le> 1) (lc_touched c)) DuplicateAvailableManifest))))"

text \<open>The \<open>with catalog.transaction():\<close> block around a body that may raise.\<close>

definition transaction ::
  "env \<Rightarrow> (pyobj \<Rightarrow> string) \<Rightarrow> (local_catalog \<Rightarrow> 'r res \<times> local_catalog) \<Rightarrow> local_catalog \<Rightarrow> 'r res \<times> local_catalog" where
  "transaction E str_of body c =
     (if lc_snapshot c \<noteq> None then (Inl RuntimeError, c)
      else
        let snap = snapshot_of c;
            (r, c1) = body (c\<lparr>lc_snapshot := Some snap, lc_touched := []\<rparr>);
            result = bindE r (\<lambda>x. bindE (assert_single E str_of c1) (\<lambda>_. Inr x));
            files = (case result of Inl _ \<Rightarrow> restore snap (lc_files c1) | Inr _ \<Rightarrow> lc_files c1)
        in (result, c1\<lparr>lc_files := files, lc_snapshot := None, lc_touched := []\<rparr>))"

definition supports :: "string \<Rightarrow> bool" where
  "supports capability \<longleftrightarrow> capability = ''PIPELINE_RUN_OUTPUTS''"

section \<open>Pipeline runs, objects, manifests, lineage\<close>

definition begin_pipeline_run where
  "begin_pipeline_run E str_of record c = upsert E str_of ''market_data.pipeline_runs'' record c"

definition pipeline_run :: "env \<Rightarrow> (pyobj \<Rightarrow> string) \<Rightarrow> local_catalog \<Rightarrow> string \<Rightarrow> doc option res" where
  "pipeline_run E str_of c run_id =
     bindE (records E str_of c ''market_data.pipeline_runs'' []) (\<lambda>rows.
       Inr (find (\<lambda>r. py_eq (dget_none r ''id'') (VStr run_id)) rows))"

definition opt_str :: "string option \<Rightarrow> pyval" where
  "opt_str s = (case s of None \<Rightarrow> VNone | Some x \<Rightarrow> VStr x)"

definition finished_record :: "doc \<Rightarrow> string \<Rightarrow> string option \<Rightarrow> string option \<Rightarrow> instant \<Rightarrow> doc" where
  "finished_record existing status output_hash failure_code now =
     dset ''failure_code'' (opt_str failure_code) (dset ''completed_at'' (VStr (iso_body now @ ''+00:00''))
       (dset ''output_hash'' (opt_str output_hash) (dset ''status'' (VStr status) existing)))"

definition finish_pipeline_run ::
  "env \<Rightarrow> (pyobj \<Rightarrow> string) \<Rightarrow> instant \<Rightarrow> string \<Rightarrow> string \<Rightarrow> string option \<Rightarrow> string option \<Rightarrow> local_catalog
    \<Rightarrow> unit res \<times> local_catalog" where
  "finish_pipeline_run E str_of now run_id status output_hash failure_code c =
     (case pipeline_run E str_of c run_id of
        Inl e \<Rightarrow> (Inl e, c)
      | Inr None \<Rightarrow> (Inl PipelineRunNotFound, c)
      | Inr (Some existing) \<Rightarrow>
          upsert E str_of ''market_data.pipeline_runs''
            (as_record_of (finished_record existing status output_hash failure_code now)) c)"

definition andthen :: "unit res \<times> 's \<Rightarrow> ('s \<Rightarrow> unit res \<times> 's) \<Rightarrow> unit res \<times> 's" where
  "andthen p g = (case p of (Inl e, s) \<Rightarrow> (Inl e, s) | (Inr _, s) \<Rightarrow> g s)"

definition stage_object where
  "stage_object E str_of storage_record dataset_object_record c =
     andthen (upsert E str_of ''storage.objects'' storage_record c)
       (upsert E str_of ''market_data.dataset_objects'' dataset_object_record)"

definition publish_manifest :: "env \<Rightarrow> (pyobj \<Rightarrow> string) \<Rightarrow> obj_record \<Rightarrow> local_catalog \<Rightarrow> unit res \<times> local_catalog" where
  "publish_manifest E str_of record c =
     (case normalise_record E str_of ''market_data.dataset_manifests'' record of
        Inl e \<Rightarrow> (Inl e, c)
      | Inr canonical \<Rightarrow>
          if lc_snapshot c = None
          then upsert E str_of ''market_data.dataset_manifests'' (as_record_of canonical) c
          else (case availability_key str_of canonical of
                  Inl e \<Rightarrow> (Inl e, c)
                | Inr k \<Rightarrow> upsert E str_of ''market_data.dataset_manifests'' (as_record_of canonical)
                             (c\<lparr>lc_touched := List.insert k (lc_touched c)\<rparr>)))"

definition record_dataset_lineage where
  "record_dataset_lineage E str_of record c =
     append_unique E str_of ''market_data.dataset_lineage'' record
       [''derived_manifest_id'', ''source_manifest_id'', ''relation_type''] c"

definition record_object_lineage where
  "record_object_lineage E str_of record c =
     append_unique E str_of ''market_data.dataset_object_lineage'' record
       [''derived_dataset_object_id'', ''source_dataset_object_id'', ''relation_type''] c"

definition record_quality_incident where
  "record_quality_incident E str_of record c = upsert E str_of ''market_data.quality_incidents'' record c"

section \<open>Queries of the engine\<close>

definition item_is :: "doc \<Rightarrow> string \<Rightarrow> string \<Rightarrow> bool res" where
  "item_is r k s = bindE (get_item r k) (\<lambda>v. Inr (py_eq v (VStr s)))"

fun all_of :: "bool res list \<Rightarrow> bool res" where
  "all_of [] = Inr True"
| "all_of (b # bs) = bindE b (\<lambda>x. if x then all_of bs else Inr False)"

fun filterE :: "('a \<Rightarrow> bool res) \<Rightarrow> 'a list \<Rightarrow> 'a list res" where
  "filterE P [] = Inr []"
| "filterE P (x # xs) = bindE (P x) (\<lambda>b. bindE (filterE P xs) (\<lambda>ys. Inr (if b then x # ys else ys)))"

definition manifest_matches ::
  "(pyobj \<Rightarrow> string) \<Rightarrow> string \<Rightarrow> string \<Rightarrow> string \<Rightarrow> int \<Rightarrow> string option \<Rightarrow> doc \<Rightarrow> bool res" where
  "manifest_matches str_of feed layer res year instrument r =
     all_of [item_is r ''feed_id'' feed, item_is r ''data_layer'' layer, item_is r ''resolution'' res,
       item_is r ''status'' ''AVAILABLE'',
       bindE (get_item r ''period_start'') (\<lambda>v. Inr (prefix (int_str year) (py_str str_of v))),
       Inr (case instrument of None \<Rightarrow> True | Some i \<Rightarrow> py_eq (dget_none r ''instrument_id'') (VStr i))]"

text \<open>\<open>max(..., key=revision_number)\<close>: the first of the greatest; \<open>None\<close> does not compare.\<close>

definition revision_of :: "doc \<Rightarrow> int" where
  "revision_of r = (case dget r ''revision_number'' of Some (VInt n) \<Rightarrow> n | _ \<Rightarrow> 0)"

definition max_revision :: "doc list \<Rightarrow> doc option res" where
  "max_revision rows =
     bindE (mapE (\<lambda>r. get_item r ''revision_number'') rows) (\<lambda>vs.
       case rows of
         [] \<Rightarrow> Inr None
       | r # rs \<Rightarrow>
           if rs = [] \<or> list_all (\<lambda>v. case v of VInt _ \<Rightarrow> True | _ \<Rightarrow> False) vs
           then Inr (Some (max_by revision_of r rs)) else Inl TypeError)"

definition latest_available_manifest ::
  "env \<Rightarrow> (pyobj \<Rightarrow> string) \<Rightarrow> local_catalog \<Rightarrow> string \<Rightarrow> string \<Rightarrow> string \<Rightarrow> int \<Rightarrow> string option \<Rightarrow> doc option res" where
  "latest_available_manifest E str_of c feed layer res year instrument =
     bindE (records E str_of c ''market_data.dataset_manifests'' []) (\<lambda>rows.
     bindE (filterE (manifest_matches str_of feed layer res year instrument) rows) max_revision)"

definition key_of :: "doc \<Rightarrow> string \<Rightarrow> pyval res" where
  "key_of r k = bindE (get_item r k) (\<lambda>v. Inr (plain_value v))"

definition join_storage :: "(pyval, doc) dict \<Rightarrow> doc \<Rightarrow> doc res" where
  "join_storage storage relation =
     bindE (key_of relation ''object_id'') (\<lambda>k.
       case dget storage k of None \<Rightarrow> Inl KeyError | Some s \<Rightarrow> Inr (dset ''storage'' (VMap s) relation))"

definition sort_id :: "(pyobj \<Rightarrow> string) \<Rightarrow> doc \<Rightarrow> string" where
  "sort_id str_of r = py_str str_of (dget_none r ''id'')"

definition objects_for_manifest :: "env \<Rightarrow> (pyobj \<Rightarrow> string) \<Rightarrow> local_catalog \<Rightarrow> string \<Rightarrow> doc list res" where
  "objects_for_manifest E str_of c manifest_id =
     bindE (records E str_of c ''storage.objects'' []) (\<lambda>stored.
     bindE (mapE (\<lambda>r. key_of r ''id'') stored) (\<lambda>ids.
     bindE (records E str_of c ''market_data.dataset_objects'' []) (\<lambda>relations.
     bindE (filterE (\<lambda>r. item_is r ''dataset_manifest_id'' manifest_id) relations) (\<lambda>mine.
     bindE (mapE (join_storage (build_dict ids stored)) mine) (\<lambda>joined.
       Inr (sort_key (sort_id str_of) joined))))))"

section \<open>Artifacts\<close>

definition write_summary :: "doc \<Rightarrow> local_catalog \<Rightarrow> unit res \<times> local_catalog" where
  "write_summary payload c =
     (if list_all (\<lambda>(_, v). dumpable v) payload then (Inr (), c\<lparr>lc_summary := Some payload\<rparr>) else (Inl TypeError, c))"

definition pipeline_outputs :: "local_catalog \<Rightarrow> doc list" where
  "pipeline_outputs c = (case dget (lc_files c) PIPELINE_OUTPUT_SIDECAR of None \<Rightarrow> [] | Some rows \<Rightarrow> rows)"

definition record_pipeline_output :: "string \<Rightarrow> string \<Rightarrow> string \<Rightarrow> local_catalog \<Rightarrow> local_catalog" where
  "record_pipeline_output run_id manifest_id object_id c =
     (let record = [(''pipeline_run_id'', VStr run_id), (''dataset_manifest_id'', VStr manifest_id),
            (''dataset_object_id'', VStr object_id)];
          rows = pipeline_outputs c
      in if list_ex (\<lambda>r. py_eq (VMap r) (VMap record)) rows then c
         else c\<lparr>lc_files := dset PIPELINE_OUTPUT_SIDECAR (map json_row (rows @ [record])) (lc_files c)\<rparr>)"


section \<open>Facts about the files\<close>

lemma table_files_injective:
  "distinct all_paths" "list_all (\<lambda>t. has_key LOCAL_TABLE_FILES t) (map fst TABLES_BY_NAME)"
  by code_simp+

lemma id_tables_have_uuid_ids:
  "list_all (\<lambda>t. case dget TABLES_BY_NAME t of None \<Rightarrow> False | Some tb \<Rightarrow> column_type tb ''id'' = TUuid \<and> ''id'' \<in> set (column_names tb)) ID_TABLES"
  by code_simp

lemma ID_TABLES_eq:
  "set ID_TABLES = set (map fst TABLES_BY_NAME) - {''market_data.dataset_lineage'',
     ''market_data.dataset_object_lineage'', ''market_data.stream_watermarks''}"
  by code_simp

lemma path_of_inj: "path_of t = Inr p \<Longrightarrow> path_of t' = Inr p \<Longrightarrow> t = t'"
proof -
  have "distinct (map snd LOCAL_TABLE_FILES)" using table_files_injective(1) by (simp add: all_paths_def)
  moreover assume "path_of t = Inr p" "path_of t' = Inr p"
  then have "(t, p) \<in> set LOCAL_TABLE_FILES" "(t', p) \<in> set LOCAL_TABLE_FILES"
    by (auto simp: path_of_def dest!: map_of_SomeD split: option.splits)
  ultimately show "t = t'" by (metis eq_key_imp_eq_value in_set_zip inj_on_contraD snd_conv distinct_map fst_conv)
qed

lemma path_of_table: "table_for t = Inr tb \<Longrightarrow> \<exists>p. path_of t = Inr p \<and> p \<in> set all_paths"
proof -
  assume t: "table_for t = Inr tb"
  then have "t \<in> set (map fst TABLES_BY_NAME)"
    by (force simp: table_for_def dest!: map_of_SomeD split: option.splits)
  then have "has_key LOCAL_TABLE_FILES t" using table_files_injective(2) by (simp only: list_all_iff)
  then obtain p where "dget LOCAL_TABLE_FILES t = Some p" by (auto simp: has_key_def)
  moreover from map_of_SomeD[OF this] have "p \<in> set (map snd LOCAL_TABLE_FILES)" by force
  ultimately show ?thesis using t by (simp add: path_of_def all_paths_def)
qed

lemma path_of_table_for: "path_of t = Inr p \<Longrightarrow> \<exists>tb. table_for t = Inr tb"
  by (auto simp: path_of_def)

text \<open>Rows as a file holds them: a JSON object with its keys in order, each once.\<close>

lemma sort_key_fst_set:
  assumes "distinct (map fst d)" shows "map_of (sort_key fst d) = map_of d"
proof -
  have "distinct (map fst (sort_key fst d))"
    using assms by (metis mset_eq_imp_distinct_iff mset_map mset_sort)
  then show ?thesis using assms by (intro map_of_inject_set[THEN iffD2]) simp_all
qed

lemma sort_key_map_commute:
  "(\<And>x. k (f x) = k x) \<Longrightarrow> sort_key k (map f xs) = map f (sort_key k xs)"
proof (induction xs)
  case (Cons x xs)
  have "insort_key k (f x) (map f ys) = map f (insort_key k x ys)" for ys
    by (induction ys) (auto simp: Cons.prems)
  then show ?case using Cons by simp
qed simp

lemma sort_key_sorted: "sorted (map k xs) \<Longrightarrow> sort_key k xs = xs"
proof (induction xs)
  case (Cons x xs)
  then show ?case by (cases xs) auto
qed simp

lemma sort_key_idem: "sort_key k (sort_key k xs) = sort_key k xs"
  by (rule sort_key_sorted) simp

lemma sort_map_idem:
  assumes "\<And>x. x \<in> snd ` set d \<Longrightarrow> f (f x) = f x"
  shows "sort_key fst (map (map_prod id f) (sort_key fst (map (map_prod id f) d))) = sort_key fst (map (map_prod id f) d)"
proof -
  have com: "sort_key fst (map (map_prod id f) xs) = map (map_prod id f) (sort_key fst xs)" for xs :: "('b::linorder \<times> 'a) list"
    by (rule sort_key_map_commute) simp
  have "map (map_prod id f) (map (map_prod id f) (sort_key fst d)) = map (map_prod id f) (sort_key fst d)"
    unfolding map_map by (intro map_cong) (auto intro!: assms simp: rev_image_eqI)
  then show ?thesis unfolding com sort_key_idem by simp
qed

lemma sort_value_idem [simp]: "sort_value (sort_value v) = sort_value v"
proof (induction v)
  case (VMap d)
  then show ?case unfolding sort_value.simps
    by (intro arg_cong[where f = VMap] sort_map_idem) (auto simp: snds.simps)
qed (auto simp: o_def)

lemma json_row_idem [simp]: "json_row (json_row r) = json_row r"
  unfolding json_row_def by (rule sort_map_idem) simp

lemma keys_json_row: "distinct (map fst (json_row r)) \<longleftrightarrow> distinct (map fst r)"
proof -
  have "mset (map fst (json_row r)) = mset (map fst r)" by (simp add: json_row_def mset_map multiset.map_comp)
  then show ?thesis by (rule mset_eq_imp_distinct_iff)
qed

lemma dget_json_row: "distinct (map fst r) \<Longrightarrow> dget (json_row r) k = map_option sort_value (dget r k)"
  unfolding json_row_def
  by (subst sort_key_fst_set) (induction r; auto)+

lemma dumpable_sort_value [simp]: "dumpable (sort_value v) \<longleftrightarrow> dumpable v"
  by (induction v) (auto simp: list_all_iff map_prod_def)


section \<open>A table as a dictionary from ids to rows\<close>

lemma set_build_dict: "(k, v) \<in> set (fold (\<lambda>(k, v). dset k v) xs d) \<Longrightarrow> (k, v) \<in> set xs \<or> (k, v) \<in> set d"
proof (induction xs arbitrary: d)
  case (Cons x xs)
  then show ?case by (cases x) (auto dest!: Cons.IH in_set_dset)
qed simp

lemma dict_ok_fold_dset: "dict_ok d \<Longrightarrow> dict_ok (fold (\<lambda>(k, v). dset k v) xs d)"
  by (induction xs arbitrary: d) auto

lemma dict_ok_build_dict [simp]: "dict_ok (build_dict ks vs)"
  by (simp add: build_dict_def dict_ok_fold_dset)

lemma fold_dset_append: "dict_ok (d @ xs) \<Longrightarrow> fold (\<lambda>(k, v). dset k v) xs d = d @ xs"
proof (induction xs arbitrary: d)
  case (Cons x xs)
  obtain k v where x: "x = (k, v)" by (cases x)
  have "\<not> has_key d k" using Cons.prems by (auto simp: dict_ok_def has_key_iff x)
  then show ?case using Cons.IH[of "d @ [x]"] Cons.prems by (simp add: x dset_new)
qed simp

lemma build_dict_self: "dict_ok d \<Longrightarrow> build_dict (map fst d) (map snd d) = d"
  using fold_dset_append[of "[]" d] by (simp add: build_dict_def zip_map_fst_snd)

lemma mapE_pointwise: "\<forall>x\<in>set xs. f (g x) = Inr (h x) \<Longrightarrow> mapE f (map g xs) = Inr (map h xs)"
  by (induction xs) auto

lemma rows_by_id_props:
  assumes "rows_by_id f rows = Inr d"
  shows "dict_ok d" "\<And>k r. (k, r) \<in> set d \<Longrightarrow> r \<in> set rows \<and> row_id f r = Inr k"
proof -
  obtain ids where ids: "mapE (row_id f) rows = Inr ids" "d = build_dict ids rows"
    using assms by (auto simp: rows_by_id_def)
  then show "dict_ok d" by simp
  fix k r assume "(k, r) \<in> set d"
  then have "(k, r) \<in> set (zip ids rows)" using set_build_dict[of k r "zip ids rows" "[]"] ids(2) by (simp add: build_dict_def)
  then show "r \<in> set rows \<and> row_id f r = Inr k"
    using mapE_nth[OF ids(1)] mapE_length[OF ids(1)] by (auto simp: set_zip)
qed

lemma rows_by_id_self:
  "dict_ok d \<Longrightarrow> (\<And>k r. (k, r) \<in> set d \<Longrightarrow> row_id f r = Inr k) \<Longrightarrow> rows_by_id f (map snd d) = Inr d"
  unfolding rows_by_id_def by (subst mapE_pointwise[where h = fst]) (auto simp: build_dict_self)

definition table_view :: "(pyobj \<Rightarrow> string) \<Rightarrow> local_catalog \<Rightarrow> string \<Rightarrow> (string, doc) dict res" where
  "table_view f c t =
     bindE (path_of t) (\<lambda>p. case dget (lc_files c) p of None \<Rightarrow> Inr [] | Some rows \<Rightarrow> rows_by_id f rows)"

lemma records_view:
  "t \<in> set ID_TABLES \<Longrightarrow> records E f c t [] = bindE (table_view f c t) (\<lambda>d. Inr (map snd d))"
  by (simp add: records_def table_view_def canonical_filter_def latest_rows_def row_matches_def bindE_def
      split: sum.splits option.splits)

text \<open>What every file of a catalog satisfies.\<close>

definition row_ok :: "doc \<Rightarrow> bool" where
  "row_ok r \<longleftrightarrow> json_row r = r \<and> distinct (map fst r) \<and> list_all (\<lambda>(_, v). dumpable v) r"

definition table_ok :: "(pyobj \<Rightarrow> string) \<Rightarrow> local_catalog \<Rightarrow> string \<Rightarrow> bool" where
  "table_ok f c t \<longleftrightarrow>
     (\<forall>p rows. path_of t = Inr p \<longrightarrow> dget (lc_files c) p = Some rows \<longrightarrow>
        list_all row_ok rows \<and> (t \<in> set ID_TABLES \<longrightarrow> list_all (\<lambda>r. is_ok (row_id f r)) rows))"

text \<open>Two states that differ at most in the file of one table.\<close>

definition same_elsewhere :: "string \<Rightarrow> local_catalog \<Rightarrow> local_catalog \<Rightarrow> bool" where
  "same_elsewhere t c c' \<longleftrightarrow>
     (\<forall>t' q. path_of t' = Inr q \<longrightarrow> t' \<noteq> t \<longrightarrow> dget (lc_files c') q = dget (lc_files c) q) \<and>
     lc_snapshot c' = lc_snapshot c \<and> lc_touched c' = lc_touched c"

lemma same_elsewhere_refl [simp]: "same_elsewhere t c c"
  by (simp add: same_elsewhere_def)

lemma same_elsewhere_view:
  "same_elsewhere t c c' \<Longrightarrow> t' \<noteq> t \<Longrightarrow> table_view f c' t' = table_view f c t'"
  by (cases "path_of t'") (auto simp: same_elsewhere_def table_view_def)

lemma same_elsewhere_ok: "same_elsewhere t c c' \<Longrightarrow> t' \<noteq> t \<Longrightarrow> table_ok f c' t' = table_ok f c t'"
  by (auto simp: same_elsewhere_def table_ok_def)

lemma dumpable_json_row [simp]: "list_all (\<lambda>(_, v). dumpable v) (json_row r) \<longleftrightarrow> list_all (\<lambda>(_, v). dumpable v) r"
  by (auto simp: json_row_def list_all_iff split_def)

lemma row_ok_json_row: "distinct (map fst r) \<Longrightarrow> list_all (\<lambda>(_, v). dumpable v) r \<Longrightarrow> row_ok (json_row r)"
  by (simp add: row_ok_def keys_json_row)

lemma map_json_row: "list_all row_ok rows \<Longrightarrow> map json_row rows = rows"
  by (auto simp: list_all_iff row_ok_def intro!: map_idI)

lemma table_view_ok:
  assumes "table_ok f c t" "t \<in> set ID_TABLES" "path_of t = Inr p"
  obtains d where "table_view f c t = Inr d" "dict_ok d"
    "\<And>k r. (k, r) \<in> set d \<Longrightarrow> row_ok r \<and> row_id f r = Inr k"
proof (cases "dget (lc_files c) p")
  case None
  then show ?thesis using that[of "[]"] assms(3) by (simp add: table_view_def)
next
  case (Some rows)
  then have rows: "list_all row_ok rows" "list_all (\<lambda>r. is_ok (row_id f r)) rows"
    using assms unfolding table_ok_def by blast+
  then obtain ids where "mapE (row_id f) rows = Inr ids"
    using mapE_all_ok[of rows "row_id f"] by (auto simp: list_all_iff is_ok_iff)
  then obtain d where d: "rows_by_id f rows = Inr d" by (simp add: rows_by_id_def)
  show ?thesis
  proof (rule that[of d])
    show "table_view f c t = Inr d" using d Some assms(3) by (simp add: table_view_def)
    show "dict_ok d" by (rule rows_by_id_props(1)[OF d])
    show "row_ok r \<and> row_id f r = Inr k" if "(k, r) \<in> set d" for k r
      using rows_by_id_props(2)[OF d that] rows(1) by (auto simp: list_all_iff)
  qed
qed

lemma id_table_path: "t \<in> set ID_TABLES \<Longrightarrow> \<exists>tb p. table_for t = Inr tb \<and> path_of t = Inr p \<and> column_type tb ''id'' = TUuid"
proof -
  assume "t \<in> set ID_TABLES"
  then have "case dget TABLES_BY_NAME t of None \<Rightarrow> False | Some tb \<Rightarrow> column_type tb ''id'' = TUuid \<and> ''id'' \<in> set (column_names tb)"
    using id_tables_have_uuid_ids by (simp only: list_all_iff)
  then obtain tb where "table_for t = Inr tb" "column_type tb ''id'' = TUuid"
    by (auto simp: table_for_def split: option.splits)
  then show ?thesis using path_of_table by blast
qed

lemma normalised_keys: "normalise_record E f t r = Inr c \<Longrightarrow> distinct (map fst c)"
  using normalise_facts[of E f t r c] by metis

lemma canonical_id:
  assumes t: "t \<in> set ID_TABLES" and n: "normalise_record E f t r = Inr c" and i: "dget c ''id'' = Some w"
  shows "w = VNone \<or> (\<exists>s. w = VStr s)"
proof -
  obtain tb where tb: "table_for t = Inr tb" "column_type tb ''id'' = TUuid" using id_table_path[OF t] by blast
  obtain t' where t': "table_for t = Inr t'"
    and keys: "map fst c = map cl_name (filter (\<lambda>cl. has_key r (cl_name cl)) (tb_columns t'))"
    and vals: "\<And>cl. cl \<in> set (tb_columns t') \<Longrightarrow> has_key r (cl_name cl) \<Longrightarrow>
       \<exists>v w. dget r (cl_name cl) = Some v \<and> to_canonical E f (cl_type cl) v = Inr w \<and> dget c (cl_name cl) = Some w"
    using normalise_facts[OF n] by metis
  have "''id'' \<in> set (map fst c)" using i by (force dest: map_of_SomeD)
  then obtain cl where cl: "cl \<in> set (tb_columns t')" "has_key r (cl_name cl)" "cl_name cl = ''id''"
    unfolding keys by auto
  have "cl_type cl = TUuid"
    using column_type_of[OF table_columns_distinct[OF t'] cl(1)] cl(3) tb t' by simp
  then obtain v where "to_canonical E f TUuid v = Inr w" using vals[OF cl(1,2)] i cl(3) by auto
  then show ?thesis
    by (auto simp: to_canonical_def canonical_uuid_def split: if_splits pyobj.splits pyval.splits option.splits)
qed

lemma row_id_json_row:
  assumes "distinct (map fst c)" "\<And>w. dget c ''id'' = Some w \<Longrightarrow> w = VNone \<or> (\<exists>s. w = VStr s)"
  shows "row_id f (json_row c) = row_id f c"
  using assms by (cases "dget c ''id''") (auto simp: row_id_def get_item_def dget_json_row)


lemma same_elsewhere_dset:
  "path_of t = Inr p \<Longrightarrow> same_elsewhere t c (c\<lparr>lc_files := dset p rows (lc_files c)\<rparr>)"
  using path_of_inj by (auto simp: same_elsewhere_def)

lemma write_dict:
  assumes ok: "table_ok f c t" and t: "t \<in> set ID_TABLES" "path_of t = Inr p" and d: "dict_ok d"
    and rows: "\<And>k r. (k, r) \<in> set d \<Longrightarrow> distinct (map fst r) \<and> list_all (\<lambda>(_, v). dumpable v) r \<and> row_id f (json_row r) = Inr k"
  shows "\<exists>c'. write_rows t (map snd d) c = (Inr (), c') \<and> table_ok f c' t \<and>
           table_view f c' t = Inr (map (\<lambda>(k, r). (k, json_row r)) d) \<and> same_elsewhere t c c'"
proof -
  define d' where "d' = map (\<lambda>(k, r). (k, json_row r)) d"
  have keys: "map fst d' = map fst d" by (auto simp: d'_def)
  have self: "rows_by_id f (map snd d') = Inr d'"
  proof (rule rows_by_id_self)
    show "dict_ok d'" using d keys unfolding dict_ok_def by simp
  qed (use rows in \<open>auto simp: d'_def\<close>)
  have vals: "map json_row (map snd d) = map snd d'" by (auto simp: d'_def)
  have dump: "list_all (list_all (\<lambda>(_, v). dumpable v)) (map snd d)"
    using rows by (force simp: list_all_iff)
  have okrows: "list_all row_ok (map snd d')" "list_all (\<lambda>r. is_ok (row_id f r)) (map snd d')"
    using rows by (force simp: list_all_iff d'_def intro!: row_ok_json_row)+
  define c' where "c' = c\<lparr>lc_files := dset p (map snd d') (lc_files c)\<rparr>"
  have "write_rows t (map snd d) c = (Inr (), c')"
    unfolding write_rows_def c'_def using t(2) dump vals by (simp del: map_map)
  moreover have "table_ok f c' t" unfolding c'_def table_ok_def using okrows t(2) by auto
  moreover have "table_view f c' t = Inr d'" unfolding c'_def using self t(2) by (simp add: table_view_def)
  moreover have "same_elsewhere t c c'" unfolding c'_def by (rule same_elsewhere_dset[OF t(2)])
  ultimately show ?thesis unfolding d'_def by blast
qed

lemma map_json_dset:
  "(\<And>k r. (k, r) \<in> set d \<Longrightarrow> json_row r = r) \<Longrightarrow>
   map (\<lambda>(k, r). (k, json_row r)) (dset k canonical d) = dset k (json_row canonical) d"
  by (induction d) (auto intro!: map_idI)

text \<open>An upsert by id is a dictionary update of the table, and touches no other table.\<close>

lemma upsert_by_id:
  assumes ok: "table_ok f c t" and t: "t \<in> set ID_TABLES" "dget NATURAL_KEYS t = None"
    and n: "normalise_record E f t record = Inr canonical" and i: "has_key canonical ''id''"
    and j: "list_all (\<lambda>(_, v). dumpable v) canonical"
  shows "\<exists>k d c'. row_id f canonical = Inr k \<and> table_view f c t = Inr d \<and> upsert E f t record c = (Inr (), c') \<and>
           table_ok f c' t \<and> table_view f c' t = Inr (dset k (json_row canonical) d) \<and> same_elsewhere t c c'"
proof -
  obtain p where p: "path_of t = Inr p" using id_table_path[OF t(1)] by blast
  obtain d where d: "table_view f c t = Inr d" "dict_ok d"
    and rows: "\<And>k r. (k, r) \<in> set d \<Longrightarrow> row_ok r \<and> row_id f r = Inr k"
    using table_view_ok[OF ok t(1) p] by metis
  obtain k where k: "row_id f canonical = Inr k" using i by (auto simp: row_id_def get_item_def has_key_def)
  have rd: "row_id f (json_row canonical) = Inr k"
    using row_id_json_row[OF normalised_keys[OF n]] canonical_id[OF t(1) n] k by metis
  have self: "rows_by_id f (map snd d) = Inr d" by (rule rows_by_id_self) (use d rows in auto)
  have up: "upsert E f t record c = write_rows t (map snd (dset k canonical d)) c"
    using t n d k self by (simp add: upsert_def records_view upsert_rows_def merge_id_def)
  have "distinct (map fst r) \<and> list_all (\<lambda>(_, v). dumpable v) r \<and> row_id f (json_row r) = Inr k'"
    if kr: "(k', r) \<in> set (dset k canonical d)" for k' r
  proof (cases "k' = k \<and> r = canonical")
    case True
    then show ?thesis using normalised_keys[OF n] j rd by simp
  next
    case False
    then have "(k', r) \<in> set d" using in_set_dset[OF kr] by blast
    then have "row_ok r" "row_id f r = Inr k'" using rows by auto
    then show ?thesis unfolding row_ok_def by auto
  qed
  then obtain c' where "write_rows t (map snd (dset k canonical d)) c = (Inr (), c')" "table_ok f c' t"
      "table_view f c' t = Inr (map (\<lambda>(k, r). (k, json_row r)) (dset k canonical d))" "same_elsewhere t c c'"
    using write_dict[OF ok t(1) p dict_ok_dset[OF d(2)]] by blast
  moreover have "map (\<lambda>(k, r). (k, json_row r)) (dset k canonical d) = dset k (json_row canonical) d"
    by (rule map_json_dset) (use rows in \<open>auto simp: row_ok_def\<close>)
  ultimately show ?thesis using k d(1) up by metis
qed

lemma upsert_cases:
  assumes ok: "table_ok f c t" and t: "t \<in> set ID_TABLES" "dget NATURAL_KEYS t = None"
  shows "(\<exists>e. upsert E f t record c = (Inl e, c)) \<or>
         (\<exists>canonical. normalise_record E f t record = Inr canonical \<and> has_key canonical ''id'' \<and>
            list_all (\<lambda>(_, v). dumpable v) canonical)"
proof -
  obtain p where p: "path_of t = Inr p" using id_table_path[OF t(1)] by blast
  obtain d where d: "table_view f c t = Inr d" "dict_ok d"
    and rows: "\<And>k r. (k, r) \<in> set d \<Longrightarrow> row_ok r \<and> row_id f r = Inr k"
    using table_view_ok[OF ok t(1) p] by metis
  have self: "rows_by_id f (map snd d) = Inr d" by (rule rows_by_id_self) (use d rows in auto)
  show ?thesis
  proof (cases "normalise_record E f t record")
    case (Inl e)
    then show ?thesis using t by (simp add: upsert_def)
  next
    case n: (Inr canonical)
    show ?thesis
    proof (cases "row_id f canonical")
      case (Inl e)
      then show ?thesis using t n d self by (simp add: upsert_def records_view upsert_rows_def merge_id_def)
    next
      case k: (Inr k)
      then have i: "has_key canonical ''id''" by (auto simp: row_id_def get_item_def has_key_def split: option.splits)
      have up: "upsert E f t record c = write_rows t (map snd (dset k canonical d)) c"
        using t n d k self by (simp add: upsert_def records_view upsert_rows_def merge_id_def)
      show ?thesis
      proof (cases "list_all (\<lambda>(_, v). dumpable v) canonical")
        case False
        have "(k, canonical) \<in> set (dset k canonical d)" by (rule map_of_SomeD) simp
        then have "\<not> list_all (list_all (\<lambda>(_, v). dumpable v)) (map snd (dset k canonical d))"
          using False by (force simp: list_all_iff)
        then show ?thesis unfolding up write_rows_def using p by simp
      qed (use n i in blast)
    qed
  qed
qed

end
