(* ===== verification/Catalog_Transactions.thy ===== *)
theory Catalog_Transactions
  imports Catalog
begin

text \<open>
  What the local catalog promises its clients: transactions are all or nothing, a publication leaves
  at most one AVAILABLE manifest per dataset and year, an upsert is a dictionary update, the engine's
  query finds the newest revision.
\<close>

section \<open>Transactions\<close>

lemma write_rows_elsewhere: "write_rows t rows c = (r, c') \<Longrightarrow> same_elsewhere t c c'"
  by (auto simp: write_rows_def same_elsewhere_dset split: sum.splits if_splits)

lemma upsert_elsewhere: "upsert E f t record c = (r, c') \<Longrightarrow> same_elsewhere t c c'"
  by (auto simp: upsert_def dest: write_rows_elsewhere split: if_splits sum.splits)

lemma append_unique_elsewhere: "append_unique E f t record ks c = (r, c') \<Longrightarrow> same_elsewhere t c c'"
  by (auto simp: append_unique_def dest: write_rows_elsewhere split: if_splits sum.splits)

lemma dget_restore:
  "dget (restore (map (\<lambda>p. (p, g p)) ps) fs) p = (if p \<in> set ps then g p else dget fs p)"
proof (induction ps arbitrary: fs)
  case (Cons q ps)
  show ?case using Cons.IH by (auto simp: restore_def split: option.splits)
qed (simp add: restore_def)

lemma dget_restore_snapshot: "p \<in> set all_paths \<Longrightarrow> dget (restore (snapshot_of c) fs) p = dget (lc_files c) p"
  unfolding snapshot_of_def by (subst dget_restore) simp

text \<open>Two catalogs that hold the same files answer every read alike.\<close>

definition same_files :: "local_catalog \<Rightarrow> local_catalog \<Rightarrow> bool" where
  "same_files c c' \<longleftrightarrow> (\<forall>p\<in>set all_paths. dget (lc_files c') p = dget (lc_files c) p)"

lemma path_of_all_paths: "path_of t = Inr p \<Longrightarrow> p \<in> set all_paths"
  using path_of_table_for path_of_table by fastforce

lemma same_files_records: "same_files c c' \<Longrightarrow> records E f c' t w = records E f c t w"
  using path_of_all_paths by (cases "path_of t") (auto simp: records_def same_files_def)

lemma same_files_view: "same_files c c' \<Longrightarrow> table_view f c' t = table_view f c t"
  using path_of_all_paths by (cases "path_of t") (auto simp: table_view_def same_files_def)

lemma same_files_ok: "same_files c c' \<Longrightarrow> table_ok f c' t = table_ok f c t"
  using path_of_all_paths[of t] by (auto simp: table_ok_def same_files_def)

lemma same_files_outputs: "same_files c c' \<Longrightarrow> pipeline_outputs c' = pipeline_outputs c"
  by (simp add: pipeline_outputs_def same_files_def all_paths_def)

definition begun :: "local_catalog \<Rightarrow> local_catalog" where
  "begun c = c\<lparr>lc_snapshot := Some (snapshot_of c), lc_touched := []\<rparr>"

lemma transaction_outcome:
  assumes "transaction E f body c = (r, c')" "lc_snapshot c = None"
  obtains (rolled_back) e where "r = Inl e" "same_files c c'" "lc_snapshot c' = None" "lc_touched c' = []"
  | (committed) x c1 where "r = Inr x" "body (begun c) = (Inr x, c1)" "assert_single E f c1 = Inr ()"
      "c' = c1\<lparr>lc_snapshot := None, lc_touched := []\<rparr>"
proof (cases "body (begun c)")
  case (Pair b c1)
  define result where "result = bindE b (\<lambda>x. bindE (assert_single E f c1) (\<lambda>_. Inr x))"
  have r: "r = result" "c' = c1\<lparr>lc_files := (case result of Inl _ \<Rightarrow> restore (snapshot_of c) (lc_files c1) | Inr _ \<Rightarrow> lc_files c1),
      lc_snapshot := None, lc_touched := []\<rparr>"
    using assms Pair by (auto simp: transaction_def begun_def result_def Let_def)
  show ?thesis
  proof (cases result)
    case (Inl e)
    then show ?thesis using rolled_back[of e] r dget_restore_snapshot by (simp add: same_files_def)
  next
    case (Inr x)
    then show ?thesis using committed[of x c1] r Pair by (auto simp: result_def)
  qed
qed

text \<open>C2: A transaction commits everything its block wrote, or leaves no trace: when the block or
  the closing check raises, every read of every table and the run outputs answer as before it, and
  when it returns, the block ran to its end and the closing check passed on what it wrote.\<close>

theorem transaction_all_or_nothing:
  assumes "transaction E f body c = (r, c')" and "lc_snapshot c = None"
  shows "lc_snapshot c' = None \<and>
    (case r of
       Inl e \<Rightarrow> (\<forall>t w. records E f c' t w = records E f c t w) \<and> pipeline_outputs c' = pipeline_outputs c
     | Inr x \<Rightarrow> \<exists>c1. body (begun c) = (Inr x, c1) \<and> assert_single E f c1 = Inr () \<and> lc_files c' = lc_files c1)"
  using assms
  by (rule transaction_outcome) (simp_all add: same_files_records same_files_outputs)

section \<open>At most one AVAILABLE manifest per dataset and year\<close>

abbreviation MANIFESTS :: string where
  "MANIFESTS \<equiv> ''market_data.dataset_manifests''"

definition is_available :: "doc \<Rightarrow> bool" where
  "is_available r \<longleftrightarrow> py_eq (dget_none r ''status'') (VStr ''AVAILABLE'')"

definition available_with :: "(pyobj \<Rightarrow> string) \<Rightarrow> avail_key \<Rightarrow> doc \<Rightarrow> bool" where
  "available_with f k r \<longleftrightarrow> is_available r \<and> availability_key f r = Inr k"

definition available_count :: "(pyobj \<Rightarrow> string) \<Rightarrow> local_catalog \<Rightarrow> avail_key \<Rightarrow> nat" where
  "available_count f c k =
     (case table_view f c MANIFESTS of Inl _ \<Rightarrow> 0 | Inr d \<Rightarrow> length (filter (available_with f k) (map snd d)))"

lemma flagged_rows:
  "mapE (\<lambda>r. bindE (g r) (\<lambda>s. Inr (r, P s))) rows = Inr ps \<Longrightarrow> (\<And>r s. g r = Inr s \<Longrightarrow> P s = Q r) \<Longrightarrow>
   map fst (filter snd ps) = filter Q rows"
  by (induction rows arbitrary: ps) auto

lemma available_rows_eq: "available_rows rows = Inr av \<Longrightarrow> av = filter is_available rows"
  unfolding available_rows_def bindE_eq_Inr
  by (elim exE conjE, drule flagged_rows[where Q = is_available])
     (auto simp: is_available_def get_item_def dget_none_def split: option.splits)

lemma filter_keys:
  "mapE (\<lambda>r. bindE (availability_key f r) (\<lambda>k. bindE (row_id f r) (\<lambda>_. Inr k))) rows = Inr keys \<Longrightarrow>
   length (filter (\<lambda>k'. k' = k) keys) = length (filter (\<lambda>r. availability_key f r = Inr k) rows)"
  by (induction rows arbitrary: keys) auto

lemma manifests_table: "MANIFESTS \<in> set ID_TABLES" "dget NATURAL_KEYS MANIFESTS = None"
  by code_simp+

lemma assert_single_count:
  assumes "assert_single E f c = Inr ()" and k: "k \<in> set (lc_touched c)"
  shows "available_count f c k \<le> 1"
proof -
  obtain rows av keys where rows: "records E f c MANIFESTS [] = Inr rows" "available_rows rows = Inr av"
    and keys: "mapE (\<lambda>r. bindE (availability_key f r) (\<lambda>k. bindE (row_id f r) (\<lambda>_. Inr k))) av = Inr keys"
    and one: "list_all (\<lambda>k. length (filter (\<lambda>k'. k' = k) keys) \<le> 1) (lc_touched c)"
    using assms(1) by (auto simp: assert_single_def)
  obtain d where d: "table_view f c MANIFESTS = Inr d" "rows = map snd d"
    using rows(1) records_view[OF manifests_table(1), of E f c] by auto
  have "length (filter (available_with f k) rows) = length (filter (\<lambda>k'. k' = k) keys)"
    unfolding filter_keys[OF keys] available_rows_eq[OF rows(2)] filter_filter available_with_def
    by (intro arg_cong[where f = length] filter_cong) auto
  then show ?thesis using one k d by (auto simp: list_all_iff available_count_def)
qed


text \<open>What a publication runs inside its transaction.\<close>

datatype cat_op =
    BeginRun obj_record
  | FinishRun instant string string "string option" "string option"
  | Stage obj_record obj_record
  | Publish obj_record
  | DatasetLineage obj_record
  | ObjectLineage obj_record
  | Incident obj_record
  | Output string string string
  | Upsert string obj_record

fun run_op :: "env \<Rightarrow> (pyobj \<Rightarrow> string) \<Rightarrow> cat_op \<Rightarrow> local_catalog \<Rightarrow> unit res \<times> local_catalog" where
  "run_op E f (BeginRun r) c = begin_pipeline_run E f r c"
| "run_op E f (FinishRun now i st out code) c = finish_pipeline_run E f now i st out code c"
| "run_op E f (Stage s d) c = stage_object E f s d c"
| "run_op E f (Publish r) c = publish_manifest E f r c"
| "run_op E f (DatasetLineage r) c = record_dataset_lineage E f r c"
| "run_op E f (ObjectLineage r) c = record_object_lineage E f r c"
| "run_op E f (Incident r) c = record_quality_incident E f r c"
| "run_op E f (Output i m d) c = (Inr (), record_pipeline_output i m d c)"
| "run_op E f (Upsert t r) c = upsert E f t r c"

fun run_ops :: "env \<Rightarrow> (pyobj \<Rightarrow> string) \<Rightarrow> cat_op list \<Rightarrow> local_catalog \<Rightarrow> unit res \<times> local_catalog" where
  "run_ops E f [] c = (Inr (), c)"
| "run_ops E f (op # ops) c = andthen (run_op E f op c) (run_ops E f ops)"

text \<open>Manifests are written by \<open>publish_manifest\<close> only, from JSON records.\<close>

fun op_disciplined :: "cat_op \<Rightarrow> bool" where
  "op_disciplined (Publish r) = json_record r"
| "op_disciplined (Upsert t r) = (t \<noteq> MANIFESTS)"
| "op_disciplined _ = True"

definition manifests_kept :: "local_catalog \<Rightarrow> local_catalog \<Rightarrow> bool" where
  "manifests_kept c c' \<longleftrightarrow>
     (\<forall>q. path_of MANIFESTS = Inr q \<longrightarrow> dget (lc_files c') q = dget (lc_files c) q) \<and>
     lc_snapshot c' = lc_snapshot c \<and> lc_touched c' = lc_touched c"

lemma manifests_kept_refl [simp]: "manifests_kept c c"
  by (simp add: manifests_kept_def)

lemma manifests_kept_trans: "manifests_kept c c' \<Longrightarrow> manifests_kept c' c'' \<Longrightarrow> manifests_kept c c''"
  by (simp add: manifests_kept_def)

lemma elsewhere_keeps_manifests: "same_elsewhere t c c' \<Longrightarrow> t \<noteq> MANIFESTS \<Longrightarrow> manifests_kept c c'"
  by (auto simp: same_elsewhere_def manifests_kept_def)

lemma upsert_keeps_manifests: "upsert E f t r c = (x, c') \<Longrightarrow> t \<noteq> MANIFESTS \<Longrightarrow> manifests_kept c c'"
  using upsert_elsewhere elsewhere_keeps_manifests by blast

lemma append_keeps_manifests: "append_unique E f t r ks c = (x, c') \<Longrightarrow> t \<noteq> MANIFESTS \<Longrightarrow> manifests_kept c c'"
  using append_unique_elsewhere elsewhere_keeps_manifests by blast

lemma output_keeps_manifests: "manifests_kept c (record_pipeline_output i m d c)"
proof -
  have "path_of MANIFESTS = Inr q \<Longrightarrow> q \<noteq> PIPELINE_OUTPUT_SIDECAR" for q
  proof
    assume "path_of MANIFESTS = Inr q" "q = PIPELINE_OUTPUT_SIDECAR"
    then have "PIPELINE_OUTPUT_SIDECAR \<in> set (map snd LOCAL_TABLE_FILES)"
      by (force simp: path_of_def split: option.splits dest!: map_of_SomeD)
    then show False using table_files_injective(1) by (simp add: all_paths_def)
  qed
  then show ?thesis by (auto simp: manifests_kept_def record_pipeline_output_def Let_def)
qed

lemma finish_keeps_manifests:
  "finish_pipeline_run E f now i st out code c = (x, c') \<Longrightarrow> manifests_kept c c'"
  by (auto simp: finish_pipeline_run_def dest: upsert_keeps_manifests split: sum.splits option.splits)

lemma stage_keeps_manifests: "stage_object E f s d c = (x, c') \<Longrightarrow> manifests_kept c c'"
  by (auto simp: stage_object_def andthen_def dest: upsert_keeps_manifests manifests_kept_trans split: prod.splits sum.splits)

lemma op_keeps_manifests:
  "run_op E f op c = (x, c') \<Longrightarrow> op_disciplined op \<Longrightarrow> (\<forall>r. op \<noteq> Publish r) \<Longrightarrow> manifests_kept c c'"
  by (cases op)
     (auto simp: begin_pipeline_run_def record_dataset_lineage_def record_object_lineage_def record_quality_incident_def
        output_keeps_manifests dest: upsert_keeps_manifests append_keeps_manifests finish_keeps_manifests stage_keeps_manifests)

lemma kept_view: "manifests_kept c c' \<Longrightarrow> table_view f c' MANIFESTS = table_view f c MANIFESTS"
  by (cases "path_of MANIFESTS") (auto simp: manifests_kept_def table_view_def)

lemma kept_ok: "manifests_kept c c' \<Longrightarrow> table_ok f c' MANIFESTS = table_ok f c MANIFESTS"
  by (auto simp: manifests_kept_def table_ok_def)

text \<open>A canonical manifest files under the same key once written.\<close>

lemma canonical_scalar:
  assumes n: "normalise_record E f t r = Inr c" and tb: "table_for t = Inr tb" and ty: "column_type tb k \<noteq> TJsonb"
    and w: "dget c k = Some w"
  shows "sort_value w = w"
proof -
  obtain t' where t': "table_for t = Inr t'"
    and keys: "map fst c = map cl_name (filter (\<lambda>cl. has_key r (cl_name cl)) (tb_columns t'))"
    and vals: "\<And>cl. cl \<in> set (tb_columns t') \<Longrightarrow> has_key r (cl_name cl) \<Longrightarrow>
       \<exists>v w. dget r (cl_name cl) = Some v \<and> to_canonical E f (cl_type cl) v = Inr w \<and> dget c (cl_name cl) = Some w"
    using normalise_facts[OF n] by metis
  have "k \<in> set (map fst c)" using w by (force dest: map_of_SomeD)
  then obtain cl where cl: "cl \<in> set (tb_columns t')" "has_key r (cl_name cl)" "cl_name cl = k"
    unfolding keys by auto
  have "cl_type cl \<noteq> TJsonb"
    using column_type_of[OF table_columns_distinct[OF t'] cl(1)] cl(3) tb t' ty by simp
  moreover obtain v where "to_canonical E f (cl_type cl) v = Inr w" using vals[OF cl(1,2)] w cl(3) by auto
  ultimately show ?thesis
    by (cases "cl_type cl") (auto simp: to_canonical_def canonical_uuid_def canonical_timestamp_def render_utc_def
        canonical_date_def canonical_int_def canonical_bool_def canonical_text_def
        split: if_splits pyobj.splits pyval.splits option.splits iso_result.splits)
qed

lemma manifest_key_columns:
  "case table_for MANIFESTS of Inl _ \<Rightarrow> False
   | Inr tb \<Rightarrow> list_all (\<lambda>k. column_type tb k \<noteq> TJsonb)
       [''feed_id'', ''data_layer'', ''resolution'', ''period_start'', ''instrument_id'', ''status'']"
  by code_simp

lemma stored_manifest_key:
  assumes n: "normalise_record E f MANIFESTS r = Inr c"
  shows "availability_key f (json_row c) = availability_key f c"
proof -
  obtain tb where tb: "table_for MANIFESTS = Inr tb"
    "list_all (\<lambda>k. column_type tb k \<noteq> TJsonb)
       [''feed_id'', ''data_layer'', ''resolution'', ''period_start'', ''instrument_id'', ''status'']"
    using manifest_key_columns by (auto split: sum.splits)
  have g: "dget (json_row c) k = dget c k"
    if "k \<in> {''feed_id'', ''data_layer'', ''resolution'', ''period_start'', ''instrument_id''}" for k
    using dget_json_row[OF normalised_keys[OF n], of k] canonical_scalar[OF n tb(1), of k] tb(2) that
    by (cases "dget c k") auto
  have gs: "dget (json_row c) ''feed_id'' = dget c ''feed_id''" "dget (json_row c) ''data_layer'' = dget c ''data_layer''"
    "dget (json_row c) ''resolution'' = dget c ''resolution''" "dget (json_row c) ''period_start'' = dget c ''period_start''"
    "dget (json_row c) ''instrument_id'' = dget c ''instrument_id''"
    by (rule g, simp)+
  show ?thesis unfolding availability_key_def get_item_def dget_none_def gs ..
qed


lemma count_dset_other: "\<not> P row \<Longrightarrow> length (filter P (map snd (dset i row d))) \<le> length (filter P (map snd d))"
  by (induction d) auto

text \<open>The invariant of the block: only keys it has touched may have gained a second AVAILABLE row.\<close>

definition block_inv :: "(pyobj \<Rightarrow> string) \<Rightarrow> local_catalog \<Rightarrow> bool" where
  "block_inv f c \<longleftrightarrow>
     table_ok f c MANIFESTS \<and> lc_snapshot c \<noteq> None \<and>
     (\<forall>k. k \<notin> set (lc_touched c) \<longrightarrow> available_count f c k \<le> 1)"

lemma kept_block_inv: "manifests_kept c c' \<Longrightarrow> block_inv f c \<Longrightarrow> block_inv f c'"
  using kept_view[of c c' f] kept_ok[of c c' f] by (auto simp: block_inv_def available_count_def manifests_kept_def)

lemma publish_block_inv:
  assumes laws: "codec_laws E" and inv: "block_inv f c" and j: "json_record r"
    and run: "publish_manifest E f r c = (x, c')"
  shows "block_inv f c'"
proof (cases "normalise_record E f MANIFESTS r")
  case (Inl e)
  then show ?thesis using run inv by (simp add: publish_manifest_def)
next
  case n: (Inr canonical)
  have again: "normalise_record E f MANIFESTS (as_record_of canonical) = Inr canonical" by (rule renormalise[OF laws n j])
  show ?thesis
  proof (cases "availability_key f canonical")
    case (Inl e)
    then show ?thesis using run inv n by (auto simp: publish_manifest_def block_inv_def split: if_splits)
  next
    case k: (Inr k)
    define c1 where "c1 = c\<lparr>lc_touched := List.insert k (lc_touched c)\<rparr>"
    have run1: "upsert E f MANIFESTS (as_record_of canonical) c1 = (x, c')"
      using run inv n k by (auto simp: publish_manifest_def block_inv_def c1_def)
    have ok1: "table_ok f c1 MANIFESTS" and snap1: "lc_snapshot c1 \<noteq> None"
      and view1: "table_view f c1 MANIFESTS = table_view f c MANIFESTS"
      using inv by (auto simp: block_inv_def c1_def table_ok_def table_view_def)
    have inv1: "block_inv f c1"
      using inv ok1 snap1 view1 by (auto simp: block_inv_def available_count_def c1_def)
    from upsert_cases[OF ok1 manifests_table, of E "as_record_of canonical"] show ?thesis
    proof
      assume "\<exists>e. upsert E f MANIFESTS (as_record_of canonical) c1 = (Inl e, c1)"
      then show ?thesis using run1 inv1 by auto
    next
      assume "\<exists>canonical'. normalise_record E f MANIFESTS (as_record_of canonical) = Inr canonical' \<and>
        has_key canonical' ''id'' \<and> list_all (\<lambda>(_, v). dumpable v) canonical'"
      then have i: "has_key canonical ''id''" and d: "list_all (\<lambda>(_, v). dumpable v) canonical" using again by auto
      obtain i d0 where up: "table_view f c1 MANIFESTS = Inr d0" "table_ok f c' MANIFESTS"
          "table_view f c' MANIFESTS = Inr (dset i (json_row canonical) d0)" "same_elsewhere MANIFESTS c1 c'"
        using upsert_by_id[OF ok1 manifests_table again i d] run1 by auto
      have "available_count f c' k' \<le> 1" if "k' \<notin> set (lc_touched c')" for k'
      proof -
        have out: "k' \<notin> set (lc_touched c)" "k' \<noteq> k"
          using that up(4) by (auto simp: same_elsewhere_def c1_def)
        then have "\<not> available_with f k' (json_row canonical)"
          using stored_manifest_key[OF n] k by (simp add: available_with_def)
        from count_dset_other[where P = "available_with f k'", OF this, of i d0] have "available_count f c' k' \<le> available_count f c k'"
          using up(1,3) view1 by (simp add: available_count_def)
        moreover have "available_count f c k' \<le> 1" using inv out(1) unfolding block_inv_def by blast
        ultimately show ?thesis by simp
      qed
      then show ?thesis using up(2,4) snap1 by (simp add: block_inv_def same_elsewhere_def)
    qed
  qed
qed

lemma run_ops_block_inv:
  assumes laws: "codec_laws E"
  shows "block_inv f c \<Longrightarrow> list_all op_disciplined ops \<Longrightarrow> run_ops E f ops c = (x, c') \<Longrightarrow> block_inv f c'"
proof (induction ops arbitrary: c)
  case (Cons op ops)
  obtain y c1 where op: "run_op E f op c = (y, c1)" by (cases "run_op E f op c")
  have "block_inv f c1"
  proof (cases "\<exists>r. op = Publish r")
    case True
    then show ?thesis using publish_block_inv[OF laws Cons.prems(1)] Cons.prems(2) op by auto
  next
    case False
    then show ?thesis using kept_block_inv[OF op_keeps_manifests[OF op]] Cons.prems by auto
  qed
  then show ?case using Cons.IH Cons.prems(2,3) op by (auto simp: andthen_def split: sum.splits)
qed simp

text \<open>C4: Publication never leaves two AVAILABLE manifests for one feed, instrument, layer,
  resolution and year: if a catalog has at most one, so it does after a transaction whose block is
  any sequence of catalog operations that writes manifests through \<open>publish_manifest\<close>, whether
  the transaction commits or fails half-way.\<close>

theorem single_available_manifest:
  assumes laws: "codec_laws E" and ok: "table_ok f c MANIFESTS" and one: "\<forall>k. available_count f c k \<le> 1"
    and ops: "list_all op_disciplined ops" and fresh: "lc_snapshot c = None"
    and run: "transaction E f (run_ops E f ops) c = (r, c')"
  shows "table_ok f c' MANIFESTS \<and> (\<forall>k. available_count f c' k \<le> 1)"
  using run fresh
proof (cases rule: transaction_outcome)
  case (rolled_back e)
  then show ?thesis using ok one same_files_ok same_files_view by (simp add: available_count_def)
next
  case (committed x c1)
  have "block_inv f (begun c)"
    using ok one by (auto simp: block_inv_def begun_def available_count_def table_ok_def table_view_def)
  then have inv: "block_inv f c1" using run_ops_block_inv[OF laws _ ops committed(2)] by blast
  then have "available_count f c1 k \<le> 1" for k
    using assert_single_count[OF committed(3)] unfolding block_inv_def by blast
  moreover have "table_view f c' MANIFESTS = table_view f c1 MANIFESTS" "table_ok f c' MANIFESTS = table_ok f c1 MANIFESTS"
    by (simp_all add: committed(4) table_view_def table_ok_def)
  ultimately show ?thesis using inv by (simp add: available_count_def block_inv_def)
qed


definition demo_manifest :: "string \<Rightarrow> string option \<Rightarrow> int \<Rightarrow> obj_record" where
  "demo_manifest i instrument revision =
     [(''id'', OVal (VStr i)), (''feed_id'', OVal (VStr ''FEED'')), (''instrument_id'', OVal (opt_str instrument)),
      (''data_layer'', OVal (VStr ''RAW'')), (''resolution'', OVal (VStr ''1d'')),
      (''period_start'', OVal (VStr ''1970-01-01T00:00:00Z'')), (''revision_number'', OVal (VInt revision)),
      (''status'', OVal (VStr ''AVAILABLE''))]"

theorem transaction_all_or_nothing_witness:
  "\<exists>r c'. transaction codec_env no_str (\<lambda>c. (Inl ValueError :: unit res, c)) new_catalog = (r, c') \<and>
     lc_snapshot c' = None \<and>
    (case r of
       Inl e \<Rightarrow> (\<forall>t w. records codec_env no_str c' t w = records codec_env no_str new_catalog t w) \<and>
                  pipeline_outputs c' = pipeline_outputs new_catalog
     | Inr x \<Rightarrow> \<exists>c1. (Inl ValueError :: unit res, begun new_catalog) = (Inr x, c1) \<and>
                  assert_single codec_env no_str c1 = Inr () \<and> lc_files c' = lc_files c1)"
proof -
  obtain r c' where run: "transaction codec_env no_str (\<lambda>c. (Inl ValueError :: unit res, c)) new_catalog = (r, c')"
    by (metis surj_pair)
  show ?thesis using run transaction_all_or_nothing[OF run] by (intro exI[of _ r] exI[of _ c']) (simp add: new_catalog_def)
qed

theorem single_available_manifest_witness:
  "\<exists>r c'. transaction codec_env no_str
       (run_ops codec_env no_str [Publish (demo_manifest ''A'' None 1), Publish (demo_manifest ''B'' None 2)]) new_catalog = (r, c') \<and>
     table_ok no_str c' MANIFESTS \<and> (\<forall>k. available_count no_str c' k \<le> 1)"
proof -
  obtain r c' where run: "transaction codec_env no_str
       (run_ops codec_env no_str [Publish (demo_manifest ''A'' None 1), Publish (demo_manifest ''B'' None 2)]) new_catalog = (r, c')"
    by (metis surj_pair)
  have ok: "table_ok no_str new_catalog MANIFESTS" by (simp add: table_ok_def new_catalog_def)
  have one: "\<forall>k. available_count no_str new_catalog k \<le> 1"
    by (auto simp: available_count_def table_view_def new_catalog_def split: sum.splits)
  have ops: "list_all op_disciplined [Publish (demo_manifest ''A'' None 1), Publish (demo_manifest ''B'' None 2)]"
    by (simp add: demo_manifest_def json_record_def)
  have fresh: "lc_snapshot new_catalog = None" by (simp add: new_catalog_def)
  show ?thesis using run single_available_manifest[OF codec_env_laws ok one ops fresh run] by blast
qed

text \<open>Publishing, in one transaction, the manifest of a whole feed and the manifest of one of its
  instruments raises \<open>TypeError\<close> and rolls both back: the closing check sorts the touched keys, and
  \<open>None\<close> does not compare with an instrument id.\<close>

theorem mixed_scopes_do_not_commit:
  assumes "(feed, None, rest) \<in> set (lc_touched c1)" and "(feed, Some i, rest') \<in> set (lc_touched c1)"
    and "body (begun c) = (Inr x, c1)" and "lc_snapshot c = None"
    and "transaction E f body c = (r, c')"
  shows "(\<exists>e. r = Inl e) \<and> (\<forall>t w. records E f c' t w = records E f c t w)"
proof -
  have bad: "assert_single E f c1 \<noteq> Inr ()"
  proof
    assume "assert_single E f c1 = Inr ()"
    then have "sortable (lc_touched c1)" by (auto simp: assert_single_def)
    then show False using assms(1,2) by (fastforce simp: sortable_def list_all_iff)
  qed
  from assms(5,4) show ?thesis
    by (cases rule: transaction_outcome) (use bad assms(3) same_files_records in auto)
qed


definition mixed_block :: "local_catalog \<Rightarrow> unit res \<times> local_catalog" where
  "mixed_block = run_ops codec_env no_str [Publish (demo_manifest ''A'' None 1), Publish (demo_manifest ''B'' (Some ''X'') 1)]"

theorem mixed_scopes_do_not_commit_witness:
  "\<exists>r c'. transaction codec_env no_str mixed_block new_catalog = (r, c') \<and> (\<exists>e. r = Inl e) \<and>
     (\<forall>t w. records codec_env no_str c' t w = records codec_env no_str new_catalog t w)"
proof -
  define c1 where "c1 = snd (mixed_block (begun new_catalog))"
  have "fst (mixed_block (begun new_catalog)) = Inr ()" by code_simp
  then have b: "mixed_block (begun new_catalog) = (Inr (), c1)" by (simp add: c1_def prod_eq_iff)
  have "lc_touched (snd (mixed_block (begun new_catalog))) =
      [(''FEED'', Some ''X'', ''RAW'', ''1d'', 1970), (''FEED'', None, ''RAW'', ''1d'', 1970)]" by code_simp
  then have t: "(''FEED'', None, ''RAW'', ''1d'', 1970) \<in> set (lc_touched c1)"
      "(''FEED'', Some ''X'', ''RAW'', ''1d'', 1970) \<in> set (lc_touched c1)" by (simp_all add: c1_def)
  obtain r c' where run: "transaction codec_env no_str mixed_block new_catalog = (r, c')" by (metis surj_pair)
  show ?thesis using run mixed_scopes_do_not_commit[OF t b _ run] by (simp add: new_catalog_def)
qed

section \<open>Reads after writes\<close>

text \<open>An upsert by id is a dictionary update of its table: reading the table afterwards gives the
  rows it gave before, with the canonical row in the place of the one with its id, or at the end when
  there was none; every other table reads as before.\<close>

theorem upsert_then_records:
  assumes ok: "table_ok f c t" and t: "t \<in> set ID_TABLES" "dget NATURAL_KEYS t = None"
    and n: "normalise_record E f t record = Inr canonical" and i: "has_key canonical ''id''"
    and j: "list_all (\<lambda>(_, v). dumpable v) canonical"
  shows "\<exists>k d c'. row_id f canonical = Inr k \<and> dict_ok d \<and> (\<forall>(k, r)\<in>set d. row_id f r = Inr k) \<and>
      records E f c t [] = Inr (map snd d) \<and> upsert E f t record c = (Inr (), c') \<and>
      records E f c' t [] = Inr (map snd (dset k (json_row canonical) d)) \<and>
      (\<forall>t' w. t' \<noteq> t \<longrightarrow> records E f c' t' w = records E f c t' w)"
proof -
  obtain k d c' where u: "row_id f canonical = Inr k" "table_view f c t = Inr d" "upsert E f t record c = (Inr (), c')"
      "table_view f c' t = Inr (dset k (json_row canonical) d)" "same_elsewhere t c c'"
    using upsert_by_id[OF assms] by blast
  have d: "dict_ok d" "\<forall>(k, r)\<in>set d. row_id f r = Inr k"
    using u(2) rows_by_id_props by (auto simp: table_view_def split: option.splits)
  have "records E f c' t' w = records E f c t' w" if "t' \<noteq> t" for t' w
    using u(5) that by (cases "path_of t'") (auto simp: same_elsewhere_def records_def)
  then show ?thesis using u d records_view[OF t(1), of E f] by (intro exI[of _ k] exI[of _ d] exI[of _ c']) simp
qed

definition demo_run :: obj_record where
  "demo_run = [(''id'', OVal (VStr ''RUN'')), (''status'', OVal (VStr ''RUNNING''))]"

definition demo_run_row :: doc where
  "demo_run_row = [(''id'', VStr ''RUN''), (''status'', VStr ''RUNNING'')]"

theorem upsert_then_records_witness:
  "\<exists>d c'. records codec_env no_str new_catalog ''market_data.pipeline_runs'' [] = Inr (map snd d) \<and>
      upsert codec_env no_str ''market_data.pipeline_runs'' demo_run new_catalog = (Inr (), c') \<and>
      records codec_env no_str c' ''market_data.pipeline_runs'' [] = Inr (map snd (dset ''RUN'' (json_row demo_run_row) d)) \<and>
      records codec_env no_str c' ''market_data.feeds'' [] = records codec_env no_str new_catalog ''market_data.feeds'' []"
proof -
  have a: "table_ok no_str new_catalog ''market_data.pipeline_runs''" by (simp add: table_ok_def new_catalog_def)
  have b: "''market_data.pipeline_runs'' \<in> set ID_TABLES" by code_simp
  have c: "dget NATURAL_KEYS ''market_data.pipeline_runs'' = None" by code_simp
  have d: "normalise_record codec_env no_str ''market_data.pipeline_runs'' demo_run = Inr demo_run_row" by code_simp
  have e: "has_key demo_run_row ''id''" "row_id no_str demo_run_row = Inr ''RUN''" by code_simp+
  have f: "list_all (\<lambda>(_, v). dumpable v) demo_run_row" by code_simp
  have ne: "''market_data.feeds'' \<noteq> ''market_data.pipeline_runs''" by simp
  obtain k d c' where r: "row_id no_str demo_run_row = Inr k"
      "records codec_env no_str new_catalog ''market_data.pipeline_runs'' [] = Inr (map snd d)"
      "upsert codec_env no_str ''market_data.pipeline_runs'' demo_run new_catalog = (Inr (), c')"
      "records codec_env no_str c' ''market_data.pipeline_runs'' [] = Inr (map snd (dset k (json_row demo_run_row) d))"
      "\<forall>t' w. t' \<noteq> ''market_data.pipeline_runs'' \<longrightarrow>
         records codec_env no_str c' t' w = records codec_env no_str new_catalog t' w"
    using upsert_then_records[OF a b c d e(1) f] by blast
  have k: "k = ''RUN''" using trans[OF r(1)[symmetric] e(2)] unfolding sum.inject .
  show ?thesis by (rule exI[of _ d], rule exI[of _ c'], intro conjI r(2) r(3) r(4)[unfolded k] r(5)[rule_format, OF ne])
qed

definition idless_action :: obj_record where
  "idless_action = [(''source_manifest_id'', OVal (VStr ''M'')), (''provider_event_key'', OVal (VStr ''E''))]"

text \<open>The local catalog accepts a corporate action without its \<open>id\<close>, and from then on every read
  of the table raises \<open>KeyError\<close>: the natural-key branch of \<open>upsert\<close> never checks the primary key.\<close>

theorem idless_action_breaks_table:
  "fst (upsert codec_env no_str ''market_data.corporate_actions'' idless_action new_catalog) = Inr () \<and>
   records codec_env no_str (snd (upsert codec_env no_str ''market_data.corporate_actions'' idless_action new_catalog))
     ''market_data.corporate_actions'' [] = Inl KeyError"
  by (rule conjI; code_simp)

definition foreign_tables :: "table \<Rightarrow> string list" where
  "foreign_tables t =
     concat (map (\<lambda>c. case cl_foreign_key c of None \<Rightarrow> []
                      | Some fk \<Rightarrow> [takeWhile (\<lambda>x. x \<noteq> CHR ''.'') fk @ ''.'' @
                                     takeWhile (\<lambda>x. x \<noteq> CHR ''.'') (tl (dropWhile (\<lambda>x. x \<noteq> CHR ''.'') fk))]) (tb_columns t))"

definition load_order_ok :: "string list \<Rightarrow> bool" where
  "load_order_ok names \<longleftrightarrow>
     list_all (\<lambda>i. case table_for (names ! i) of Inl _ \<Rightarrow> False
                   | Inr t \<Rightarrow> list_all (\<lambda>n. n \<in> set names \<longrightarrow> n \<in> set (take (Suc i) names)) (foreign_tables t)) [0..<length names]"

text \<open>The export order of the tables is a load order: every foreign key of an exported table that
  leads to an exported table leads to one listed before it, or to itself.\<close>

theorem table_files_load_order: "load_order_ok (map fst TABLE_FILES)"
  by code_simp


lemma filterE_eq: "filterE P xs = Inr ys \<Longrightarrow> ys = filter (\<lambda>x. P x = Inr True) xs"
  by (induction xs arbitrary: ys) auto

lemma max_revision_spec:
  assumes "max_revision rows = Inr m"
  shows "case m of None \<Rightarrow> rows = []
     | Some r \<Rightarrow> r \<in> set rows \<and> (\<forall>q\<in>set rows. revision_of q \<le> revision_of r)"
proof (cases rows)
  case (Cons r rs)
  have "m = Some (max_by revision_of r rs)" using assms by (auto simp: max_revision_def Cons split: if_splits)
  then show ?thesis
    using max_by_in[of revision_of r rs] max_by_ge[of _ rs revision_of r] max_by_ge_base[of revision_of r rs]
    by (auto simp: Cons)
qed (use assms in \<open>auto simp: max_revision_def\<close>)

text \<open>\<open>latest_available_manifest\<close> answers \<open>None\<close> exactly when no AVAILABLE manifest of the asked
  feed, layer, resolution, year (and instrument, if one is asked for) is stored, and otherwise the one
  with the highest revision number.\<close>

theorem latest_available_is_newest:
  assumes "records E f c ''market_data.dataset_manifests'' [] = Inr rows"
    and "latest_available_manifest E f c feed layer resn year instrument = Inr found"
  shows "case found of
      None \<Rightarrow> \<forall>r\<in>set rows. manifest_matches f feed layer resn year instrument r \<noteq> Inr True
    | Some m \<Rightarrow> m \<in> set rows \<and> manifest_matches f feed layer resn year instrument m = Inr True \<and>
        (\<forall>r\<in>set rows. manifest_matches f feed layer resn year instrument r = Inr True \<longrightarrow> revision_of r \<le> revision_of m)"
proof -
  obtain ms where ms: "filterE (manifest_matches f feed layer resn year instrument) rows = Inr ms"
      "max_revision ms = Inr found"
    using assms by (auto simp: latest_available_manifest_def)
  have in_ms: "r \<in> set ms \<longleftrightarrow> r \<in> set rows \<and> manifest_matches f feed layer resn year instrument r = Inr True" for r
    using filterE_eq[OF ms(1)] by auto
  show ?thesis
  proof (cases found)
    case None
    then have "ms = []" using max_revision_spec[OF ms(2)] by simp
    then show ?thesis using in_ms None by auto
  next
    case (Some m)
    then show ?thesis using max_revision_spec[OF ms(2)] in_ms by simp
  qed
qed

definition two_revisions :: local_catalog where
  "two_revisions = new_catalog\<lparr>lc_files := [(''dataset-manifests.jsonl'',
     [[(''data_layer'', VStr ''RAW''), (''feed_id'', VStr ''FEED''), (''id'', VStr ''A''),
       (''period_start'', VStr ''1970-01-01T00:00:00Z''), (''resolution'', VStr ''1d''), (''revision_number'', VInt 1),
       (''status'', VStr ''AVAILABLE'')],
      [(''data_layer'', VStr ''RAW''), (''feed_id'', VStr ''FEED''), (''id'', VStr ''B''),
       (''period_start'', VStr ''1970-06-01T00:00:00Z''), (''resolution'', VStr ''1d''), (''revision_number'', VInt 2),
       (''status'', VStr ''AVAILABLE'')]])]\<rparr>"

theorem latest_available_is_newest_witness:
  "\<exists>rows m. records codec_env no_str two_revisions ''market_data.dataset_manifests'' [] = Inr rows \<and>
     latest_available_manifest codec_env no_str two_revisions ''FEED'' ''RAW'' ''1d'' 1970 None = Inr (Some m) \<and>
     m \<in> set rows \<and> (\<forall>r\<in>set rows. manifest_matches no_str ''FEED'' ''RAW'' ''1d'' 1970 None r = Inr True
        \<longrightarrow> revision_of r \<le> revision_of m)"
proof -
  define rows where "rows = snd (hd (lc_files two_revisions))"
  have r: "records codec_env no_str two_revisions ''market_data.dataset_manifests'' [] = Inr rows"
    unfolding rows_def by code_simp
  have l: "latest_available_manifest codec_env no_str two_revisions ''FEED'' ''RAW'' ''1d'' 1970 None = Inr (Some (rows ! 1))"
    unfolding rows_def by code_simp
  show ?thesis using r l latest_available_is_newest[OF r l] by auto
qed

end
