(* ===== verification/Quality.thy ===== *)
theory Quality
  imports Codec Numeric
begin

text \<open>
  \<open>market_pipeline_lib/quality.py\<close>, the value objects: the impact scope an incident may claim, the
  incident row, the finding a detector produces and the way it is attached to a partition.
  A datetime argument is aware or naive; the instants kept are UTC. Texts for humans are built by a
  caller's function (\<open>remark\<close>) where the code writes a sentence.
\<close>

datatype moment = Aware instant | Naive instant

definition utc :: "moment \<Rightarrow> instant res" where
  "utc m = (case m of Aware t \<Rightarrow> Inr t | Naive t \<Rightarrow> Inl ValueError)"

definition QUALITY_POLICY_VERSION :: string where
  "QUALITY_POLICY_VERSION = ''market-data-quality:1.0.0''"

definition QUALITY_INCIDENT_COLUMNS :: "string list" where
  "QUALITY_INCIDENT_COLUMNS =
     [''id'', ''dataset_manifest_id'', ''instrument_id'', ''severity'', ''incident_code'', ''period_start'',
      ''period_end'', ''status'', ''evidence_object_id'', ''detected_at'', ''resolved_at'']"

definition INCIDENT_STATUS_ACTIVE :: string where
  "INCIDENT_STATUS_ACTIVE = ''ACTIVE''"

definition SEVERITIES :: "string list" where
  "SEVERITIES = [''ERROR'', ''WARNING'', ''INFO'']"

text \<open>Bar spans, in microseconds.\<close>

definition BAR_SPAN_MINUTES :: "(string, int) dict" where
  "BAR_SPAN_MINUTES = [(''1m'', 1), (''30m'', 30), (''1h'', 60), (''4h'', 240), (''1d'', 390)]"

definition bar_span :: "string \<Rightarrow> int res" where
  "bar_span resolution =
     (case dget BAR_SPAN_MINUTES resolution of None \<Rightarrow> Inl ValueError | Some m \<Rightarrow> Inr (m * 60000000))"

section \<open>Impact scope\<close>

datatype breadth = BAR_RANGE | INSTRUMENT_PARTITION | OBJECT | PARTITION | MANIFEST

definition instrument_required :: "breadth \<Rightarrow> bool" where
  "instrument_required b \<longleftrightarrow> b \<in> {BAR_RANGE, INSTRUMENT_PARTITION}"

definition instrument_forbidden :: "breadth \<Rightarrow> bool" where
  "instrument_forbidden b \<longleftrightarrow> b \<in> {PARTITION, MANIFEST}"

definition breadth_value :: "breadth \<Rightarrow> string" where
  "breadth_value b =
     (case b of BAR_RANGE \<Rightarrow> ''BAR_RANGE'' | INSTRUMENT_PARTITION \<Rightarrow> ''INSTRUMENT_PARTITION''
      | OBJECT \<Rightarrow> ''OBJECT'' | PARTITION \<Rightarrow> ''PARTITION'' | MANIFEST \<Rightarrow> ''MANIFEST'')"

definition breadth_of :: "string \<Rightarrow> breadth res" where
  "breadth_of s =
     (case find (\<lambda>b. breadth_value b = s) [BAR_RANGE, INSTRUMENT_PARTITION, OBJECT, PARTITION, MANIFEST] of
        None \<Rightarrow> Inl ValueError | Some b \<Rightarrow> Inr b)"

definition partition_utc_window :: "env \<Rightarrow> date \<Rightarrow> date \<Rightarrow> instant \<times> instant" where
  "partition_utc_window E partition_start partition_end = (et_midnight E partition_start, et_midnight E partition_end)"

record impact_scope =
  is_breadth :: breadth
  is_period_start :: instant
  is_period_end :: instant
  is_instrument_id :: "string option"
  is_shard_key :: "string option"
  is_partition_start :: "date option"
  is_partition_end :: "date option"
  is_affected_bar_count :: int
  is_evidence_object_id :: "string option"
  is_manifest_wide_reason :: string

text \<open>\<open>not s\<close> of an optional string.\<close>

definition empty_text :: "string option \<Rightarrow> bool" where
  "empty_text s \<longleftrightarrow> s = None \<or> s = Some []"

definition scope_check :: "env \<Rightarrow> impact_scope \<Rightarrow> impact_scope res" where
  "scope_check E s =
     (let b = is_breadth s; start = is_period_start s; end = is_period_end s in
      if end \<le> start \<or> is_affected_bar_count s < 0
         \<or> instrument_required b \<and> (empty_text (is_instrument_id s) \<or> is_affected_bar_count s < 1)
         \<or> instrument_forbidden b \<and> \<not> empty_text (is_instrument_id s)
         \<or> b = OBJECT \<and> empty_text (is_evidence_object_id s)
      then Inl ValueError
      else if b = MANIFEST then
        (if \<not> empty_text (is_shard_key s) \<or> is_partition_start s \<noteq> None \<or> is_partition_end s \<noteq> None
            \<or> blank (is_manifest_wide_reason s)
         then Inl ValueError else Inr s)
      else if is_manifest_wide_reason s \<noteq> [] \<or> empty_text (is_shard_key s) then Inl ValueError
      else (case (is_partition_start s, is_partition_end s) of
              (Some ps, Some pe) \<Rightarrow>
                (let (lower, upper) = partition_utc_window E ps pe in
                 if pe \<le> ps \<or> start < lower \<or> upper < end then Inl ValueError else Inr s)
            | _ \<Rightarrow> Inl ValueError))"

definition mk_scope ::
  "env \<Rightarrow> breadth \<Rightarrow> moment \<Rightarrow> moment \<Rightarrow> string option \<Rightarrow> string option \<Rightarrow> date option \<Rightarrow> date option \<Rightarrow> int
    \<Rightarrow> string option \<Rightarrow> string \<Rightarrow> impact_scope res" where
  "mk_scope E b start end instrument shard ps pe affected evidence reason =
     bindE (utc start) (\<lambda>s. bindE (utc end) (\<lambda>e.
       scope_check E \<lparr>is_breadth = b, is_period_start = s, is_period_end = e, is_instrument_id = instrument,
         is_shard_key = shard, is_partition_start = ps, is_partition_end = pe, is_affected_bar_count = affected,
         is_evidence_object_id = evidence, is_manifest_wide_reason = reason\<rparr>))"

definition manifest_wide :: "env \<Rightarrow> moment \<Rightarrow> moment \<Rightarrow> string \<Rightarrow> string option \<Rightarrow> int \<Rightarrow> impact_scope res" where
  "manifest_wide E start end reason evidence affected =
     mk_scope E MANIFEST start end None None None None affected evidence reason"

section \<open>Incidents\<close>

record quality_incident =
  qi_incident_code :: string
  qi_severity :: string
  qi_scope :: impact_scope
  qi_detected_at :: instant
  qi_message :: string
  qi_policy_version :: string
  qi_status :: string
  qi_resolved_at :: "instant option"

definition mk_incident ::
  "string \<Rightarrow> string \<Rightarrow> impact_scope \<Rightarrow> moment \<Rightarrow> string \<Rightarrow> string \<Rightarrow> string \<Rightarrow> moment option \<Rightarrow> quality_incident res" where
  "mk_incident code severity scope detected_at message policy status resolved_at =
     bindE (guardE (\<not> blank code) ValueError) (\<lambda>_.
     bindE (guardE (severity \<in> set SEVERITIES) ValueError) (\<lambda>_.
     bindE (utc detected_at) (\<lambda>detected.
     bindE (guardE (\<not> blank status) ValueError) (\<lambda>_.
     bindE (case resolved_at of None \<Rightarrow> Inr None
            | Some m \<Rightarrow> bindE (utc m) (\<lambda>t. if status = INCIDENT_STATUS_ACTIVE then Inl ValueError else Inr (Some t))) (\<lambda>resolved.
       Inr \<lparr>qi_incident_code = code, qi_severity = severity, qi_scope = scope, qi_detected_at = detected,
            qi_message = message, qi_policy_version = policy, qi_status = status, qi_resolved_at = resolved\<rparr>)))))"

text \<open>\<open>str\<close> of the optional parts of the salt.\<close>

definition str_opt :: "string option \<Rightarrow> string" where
  "str_opt s = (case s of None \<Rightarrow> ''None'' | Some x \<Rightarrow> x)"

definition row_id_of :: "env \<Rightarrow> quality_incident \<Rightarrow> string option \<Rightarrow> string" where
  "row_id_of E q manifest_id =
     (let s = qi_scope q in
      deterministic_uuid E
        [''quality-incident'', str_opt manifest_id, qi_incident_code q, breadth_value (is_breadth s),
         str_opt (is_instrument_id s), str_opt (is_shard_key s),
         str_opt (map_option isoformat_date (is_partition_start s)),
         str_opt (map_option isoformat_date (is_partition_end s)),
         iso_utc (is_period_start s), iso_utc (is_period_end s), str_opt (is_evidence_object_id s)])"

definition opt_value :: "string option \<Rightarrow> pyval" where
  "opt_value s = (case s of None \<Rightarrow> VNone | Some x \<Rightarrow> VStr x)"

definition to_db_row :: "env \<Rightarrow> quality_incident \<Rightarrow> string option \<Rightarrow> doc" where
  "to_db_row E q manifest_id =
     (let s = qi_scope q in
      [(''id'', VStr (row_id_of E q manifest_id)), (''dataset_manifest_id'', opt_value manifest_id),
       (''instrument_id'', opt_value (is_instrument_id s)), (''severity'', VStr (qi_severity q)),
       (''incident_code'', VStr (qi_incident_code q)), (''period_start'', VStr (iso_utc (is_period_start s))),
       (''period_end'', VStr (iso_utc (is_period_end s))), (''status'', VStr (qi_status q)),
       (''evidence_object_id'', opt_value (is_evidence_object_id s)), (''detected_at'', VStr (iso_utc (qi_detected_at q))),
       (''resolved_at'', opt_value (map_option iso_utc (qi_resolved_at q)))])"

definition to_report_entry :: "env \<Rightarrow> quality_incident \<Rightarrow> string option \<Rightarrow> doc" where
  "to_report_entry E q manifest_id =
     (let s = qi_scope q in
      to_db_row E q manifest_id @
      [(''message'', VStr (qi_message q)), (''policy_version'', VStr (qi_policy_version q)),
       (''scope_breadth'', VStr (breadth_value (is_breadth s))), (''shard_key'', opt_value (is_shard_key s)),
       (''partition_start'', opt_value (map_option isoformat_date (is_partition_start s))),
       (''partition_end'', opt_value (map_option isoformat_date (is_partition_end s))),
       (''affected_bar_count'', VInt (is_affected_bar_count s)),
       (''manifest_wide_reason'', if is_manifest_wide_reason s = [] then VNone else VStr (is_manifest_wide_reason s))])"

definition content_hash_mismatch_incident ::
  "env \<Rightarrow> string \<Rightarrow> string \<Rightarrow> string \<Rightarrow> date \<Rightarrow> date \<Rightarrow> moment \<Rightarrow> moment \<Rightarrow> moment \<Rightarrow> string option \<Rightarrow> quality_incident res" where
  "content_hash_mismatch_incident E object_id message shard ps pe start end detected_at instrument =
     bindE (mk_scope E OBJECT start end instrument (Some shard) (Some ps) (Some pe) 0 (Some object_id) []) (\<lambda>scope.
       mk_incident ''CONTENT_HASH_MISMATCH'' ''ERROR'' scope detected_at message QUALITY_POLICY_VERSION
         INCIDENT_STATUS_ACTIVE None)"

section \<open>Findings\<close>

record finding =
  fd_code :: string
  fd_severity :: string
  fd_message :: string
  fd_policy_version :: string
  fd_breadth :: breadth
  fd_instrument_id :: "string option"
  fd_period_start :: "instant option"
  fd_period_end :: "instant option"
  fd_affected_bar_count :: int

definition as_issue :: "finding \<Rightarrow> doc" where
  "as_issue f =
     [(''severity'', VStr (fd_severity f)), (''code'', VStr (fd_code f)), (''message'', VStr (fd_message f)),
      (''scope_breadth'', VStr (breadth_value (fd_breadth f))), (''instrument_id'', opt_value (fd_instrument_id f)),
      (''period_start'', opt_value (map_option iso_utc (fd_period_start f))),
      (''period_end'', opt_value (map_option iso_utc (fd_period_end f))),
      (''affected_bar_count'', VInt (fd_affected_bar_count f)), (''policy_version'', VStr (fd_policy_version f))]"

definition opt_default :: "instant option \<Rightarrow> instant \<Rightarrow> instant" where
  "opt_default v d = (case v of None \<Rightarrow> d | Some x \<Rightarrow> x)"

definition with_scope ::
  "env \<Rightarrow> (string \<Rightarrow> instant \<Rightarrow> instant \<Rightarrow> string) \<Rightarrow> finding \<Rightarrow> string \<Rightarrow> date \<Rightarrow> date \<Rightarrow> moment \<Rightarrow> string option
    \<Rightarrow> quality_incident res" where
  "with_scope E remark f shard ps pe detected_at evidence =
     (let (lower, upper) = partition_utc_window E ps pe;
          start = opt_default (fd_period_start f) lower;
          end = opt_default (fd_period_end f) upper;
          outside = min end upper \<le> max start lower;
          (s, e) = (if outside then (lower, upper) else (max start lower, min end upper));
          b0 = (if outside then PARTITION else fd_breadth f);
          i0 = (if outside then None else fd_instrument_id f);
          message = (if outside then remark (fd_message f) start end else fd_message f);
          b1 = (if instrument_required b0 \<and> empty_text i0 then PARTITION else b0);
          i1 = (if instrument_forbidden b1 then None else i0);
          (b2, i2) = (if b1 = OBJECT \<and> empty_text evidence then (PARTITION, None) else (b1, i1));
          affected = (if instrument_required b2 then max 1 (fd_affected_bar_count f) else fd_affected_bar_count f)
      in bindE (mk_scope E b2 (Aware s) (Aware e) i2 (Some shard) (Some ps) (Some pe) affected evidence []) (\<lambda>scope.
           mk_incident (fd_code f) (fd_severity f) scope detected_at message (fd_policy_version f)
             INCIDENT_STATUS_ACTIVE None))"

definition scoped_incidents ::
  "env \<Rightarrow> (string \<Rightarrow> instant \<Rightarrow> instant \<Rightarrow> string) \<Rightarrow> finding list \<Rightarrow> string \<Rightarrow> date \<Rightarrow> date \<Rightarrow> moment \<Rightarrow> string option
    \<Rightarrow> quality_incident list res" where
  "scoped_incidents E remark fs shard ps pe detected_at evidence =
     mapE (\<lambda>f. with_scope E remark f shard ps pe detected_at evidence) fs"

section \<open>From the engine's issue dictionaries\<close>

definition object_text :: "(pyobj \<Rightarrow> string) \<Rightarrow> pyobj \<Rightarrow> string" where
  "object_text str_of v = (case v of OVal (VStr s) \<Rightarrow> s | x \<Rightarrow> str_of x)"

definition truthy :: "pyobj \<Rightarrow> bool" where
  "truthy v =
     (case v of
        OVal VNone \<Rightarrow> False | OVal (VBool b) \<Rightarrow> b | OVal (VInt n) \<Rightarrow> n \<noteq> 0 | OVal (VFloat r) \<Rightarrow> r \<noteq> 0
      | OVal (VDec r) \<Rightarrow> r \<noteq> 0 | OVal (VStr s) \<Rightarrow> s \<noteq> [] | OVal (VList l) \<Rightarrow> l \<noteq> [] | OVal (VMap d) \<Rightarrow> d \<noteq> []
      | _ \<Rightarrow> True)"

definition issue_get :: "obj_record \<Rightarrow> string \<Rightarrow> pyobj" where
  "issue_get issue k = (case dget issue k of None \<Rightarrow> OVal VNone | Some v \<Rightarrow> v)"

definition issue_item :: "obj_record \<Rightarrow> string \<Rightarrow> pyobj res" where
  "issue_item issue k = (case dget issue k of None \<Rightarrow> Inl KeyError | Some v \<Rightarrow> Inr v)"

definition issue_or :: "obj_record \<Rightarrow> string \<Rightarrow> pyobj \<Rightarrow> pyobj" where
  "issue_or issue k d = (if truthy (issue_get issue k) then issue_get issue k else d)"

definition issue_datetime :: "env \<Rightarrow> (pyobj \<Rightarrow> string) \<Rightarrow> pyobj \<Rightarrow> instant option res" where
  "issue_datetime E str_of v =
     (if v = OVal VNone \<or> v = OVal (VStr []) then Inr None
      else case v of
          OAware t \<Rightarrow> Inr (Some t)
        | ONaive t \<Rightarrow> Inl ValueError
        | x \<Rightarrow> (case fromisoformat E (replace_Z (object_text str_of x)) of IsoAware t \<Rightarrow> Inr (Some t) | _ \<Rightarrow> Inl ValueError))"

definition issue_date :: "env \<Rightarrow> (pyobj \<Rightarrow> string) \<Rightarrow> pyobj \<Rightarrow> date res" where
  "issue_date E str_of v =
     (case v of
        ODate d \<Rightarrow> Inr d
      | x \<Rightarrow>
          if \<not> truthy x then Inl ValueError
          else (case date_fromisoformat E (object_text str_of x) of None \<Rightarrow> Inl ValueError | Some d \<Rightarrow> Inr d))"

definition truncate :: "rat \<Rightarrow> int" where
  "truncate r = (if r < 0 then \<lceil>r\<rceil> else \<lfloor>r\<rfloor>)"

definition issue_int :: "pyobj \<Rightarrow> int res" where
  "issue_int v =
     (case v of
        OVal (VInt n) \<Rightarrow> Inr n
      | OVal (VBool b) \<Rightarrow> Inr (if b then 1 else 0)
      | OVal (VFloat r) \<Rightarrow> Inr (truncate r)
      | OVal (VDec r) \<Rightarrow> Inr (truncate r)
      | OVal (VStr s) \<Rightarrow> (case py_int s of None \<Rightarrow> Inl ValueError | Some n \<Rightarrow> Inr n)
      | _ \<Rightarrow> Inl TypeError)"

text \<open>An instrument or evidence id is a text or absent; anything else is carried as its text.\<close>

definition issue_text :: "(pyobj \<Rightarrow> string) \<Rightarrow> pyobj \<Rightarrow> string option" where
  "issue_text str_of v = (if v = OVal VNone then None else Some (object_text str_of v))"

definition finding_of_issue :: "env \<Rightarrow> (pyobj \<Rightarrow> string) \<Rightarrow> obj_record \<Rightarrow> finding res" where
  "finding_of_issue E str_of issue =
     bindE (issue_item issue ''code'') (\<lambda>code.
     bindE (issue_item issue ''severity'') (\<lambda>severity.
     bindE (breadth_of (object_text str_of (issue_or issue ''scope_breadth'' (OVal (VStr ''PARTITION''))))) (\<lambda>breadth.
     bindE (issue_datetime E str_of (issue_get issue ''period_start'')) (\<lambda>start.
     bindE (issue_datetime E str_of (issue_get issue ''period_end'')) (\<lambda>end.
     bindE (issue_int (issue_or issue ''affected_bar_count'' (OVal (VInt 0)))) (\<lambda>affected.
       Inr \<lparr>fd_code = object_text str_of code, fd_severity = object_text str_of severity,
            fd_message = (case dget issue ''message'' of None \<Rightarrow> [] | Some m \<Rightarrow> object_text str_of m),
            fd_policy_version = object_text str_of (issue_or issue ''policy_version'' (OVal (VStr QUALITY_POLICY_VERSION))),
            fd_breadth = breadth, fd_instrument_id = issue_text str_of (issue_get issue ''instrument_id''),
            fd_period_start = start, fd_period_end = end, fd_affected_bar_count = affected\<rparr>))))))"

definition incident_from_issue ::
  "env \<Rightarrow> (pyobj \<Rightarrow> string) \<Rightarrow> (string \<Rightarrow> instant \<Rightarrow> instant \<Rightarrow> string) \<Rightarrow> obj_record \<Rightarrow> moment \<Rightarrow> string option
    \<Rightarrow> quality_incident res" where
  "incident_from_issue E str_of remark issue detected_at evidence =
     bindE (finding_of_issue E str_of issue) (\<lambda>f.
       let shard = issue_get issue ''shard_key'' in
       if \<not> truthy shard then Inl ValueError
       else
         bindE (issue_date E str_of (issue_get issue ''partition_start'')) (\<lambda>ps.
         bindE (issue_date E str_of (issue_get issue ''partition_end'')) (\<lambda>pe.
           with_scope E remark f (object_text str_of shard) ps pe detected_at
             (if empty_text evidence then issue_text str_of (issue_get issue ''object_id'') else evidence))))"

definition incident_row_from_issue where
  "incident_row_from_issue E str_of remark issue manifest_id detected_at evidence =
     bindE (incident_from_issue E str_of remark issue detected_at evidence) (\<lambda>q. Inr (to_db_row E q manifest_id))"

definition incident_report_from_issue where
  "incident_report_from_issue E str_of remark issue manifest_id detected_at evidence =
     bindE (incident_from_issue E str_of remark issue detected_at evidence) (\<lambda>q. Inr (to_report_entry E q manifest_id))"

text \<open>
  Persisting: \<open>record\<close> is \<open>record_quality_incident\<close> of the catalog, which may raise; the rows written
  before that stay written.
\<close>

fun record_from :: "env \<Rightarrow> (doc \<Rightarrow> 's \<Rightarrow> unit res \<times> 's) \<Rightarrow> string option \<Rightarrow> string list \<Rightarrow> nat \<Rightarrow> quality_incident list \<Rightarrow> 's \<Rightarrow> nat res \<times> 's" where
  "record_from E record manifest_id seen written [] s = (Inr written, s)"
| "record_from E record manifest_id seen written (q # qs) s =
     (let i = row_id_of E q manifest_id in
      if i \<in> set seen then record_from E record manifest_id seen written qs s
      else (case record (to_db_row E q manifest_id) s of
              (Inl e, s') \<Rightarrow> (Inl e, s')
            | (Inr _, s') \<Rightarrow> record_from E record manifest_id (i # seen) (Suc written) qs s'))"

definition record_quality_incidents ::
  "env \<Rightarrow> (doc \<Rightarrow> 's \<Rightarrow> unit res \<times> 's) \<Rightarrow> quality_incident list \<Rightarrow> string option \<Rightarrow> 's \<Rightarrow> nat res \<times> 's" where
  "record_quality_incidents E record qs manifest_id s = record_from E record manifest_id [] 0 qs s"

definition record_issue_incidents ::
  "env \<Rightarrow> (pyobj \<Rightarrow> string) \<Rightarrow> (string \<Rightarrow> instant \<Rightarrow> instant \<Rightarrow> string) \<Rightarrow> (doc \<Rightarrow> 's \<Rightarrow> unit res \<times> 's) \<Rightarrow> obj_record list
    \<Rightarrow> string option \<Rightarrow> moment \<Rightarrow> 's \<Rightarrow> nat res \<times> 's" where
  "record_issue_incidents E str_of remark record issues manifest_id detected_at s =
     (case mapE (\<lambda>i. incident_from_issue E str_of remark i detected_at None) issues of
        Inl e \<Rightarrow> (Inl e, s)
      | Inr qs \<Rightarrow> record_quality_incidents E record qs manifest_id s)"

section \<open>Scoping never widens a claim\<close>

text \<open>What every constructed scope satisfies.\<close>

definition scope_ok :: "env \<Rightarrow> impact_scope \<Rightarrow> bool" where
  "scope_ok E s \<longleftrightarrow> scope_check E s = Inr s"

lemma scope_check_same: "scope_check E s = Inr s' \<Longrightarrow> s' = s"
  by (auto simp: scope_check_def Let_def split: if_splits option.splits prod.splits)

lemma mk_scope_ok: "mk_scope E b st en i sh ps pe n ev r = Inr s \<Longrightarrow> scope_ok E s"
  using scope_check_same by (fastforce simp: mk_scope_def scope_ok_def)

definition breadth_le :: "breadth \<Rightarrow> breadth \<Rightarrow> bool" where
  "breadth_le b b' \<longleftrightarrow> b = b' \<or> b = PARTITION"


lemma scope_check_partitioned:
  assumes "b \<noteq> MANIFEST" "st < en" "0 \<le> n" "sh \<noteq> []" "ps < pe" "et_midnight E ps \<le> st" "en \<le> et_midnight E pe"
    and "instrument_required b \<Longrightarrow> \<not> empty_text i \<and> 1 \<le> n" "b = PARTITION \<Longrightarrow> empty_text i" "b = OBJECT \<Longrightarrow> \<not> empty_text ev"
  shows "mk_scope E b (Aware st) (Aware en) i (Some sh) (Some ps) (Some pe) n ev [] =
    Inr \<lparr>is_breadth = b, is_period_start = st, is_period_end = en, is_instrument_id = i, is_shard_key = Some sh,
         is_partition_start = Some ps, is_partition_end = Some pe, is_affected_bar_count = n,
         is_evidence_object_id = ev, is_manifest_wide_reason = []\<rparr>"
  using assms
  by (auto simp: mk_scope_def utc_def scope_check_def Let_def partition_utc_window_def instrument_forbidden_def
      empty_text_def)

lemma mk_incident_active:
  "\<not> blank code \<Longrightarrow> sev \<in> set SEVERITIES \<Longrightarrow>
   mk_incident code sev scope (Aware t) msg pol INCIDENT_STATUS_ACTIVE None =
     Inr \<lparr>qi_incident_code = code, qi_severity = sev, qi_scope = scope, qi_detected_at = t, qi_message = msg,
          qi_policy_version = pol, qi_status = INCIDENT_STATUS_ACTIVE, qi_resolved_at = None\<rparr>"
proof -
  have "\<not> blank INCIDENT_STATUS_ACTIVE" by code_simp
  then show "\<not> blank code \<Longrightarrow> sev \<in> set SEVERITIES \<Longrightarrow> ?thesis" by (simp add: mk_incident_def utc_def)
qed

lemma with_scope_narrow:
  assumes b: "fd_breadth f \<noteq> MANIFEST" and code: "\<not> blank (fd_code f)" and sev: "fd_severity f \<in> set SEVERITIES"
    and sh: "shard \<noteq> []" and p: "ps < pe" and w: "et_midnight E ps < et_midnight E pe" and n: "0 \<le> fd_affected_bar_count f"
  shows "\<exists>q s. with_scope E remark f shard ps pe (Aware t) evidence = Inr q \<and> s = qi_scope q \<and> scope_ok E s \<and>
    qi_incident_code q = fd_code f \<and> qi_severity q = fd_severity f \<and>
    is_shard_key s = Some shard \<and> is_partition_start s = Some ps \<and> is_partition_end s = Some pe \<and>
    (let start = opt_default (fd_period_start f) (et_midnight E ps); end = opt_default (fd_period_end f) (et_midnight E pe)
     in if max start (et_midnight E ps) < min end (et_midnight E pe)
        then is_period_start s = max start (et_midnight E ps) \<and> is_period_end s = min end (et_midnight E pe)
        else is_period_start s = et_midnight E ps \<and> is_period_end s = et_midnight E pe \<and> is_breadth s = PARTITION) \<and>
    (is_breadth s = fd_breadth f \<or> is_breadth s = PARTITION) \<and>
    (is_instrument_id s = fd_instrument_id f \<or> is_instrument_id s = None)"
proof -
  define start where "start = opt_default (fd_period_start f) (et_midnight E ps)"
  define en where "en = opt_default (fd_period_end f) (et_midnight E pe)"
  define outside where "outside \<longleftrightarrow> min en (et_midnight E pe) \<le> max start (et_midnight E ps)"
  define s where "s = (if outside then et_midnight E ps else max start (et_midnight E ps))"
  define e where "e = (if outside then et_midnight E pe else min en (et_midnight E pe))"
  define b0 where "b0 = (if outside then PARTITION else fd_breadth f)"
  define i0 where "i0 = (if outside then None else fd_instrument_id f)"
  define b1 where "b1 = (if instrument_required b0 \<and> empty_text i0 then PARTITION else b0)"
  define i1 where "i1 = (if instrument_forbidden b1 then None else i0)"
  define b2 where "b2 = (if b1 = OBJECT \<and> empty_text evidence then PARTITION else b1)"
  define i2 where "i2 = (if b1 = OBJECT \<and> empty_text evidence then None else i1)"
  define n2 where "n2 = (if instrument_required b2 then max 1 (fd_affected_bar_count f) else fd_affected_bar_count f)"
  define msg where "msg = (if outside then remark (fd_message f) start en else fd_message f)"
  have run: "with_scope E remark f shard ps pe (Aware t) evidence =
      bindE (mk_scope E b2 (Aware s) (Aware e) i2 (Some shard) (Some ps) (Some pe) n2 evidence []) (\<lambda>scope.
        mk_incident (fd_code f) (fd_severity f) scope (Aware t) msg (fd_policy_version f) INCIDENT_STATUS_ACTIVE None)"
    unfolding with_scope_def partition_utc_window_def Let_def n2_def b2_def i2_def i1_def b1_def i0_def b0_def e_def s_def
      outside_def start_def en_def msg_def by (simp split: prod.splits if_splits)
  have per: "s < e" "et_midnight E ps \<le> s" "e \<le> et_midnight E pe" using w by (auto simp: s_def e_def outside_def)
  have b2: "b2 = fd_breadth f \<or> b2 = PARTITION" "outside \<Longrightarrow> b2 = PARTITION" "b2 \<noteq> MANIFEST"
    using b by (auto simp: b2_def b1_def b0_def instrument_required_def)
  have i2: "i2 = fd_instrument_id f \<or> i2 = None" by (auto simp: i2_def i1_def i0_def)
  have req: "instrument_required b2 \<Longrightarrow> \<not> empty_text i2 \<and> 1 \<le> n2"
    by (auto simp: b2_def i2_def n2_def b1_def i1_def instrument_required_def instrument_forbidden_def split: if_splits)
  have forb: "b2 = PARTITION \<Longrightarrow> empty_text i2"
    by (auto simp: b2_def i2_def i1_def instrument_forbidden_def empty_text_def split: if_splits)
  have ev: "b2 = OBJECT \<Longrightarrow> \<not> empty_text evidence" by (auto simp: b2_def split: if_splits)
  define S where "S = \<lparr>is_breadth = b2, is_period_start = s, is_period_end = e, is_instrument_id = i2,
      is_shard_key = Some shard, is_partition_start = Some ps, is_partition_end = Some pe, is_affected_bar_count = n2,
      is_evidence_object_id = evidence, is_manifest_wide_reason = []\<rparr>"
  have "0 \<le> n2" using n by (simp add: n2_def max_def)
  then have scope: "mk_scope E b2 (Aware s) (Aware e) i2 (Some shard) (Some ps) (Some pe) n2 evidence [] = Inr S"
    unfolding S_def by (intro scope_check_partitioned b2(3) per sh p req forb ev)
  define Q where "Q = \<lparr>qi_incident_code = fd_code f, qi_severity = fd_severity f, qi_scope = S, qi_detected_at = t,
      qi_message = msg, qi_policy_version = fd_policy_version f, qi_status = INCIDENT_STATUS_ACTIVE, qi_resolved_at = None\<rparr>"
  have "with_scope E remark f shard ps pe (Aware t) evidence = Inr Q"
    unfolding run scope bindE_simps mk_incident_active[OF code sev] Q_def ..
  moreover have "scope_ok E S" using mk_scope_ok[OF scope] by (simp add: S_def)
  moreover have "is_period_start S = s" "is_period_end S = e" "is_breadth S = b2" "is_instrument_id S = i2"
      "is_shard_key S = Some shard" "is_partition_start S = Some ps" "is_partition_end S = Some pe"
      "qi_scope Q = S" "qi_incident_code Q = fd_code f" "qi_severity Q = fd_severity f"
    by (simp_all add: S_def Q_def)
  moreover have "max start (et_midnight E ps) < min en (et_midnight E pe) \<longleftrightarrow> \<not> outside"
    by (simp add: outside_def not_le)
  ultimately show ?thesis
    using b2 i2 unfolding Let_def start_def[symmetric] en_def[symmetric]
    by (intro exI[of _ Q] exI[of _ S]) (simp add: s_def e_def)
qed


definition scoped_issue :: "finding \<Rightarrow> string \<Rightarrow> date \<Rightarrow> date \<Rightarrow> obj_record" where
  "scoped_issue f shard ps pe =
     as_record_of (as_issue f @ [(''shard_key'', VStr shard), (''partition_start'', VStr (isoformat_date ps)),
       (''partition_end'', VStr (isoformat_date pe))])"

definition period_texts :: "env \<Rightarrow> instant option \<Rightarrow> bool" where
  "period_texts E v = (case v of None \<Rightarrow> True | Some t \<Rightarrow> fromisoformat E (iso_body t @ ''+00:00'') = IsoAware t)"

lemma iso_utc_nonempty: "iso_utc t \<noteq> []"
  by (simp add: iso_utc_split)

lemma isoformat_date_nonempty: "isoformat_date d \<noteq> []"
  by (simp add: isoformat_date_def)

lemma issue_datetime_iso:
  "period_texts E v \<Longrightarrow> issue_datetime E str_of (OVal (opt_value (map_option iso_utc v))) = Inr v"
  by (cases v) (auto simp: issue_datetime_def opt_value_def object_text_def replace_Z_iso period_texts_def iso_utc_nonempty)

lemma breadth_roundtrip: "breadth_of (breadth_value b) = Inr b"
  by (cases b) (simp_all add: breadth_of_def breadth_value_def)

lemma breadth_value_nonempty: "breadth_value b \<noteq> []"
  by (cases b) (simp_all add: breadth_value_def)

lemma finding_of_scoped_issue:
  assumes "period_texts E (fd_period_start f)" "period_texts E (fd_period_end f)" "fd_policy_version f \<noteq> []"
  shows "finding_of_issue E str_of (scoped_issue f shard ps pe) = Inr f"
proof -
  have get: "issue_get (scoped_issue f shard ps pe) ''scope_breadth'' = OVal (VStr (breadth_value (fd_breadth f)))"
      "issue_get (scoped_issue f shard ps pe) ''period_start'' = OVal (opt_value (map_option iso_utc (fd_period_start f)))"
      "issue_get (scoped_issue f shard ps pe) ''period_end'' = OVal (opt_value (map_option iso_utc (fd_period_end f)))"
      "issue_get (scoped_issue f shard ps pe) ''affected_bar_count'' = OVal (VInt (fd_affected_bar_count f))"
      "issue_get (scoped_issue f shard ps pe) ''policy_version'' = OVal (VStr (fd_policy_version f))"
      "issue_get (scoped_issue f shard ps pe) ''instrument_id'' = OVal (opt_value (fd_instrument_id f))"
    by (simp_all add: issue_get_def scoped_issue_def as_issue_def as_record_of_def)
  have item: "issue_item (scoped_issue f shard ps pe) ''code'' = Inr (OVal (VStr (fd_code f)))"
      "issue_item (scoped_issue f shard ps pe) ''severity'' = Inr (OVal (VStr (fd_severity f)))"
      "dget (scoped_issue f shard ps pe) ''message'' = Some (OVal (VStr (fd_message f)))"
    by (simp_all add: issue_item_def scoped_issue_def as_issue_def as_record_of_def)
  have orr: "issue_or (scoped_issue f shard ps pe) ''scope_breadth'' d = OVal (VStr (breadth_value (fd_breadth f)))"
      "issue_or (scoped_issue f shard ps pe) ''policy_version'' d = OVal (VStr (fd_policy_version f))"
      "issue_int (issue_or (scoped_issue f shard ps pe) ''affected_bar_count'' (OVal (VInt 0))) = Inr (fd_affected_bar_count f)" for d
    using assms(3) by (auto simp: issue_or_def get truthy_def breadth_value_nonempty issue_int_def)
  have inst: "issue_text str_of (OVal (opt_value (fd_instrument_id f))) = fd_instrument_id f"
    by (cases "fd_instrument_id f") (simp_all add: issue_text_def opt_value_def object_text_def)
  show ?thesis
    unfolding finding_of_issue_def item get orr inst issue_datetime_iso[OF assms(1)] issue_datetime_iso[OF assms(2)] bindE_simps
    by (simp add: object_text_def breadth_roundtrip)
qed

text \<open>The engine's flat issue dictionary loses nothing: rebuilding an incident from \<open>as_issue\<close> of a
  finding, with shard and partition merged in, is the same as attaching them to the finding directly.\<close>

theorem issue_roundtrip:
  assumes "period_texts E (fd_period_start f)" "period_texts E (fd_period_end f)" "fd_policy_version f \<noteq> []"
    and "date_fromisoformat E (isoformat_date ps) = Some ps" "date_fromisoformat E (isoformat_date pe) = Some pe"
    and "shard \<noteq> []" "evidence \<noteq> Some []"
  shows "incident_from_issue E str_of remark (scoped_issue f shard ps pe) detected_at evidence
       = with_scope E remark f shard ps pe detected_at evidence"
proof -
  have get: "issue_get (scoped_issue f shard ps pe) ''shard_key'' = OVal (VStr shard)"
      "issue_get (scoped_issue f shard ps pe) ''partition_start'' = OVal (VStr (isoformat_date ps))"
      "issue_get (scoped_issue f shard ps pe) ''partition_end'' = OVal (VStr (isoformat_date pe))"
      "issue_get (scoped_issue f shard ps pe) ''object_id'' = OVal VNone"
    by (simp_all add: issue_get_def scoped_issue_def as_issue_def as_record_of_def)
  have dates: "issue_date E str_of (OVal (VStr (isoformat_date ps))) = Inr ps"
      "issue_date E str_of (OVal (VStr (isoformat_date pe))) = Inr pe"
    using assms(4,5) by (simp_all add: issue_date_def truthy_def isoformat_date_nonempty object_text_def)
  have "(if empty_text evidence then issue_text str_of (OVal VNone) else evidence) = evidence"
    using assms(7) by (auto simp: empty_text_def issue_text_def)
  then show ?thesis
    unfolding incident_from_issue_def finding_of_scoped_issue[OF assms(1-3)] bindE_simps get dates Let_def
    using assms(6) by (simp add: truthy_def object_text_def)
qed


definition demo_finding :: finding where
  "demo_finding = \<lparr>fd_code = ''MISSING_BARS'', fd_severity = ''WARNING'', fd_message = [], fd_policy_version = ''missing-bar:1.0.0'',
     fd_breadth = BAR_RANGE, fd_instrument_id = Some ''A'', fd_period_start = Some 0, fd_period_end = Some 1,
     fd_affected_bar_count = 1\<rparr>"

definition issue_env :: env where
  "issue_env = codec_env\<lparr>fromisoformat := (\<lambda>s. if s = ''1970-01-01T00:00:00+00:00'' then IsoAware 0
       else if s = ''1970-01-01T00:00:00.000001+00:00'' then IsoAware 1 else IsoInvalid),
     date_fromisoformat := (\<lambda>s. if s = ''1970-01-01'' then Some 719163 else if s = ''1970-01-02'' then Some 719164 else None)\<rparr>"

definition plain_note :: "string \<Rightarrow> instant \<Rightarrow> instant \<Rightarrow> string" where
  "plain_note m _ _ = m"

theorem issue_roundtrip_witness:
  "incident_from_issue issue_env no_str plain_note (scoped_issue demo_finding ''shard-0'' 719163 719164) (Aware 5) None
     = with_scope issue_env plain_note demo_finding ''shard-0'' 719163 719164 (Aware 5) None"
proof (rule issue_roundtrip)
  show "period_texts issue_env (fd_period_start demo_finding)" by code_simp
  show "period_texts issue_env (fd_period_end demo_finding)" by code_simp
  show "date_fromisoformat issue_env (isoformat_date 719163) = Some 719163" by code_simp
  show "date_fromisoformat issue_env (isoformat_date 719164) = Some 719164" by code_simp
qed (simp_all add: demo_finding_def)


end
