(* ===== verification/Quality_Detectors.thy ===== *)
theory Quality_Detectors
  imports Quality
begin

text \<open>
  \<open>market_pipeline_lib/quality.py\<close>, the detectors, and \<open>processing.quality_findings\<close> that composes
  them. A bar frame is the list of its rows in delivery order. Parameters are what the trading calendar
  library answers (\<open>session_windows\<close>, \<open>cal_date\<close>) and numpy's logarithm; prices are binary64 values,
  so ratios are rounded with \<open>float64\<close>. The sentences of the messages are built by \<open>say\<close>.
\<close>

datatype fval = Fin rat | PInf | NInf | NaN

record bar =
  b_instrument :: string
  b_start :: instant
  b_session :: date
  b_open :: fval
  b_high :: fval
  b_low :: fval
  b_close :: fval
  b_volume :: int
  b_trade_count :: "int option"
  b_source_minutes :: int

record calendar_env =
  session_windows :: "date \<Rightarrow> date \<Rightarrow> (instant \<times> instant) list"
  cal_date :: "instant \<Rightarrow> date"
  abs_log_return :: "rat \<Rightarrow> rat \<Rightarrow> rat"

type_synonym say = "string \<Rightarrow> string \<Rightarrow> nat \<Rightarrow> instant \<Rightarrow> instant \<Rightarrow> string"

section \<open>Policies\<close>

definition flt :: "rat \<Rightarrow> rat" where
  "flt x = (case float64 x of None \<Rightarrow> x | Some r \<Rightarrow> r)"

record price_outlier_policy =
  po_version :: string
  po_max_abs_log_return :: rat
  po_max_intrabar_range_ratio :: rat

definition PRICE_OUTLIER_POLICY :: price_outlier_policy where
  "PRICE_OUTLIER_POLICY = \<lparr>po_version = ''price-outlier:1.0.0'', po_max_abs_log_return = flt (3 / 10),
     po_max_intrabar_range_ratio = flt (1 / 5)\<rparr>"

record volume_policy =
  vp_version :: string
  vp_spike_multiple :: rat
  vp_spike_reference_min_bars :: nat

definition VOLUME_POLICY :: volume_policy where
  "VOLUME_POLICY = \<lparr>vp_version = ''volume-anomaly:1.0.0'', vp_spike_multiple = 50, vp_spike_reference_min_bars = 20\<rparr>"

record severity_policy =
  sp_version :: string
  sp_severity :: string

definition MISSING_BAR_POLICY :: severity_policy where
  "MISSING_BAR_POLICY = \<lparr>sp_version = ''missing-bar:1.0.0'', sp_severity = ''WARNING''\<rparr>"

definition ORDERING_POLICY :: severity_policy where
  "ORDERING_POLICY = \<lparr>sp_version = ''bar-ordering:1.0.0'', sp_severity = ''WARNING''\<rparr>"

section \<open>Runs of offending rows\<close>

fun spans_from :: "int \<Rightarrow> instant \<Rightarrow> instant \<Rightarrow> nat \<Rightarrow> instant list \<Rightarrow> (instant \<times> instant \<times> nat) list" where
  "spans_from width start prev n [] = [(start, prev + width, n)]"
| "spans_from width start prev n (current # rest) =
     (let delta = current - prev in
      if delta = 0 \<or> delta = width then spans_from width start current (Suc n) rest
      else (start, prev + width, n) # spans_from width current current 1 rest)"

fun contiguous_spans :: "int \<Rightarrow> instant list \<Rightarrow> (instant \<times> instant \<times> nat) list" where
  "contiguous_spans width [] = []"
| "contiguous_spans width (t # ts) = spans_from width t t 1 ts"

definition instruments_of :: "bar list \<Rightarrow> string list" where
  "instruments_of bars = dedup_sorted (map b_instrument bars)"

definition group_rows :: "bar list \<Rightarrow> string \<Rightarrow> bar list" where
  "group_rows bars i = filter (\<lambda>b. b_instrument b = i) bars"

definition run_finding :: "say \<Rightarrow> string \<Rightarrow> string \<Rightarrow> string \<Rightarrow> string \<Rightarrow> instant \<times> instant \<times> nat \<Rightarrow> finding" where
  "run_finding say code severity policy i run =
     (case run of (start, end, n) \<Rightarrow>
        \<lparr>fd_code = code, fd_severity = severity, fd_message = say code i n start end, fd_policy_version = policy,
         fd_breadth = BAR_RANGE, fd_instrument_id = Some i, fd_period_start = Some start, fd_period_end = Some end,
         fd_affected_bar_count = int n\<rparr>)"

definition row_findings :: "say \<Rightarrow> string \<Rightarrow> string \<Rightarrow> string \<Rightarrow> int \<Rightarrow> bar list \<Rightarrow> finding list" where
  "row_findings say code severity policy width bad =
     concat (map (\<lambda>i. map (run_finding say code severity policy i)
                        (contiguous_spans width (sort (map b_start (group_rows bad i))))) (instruments_of bad))"

section \<open>Detectors\<close>

definition detect_duplicate_bars :: "say \<Rightarrow> bar list \<Rightarrow> int \<Rightarrow> finding list" where
  "detect_duplicate_bars say frame width =
     row_findings say ''DUPLICATE_BAR'' ''ERROR'' QUALITY_POLICY_VERSION width
       (filter (\<lambda>b. 1 < length (filter (\<lambda>c. b_instrument c = b_instrument b \<and> b_start c = b_start b) frame)) frame)"

fun descents :: "instant list \<Rightarrow> (instant \<times> instant) list" where
  "descents (t # u # ts) = (if t \<le> u then descents (u # ts) else (t, u) # descents (u # ts))"
| "descents _ = []"

definition descent_finding :: "say \<Rightarrow> int \<Rightarrow> string \<Rightarrow> instant \<times> instant \<Rightarrow> finding" where
  "descent_finding say width i pair =
     (case pair of (previous, current) \<Rightarrow>
        \<lparr>fd_code = ''OUT_OF_ORDER_BARS'', fd_severity = sp_severity ORDERING_POLICY,
         fd_message = say ''OUT_OF_ORDER_BARS'' i 2 previous current, fd_policy_version = sp_version ORDERING_POLICY,
         fd_breadth = BAR_RANGE, fd_instrument_id = Some i, fd_period_start = Some current,
         fd_period_end = Some (previous + width), fd_affected_bar_count = 2\<rparr>)"

definition detect_out_of_order_bars :: "say \<Rightarrow> bar list \<Rightarrow> int \<Rightarrow> finding list" where
  "detect_out_of_order_bars say frame width =
     concat (map (\<lambda>i. map (descent_finding say width i) (descents (map b_start (group_rows frame i)))) (instruments_of frame))"

fun fv_le :: "fval \<Rightarrow> fval \<Rightarrow> bool" where
  "fv_le NaN y = False"
| "fv_le x NaN = False"
| "fv_le NInf y = True"
| "fv_le x PInf = True"
| "fv_le (Fin a) (Fin b) = (a \<le> b)"
| "fv_le x y = False"

text \<open>\<open>max(axis=1)\<close> and \<open>min(axis=1)\<close> skip NaN.\<close>

fun fv_max :: "fval list \<Rightarrow> fval" where
  "fv_max [] = NaN"
| "fv_max (x # xs) = (let m = fv_max xs in if x = NaN then m else if m = NaN then x else if fv_le x m then m else x)"

fun fv_min :: "fval list \<Rightarrow> fval" where
  "fv_min [] = NaN"
| "fv_min (x # xs) = (let m = fv_min xs in if x = NaN then m else if m = NaN then x else if fv_le m x then m else x)"

definition finite_positive :: "fval \<Rightarrow> bool" where
  "finite_positive v = (case v of Fin r \<Rightarrow> 0 < r | _ \<Rightarrow> False)"

definition valid_prices :: "bar \<Rightarrow> bool" where
  "valid_prices b \<longleftrightarrow> list_all finite_positive [b_open b, b_high b, b_low b, b_close b]"

definition ohlc_ok :: "bar \<Rightarrow> bool" where
  "ohlc_ok b \<longleftrightarrow> fv_le (fv_max [b_open b, b_close b, b_low b]) (b_high b)
     \<and> fv_le (b_low b) (fv_min [b_open b, b_close b, b_high b])"

definition negative_activity :: "bar \<Rightarrow> bool" where
  "negative_activity b \<longleftrightarrow> b_volume b < 0 \<or> (case b_trade_count b of None \<Rightarrow> False | Some n \<Rightarrow> n < 0)"

definition detect_invalid_values :: "say \<Rightarrow> bar list \<Rightarrow> int \<Rightarrow> finding list" where
  "detect_invalid_values say frame width =
     row_findings say ''INVALID_PRICE'' ''ERROR'' QUALITY_POLICY_VERSION width (filter (\<lambda>b. \<not> valid_prices b) frame)
     @ row_findings say ''INVALID_OHLC'' ''ERROR'' QUALITY_POLICY_VERSION width (filter (\<lambda>b. \<not> ohlc_ok b) frame)
     @ row_findings say ''NEGATIVE_ACTIVITY'' ''ERROR'' QUALITY_POLICY_VERSION width (filter negative_activity frame)"

text \<open>The frame in \<open>(instrument, start)\<close> order, stable; a row is compared with the one before it.\<close>

definition ordered_frame :: "bar list \<Rightarrow> bar list" where
  "ordered_frame frame = sort_key (\<lambda>b. (b_instrument b, b_start b)) frame"

definition return_outlier :: "calendar_env \<Rightarrow> price_outlier_policy \<Rightarrow> bar \<Rightarrow> bar \<Rightarrow> bool" where
  "return_outlier C policy previous b \<longleftrightarrow>
     b_instrument previous = b_instrument b \<and> b_session previous = b_session b \<and>
     (case (b_close previous, b_close b) of
        (Fin p, Fin c) \<Rightarrow> 0 < p \<and> 0 < c \<and> po_max_abs_log_return policy < abs_log_return C p c
      | _ \<Rightarrow> False)"

definition return_outliers :: "calendar_env \<Rightarrow> price_outlier_policy \<Rightarrow> bar list \<Rightarrow> bar list" where
  "return_outliers C policy frame =
     map snd (filter (\<lambda>(p, b). return_outlier C policy p b) (zip (ordered_frame frame) (tl (ordered_frame frame))))"

definition range_outlier :: "price_outlier_policy \<Rightarrow> bar \<Rightarrow> bool" where
  "range_outlier policy b =
     (case (b_low b, b_high b) of
        (Fin l, Fin h) \<Rightarrow>
          0 < l \<and>
          (case float64 (h - l) of
             None \<Rightarrow> l < h
           | Some d \<Rightarrow> (case float64 (d / l) of None \<Rightarrow> 0 < d | Some r \<Rightarrow> po_max_intrabar_range_ratio policy < r))
      | _ \<Rightarrow> False)"

definition detect_price_outliers :: "calendar_env \<Rightarrow> say \<Rightarrow> bar list \<Rightarrow> int \<Rightarrow> price_outlier_policy \<Rightarrow> finding list" where
  "detect_price_outliers C say frame width policy =
     row_findings say ''PRICE_OUTLIER_RETURN'' ''WARNING'' (po_version policy) width (return_outliers C policy frame)
     @ row_findings say ''PRICE_OUTLIER_RANGE'' ''WARNING'' (po_version policy) width (filter (range_outlier policy) frame)"

definition median_volume :: "int list \<Rightarrow> rat" where
  "median_volume vs =
     (let s = sort vs; n = length vs in
      if odd n then flt (of_int (s ! (n div 2)))
      else flt (flt (of_int (s ! (n div 2 - 1))) + flt (of_int (s ! (n div 2)))) / 2)"

definition volume_spike :: "volume_policy \<Rightarrow> bar list \<Rightarrow> bar \<Rightarrow> bool" where
  "volume_spike policy frame b =
     (let vs = map b_volume (group_rows frame (b_instrument b)) in
      vp_spike_reference_min_bars policy \<le> length vs \<and> 0 < median_volume vs \<and>
      flt (median_volume vs * vp_spike_multiple policy) < flt (of_int (b_volume b)))"

definition detect_volume_anomalies :: "say \<Rightarrow> bar list \<Rightarrow> int \<Rightarrow> volume_policy \<Rightarrow> finding list" where
  "detect_volume_anomalies say frame width policy =
     row_findings say ''ZERO_VOLUME_BAR'' ''WARNING'' (vp_version policy) width (filter (\<lambda>b. b_volume b = 0) frame)
     @ row_findings say ''VOLUME_SPIKE'' ''WARNING'' (vp_version policy) width (filter (volume_spike policy frame) frame)"

definition detect_session_date_mismatch :: "env \<Rightarrow> say \<Rightarrow> bar list \<Rightarrow> int \<Rightarrow> finding list" where
  "detect_session_date_mismatch E say frame width =
     row_findings say ''SESSION_DATE_ET_MISMATCH'' ''ERROR'' QUALITY_POLICY_VERSION width
       (filter (\<lambda>b. et_date E (b_start b) \<noteq> b_session b) frame)"

definition detect_partition_boundary_violation :: "say \<Rightarrow> bar list \<Rightarrow> date \<Rightarrow> date \<Rightarrow> finding list" where
  "detect_partition_boundary_violation say frame ps pe =
     (let outside = filter (\<lambda>b. b_session b < ps \<or> pe \<le> b_session b) frame; n = length outside in
      if n = 0 then []
      else [\<lparr>fd_code = ''PARTITION_BOUNDARY_VIOLATION'', fd_severity = ''ERROR'',
             fd_message = say ''PARTITION_BOUNDARY_VIOLATION'' [] n ps pe, fd_policy_version = QUALITY_POLICY_VERSION,
             fd_breadth = PARTITION, fd_instrument_id = None, fd_period_start = None, fd_period_end = None,
             fd_affected_bar_count = int n\<rparr>])"

section \<open>Missing bars\<close>

definition date_range :: "instant \<Rightarrow> instant \<Rightarrow> int \<Rightarrow> instant list" where
  "date_range start end freq = map (\<lambda>k. start + int k * freq) [0..<nat ((end - start + freq - 1) div freq)]"

definition expected_session_bar_starts :: "calendar_env \<Rightarrow> instant \<Rightarrow> instant \<Rightarrow> int \<Rightarrow> instant list" where
  "expected_session_bar_starts C from_seen upto_seen freq =
     (let a = cal_date C from_seen; b = cal_date C upto_seen;
          values = concat (map (\<lambda>(op, cl). date_range op cl freq) (session_windows C (min a b) (max a b)))
      in filter (\<lambda>t. from_seen \<le> t \<and> t \<le> upto_seen) values)"

record missing_interval =
  mi_start :: instant
  mi_end :: instant
  mi_last_start :: instant
  mi_bar_count :: nat
  mi_session_date :: date
  mi_previous_observed :: "instant option"
  mi_next_observed :: "instant option"

text \<open>Index runs of adjacent missing bars: \<open>pos\<close> is the position of the next one, \<open>prev\<close> the one before.\<close>

definition joins :: "calendar_env \<Rightarrow> int \<Rightarrow> instant \<Rightarrow> instant \<Rightarrow> bool" where
  "joins C freq prev current \<longleftrightarrow> cal_date C current = cal_date C prev \<and> current - prev = freq"

fun gaps_from :: "calendar_env \<Rightarrow> int \<Rightarrow> nat \<Rightarrow> nat \<Rightarrow> instant \<Rightarrow> instant list \<Rightarrow> (nat \<times> nat) list" where
  "gaps_from C freq start pos prev [] = [(start, pos - 1)]"
| "gaps_from C freq start pos prev (current # rest) =
     (if joins C freq prev current then gaps_from C freq start (Suc pos) current rest
      else (start, pos - 1) # gaps_from C freq pos (Suc pos) current rest)"

definition gap_boundaries :: "calendar_env \<Rightarrow> int \<Rightarrow> instant list \<Rightarrow> (nat \<times> nat) list" where
  "gap_boundaries C freq missing = (case missing of [] \<Rightarrow> [] | t # ts \<Rightarrow> gaps_from C freq 0 1 t ts)"

definition interval_of ::
  "calendar_env \<Rightarrow> int \<Rightarrow> instant list \<Rightarrow> instant list \<Rightarrow> instant list \<Rightarrow> nat \<times> nat \<Rightarrow> missing_interval" where
  "interval_of C freq missing expected observed bounds =
     (case bounds of (i, j) \<Rightarrow>
        let s = missing ! i; e = missing ! j;
            seen = (\<lambda>t. if t \<in> set expected \<and> t \<in> set observed then Some t else None)
        in \<lparr>mi_start = s, mi_end = e + freq, mi_last_start = e, mi_bar_count = j - i + 1,
            mi_session_date = cal_date C s, mi_previous_observed = seen (s - freq), mi_next_observed = seen (e + freq)\<rparr>)"

definition missing_bar_intervals ::
  "calendar_env \<Rightarrow> instant list \<Rightarrow> instant list \<Rightarrow> instant list \<Rightarrow> int \<Rightarrow> missing_interval list" where
  "missing_bar_intervals C missing expected observed freq =
     map (interval_of C freq missing expected observed) (gap_boundaries C freq missing)"

definition count_missing_bar_intervals :: "calendar_env \<Rightarrow> instant list \<Rightarrow> int \<Rightarrow> nat" where
  "count_missing_bar_intervals C missing freq =
     (if missing = [] then 0
      else 1 + length (filter (\<lambda>(p, c). cal_date C c \<noteq> cal_date C p \<or> c - p \<noteq> freq) (zip missing (tl missing))))"

definition missing_finding :: "say \<Rightarrow> severity_policy \<Rightarrow> string \<Rightarrow> missing_interval \<Rightarrow> finding" where
  "missing_finding say policy i iv =
     \<lparr>fd_code = ''MISSING_BARS'', fd_severity = sp_severity policy,
      fd_message = say ''MISSING_BARS'' i (mi_bar_count iv) (mi_start iv) (mi_end iv), fd_policy_version = sp_version policy,
      fd_breadth = BAR_RANGE, fd_instrument_id = Some i, fd_period_start = Some (mi_start iv),
      fd_period_end = Some (mi_end iv), fd_affected_bar_count = int (mi_bar_count iv)\<rparr>"

text \<open>The gaps of one instrument, from the distinct starts it was observed at.\<close>

definition instrument_gaps :: "calendar_env \<Rightarrow> int \<Rightarrow> instant list \<Rightarrow> missing_interval list" where
  "instrument_gaps C width starts =
     (let observed = dedup_sorted starts in
      if length observed < 2 then []
      else let expected = expected_session_bar_starts C (hd observed) (last observed) width;
               missing = dedup_sorted (filter (\<lambda>t. t \<notin> set observed) expected)
           in missing_bar_intervals C missing expected observed width)"

definition detect_missing_bars :: "calendar_env \<Rightarrow> say \<Rightarrow> bar list \<Rightarrow> int \<Rightarrow> severity_policy \<Rightarrow> finding list" where
  "detect_missing_bars C say frame width policy =
     concat (map (\<lambda>i. map (missing_finding say policy i) (instrument_gaps C width (map b_start (group_rows frame i))))
       (instruments_of frame))"

section \<open>Derived bars\<close>

definition derived_maximum :: "string \<Rightarrow> int res" where
  "derived_maximum resolution =
     (case dget [(''1h'', 60), (''4h'', 240), (''1d'', 390)] resolution of None \<Rightarrow> Inl KeyError | Some m \<Rightarrow> Inr m)"

definition minute_micros :: int where "minute_micros = 60000000"

definition session_bounds :: "calendar_env \<Rightarrow> bar list \<Rightarrow> (date, instant \<times> instant) dict" where
  "session_bounds C frame =
     (case map b_session frame of
        [] \<Rightarrow> []
      | d # ds \<Rightarrow> fold (\<lambda>w. dset (cal_date C (fst w)) w) (session_windows C (fold min ds d) (fold max ds d)) [])"

definition outside_session :: "(date, instant \<times> instant) dict \<Rightarrow> bar \<Rightarrow> bool" where
  "outside_session bounds b =
     (case dget bounds (b_session b) of None \<Rightarrow> True | Some (op, cl) \<Rightarrow> \<not> (op \<le> b_start b \<and> b_start b < cl))"

definition session_minutes :: "(date, instant \<times> instant) dict \<Rightarrow> int \<Rightarrow> bar \<Rightarrow> int" where
  "session_minutes bounds maximum b =
     (case dget bounds (b_session b) of None \<Rightarrow> maximum | Some (op, cl) \<Rightarrow> (cl - op) div minute_micros)"

definition bad_source_minutes :: "(date, instant \<times> instant) dict \<Rightarrow> int \<Rightarrow> bar \<Rightarrow> bool" where
  "bad_source_minutes bounds maximum b \<longleftrightarrow>
     b_source_minutes b \<le> 0 \<or> b_source_minutes b mod 30 \<noteq> 0 \<or>
     min maximum (session_minutes bounds maximum b) < b_source_minutes b"

definition missing_source_minutes :: "(date, instant \<times> instant) dict \<Rightarrow> string \<Rightarrow> int \<Rightarrow> bar \<Rightarrow> bool" where
  "missing_source_minutes bounds resolution maximum b =
     (case dget bounds (b_session b) of
        None \<Rightarrow> False
      | Some (op, cl) \<Rightarrow>
          b_source_minutes b <
            (if resolution = ''1d'' then session_minutes bounds maximum b
             else min maximum (max 0 ((cl - b_start b) div minute_micros))))"

definition detect_derived_session_issues :: "calendar_env \<Rightarrow> say \<Rightarrow> bar list \<Rightarrow> string \<Rightarrow> int \<Rightarrow> finding list res" where
  "detect_derived_session_issues C say frame resolution width =
     (let bounds = session_bounds C frame in
      bindE (derived_maximum resolution) (\<lambda>maximum.
        Inr (row_findings say ''XNYS_SESSION_VIOLATION'' ''ERROR'' QUALITY_POLICY_VERSION width (filter (outside_session bounds) frame)
             @ row_findings say ''INVALID_SOURCE_MINUTES'' ''ERROR'' QUALITY_POLICY_VERSION width
                 (filter (bad_source_minutes bounds maximum) frame)
             @ row_findings say ''UNEXPECTED_MISSING_SOURCE_BARS'' ''WARNING'' (sp_version MISSING_BAR_POLICY) width
                 (filter (missing_source_minutes bounds resolution maximum) frame))))"

section \<open>All checks of a partition\<close>

definition schema_mismatch_finding :: "string \<Rightarrow> finding" where
  "schema_mismatch_finding message =
     \<lparr>fd_code = ''SCHEMA_MISMATCH'', fd_severity = ''ERROR'', fd_message = message, fd_policy_version = QUALITY_POLICY_VERSION,
      fd_breadth = PARTITION, fd_instrument_id = None, fd_period_start = None, fd_period_end = None,
      fd_affected_bar_count = 0\<rparr>"

text \<open>A table is its schema and, when that is the contract's, its rows.\<close>

definition quality_findings ::
  "env \<Rightarrow> calendar_env \<Rightarrow> say \<Rightarrow> schema_field list \<Rightarrow> bar list \<Rightarrow> dataset_contract \<Rightarrow> (date \<times> date) option \<Rightarrow> finding list res" where
  "quality_findings E C say schema frame contract bounds =
     (if schema \<noteq> bar_schema (has_source_minutes contract) then Inr [schema_mismatch_finding (say ''SCHEMA_MISMATCH'' [] 0 0 0)]
      else if frame = [] then Inr []
      else
        bindE (bar_span (dc_resolution contract)) (\<lambda>width.
        bindE (if dc_data_layer contract = ''DERIVED''
               then detect_derived_session_issues C say frame (dc_resolution contract) width
               else Inr (detect_missing_bars C say frame width MISSING_BAR_POLICY)) (\<lambda>session.
          Inr (detect_duplicate_bars say frame width @ detect_out_of_order_bars say frame width
               @ detect_invalid_values say frame width @ detect_price_outliers C say frame width PRICE_OUTLIER_POLICY
               @ detect_volume_anomalies say frame width VOLUME_POLICY @ detect_session_date_mismatch E say frame width
               @ (case bounds of None \<Rightarrow> [] | Some (ps, pe) \<Rightarrow> detect_partition_boundary_violation say frame ps pe)
               @ session))))"

definition quality_issues where
  "quality_issues E C say schema frame contract bounds =
     bindE (quality_findings E C say schema frame contract bounds) (\<lambda>fs. Inr (map as_issue fs))"


section \<open>Runs account for every row\<close>

lemma spans_from_counts: "sum_list (map (snd \<circ> snd) (spans_from w start prev n ts)) = n + length ts"
  by (induction w start prev n ts rule: spans_from.induct) (auto simp: Let_def)

lemma contiguous_spans_counts: "sum_list (map (snd \<circ> snd) (contiguous_spans w ts)) = length ts"
  by (cases ts) (simp_all add: spans_from_counts)

lemma spans_from_first:
  "sorted (prev # ts) \<Longrightarrow> \<exists>x\<in>set (spans_from w start prev n ts). fst x = start \<and> prev \<le> fst (snd x) - w"
proof (induction w start prev n ts rule: spans_from.induct)
  case (2 w start prev n current rest)
  show ?case
  proof (cases "current - prev = 0 \<or> current - prev = w")
    case True
    then show ?thesis using "2.IH"(1)[OF refl True] "2.prems" by (force simp: Let_def)
  next
    case False
    then show ?thesis by (simp add: Let_def)
  qed
qed simp

lemma spans_from_cover:
  "0 < w \<Longrightarrow> start \<le> prev \<Longrightarrow> sorted (prev # ts) \<Longrightarrow> 1 \<le> n \<Longrightarrow>
   (\<forall>t\<in>set (prev # ts). \<exists>(s, e, m)\<in>set (spans_from w start prev n ts). s \<le> t \<and> t < e) \<and>
   (\<forall>(s, e, m)\<in>set (spans_from w start prev n ts). s < e \<and> 1 \<le> m \<and> (s = start \<or> s \<in> set ts) \<and> (e - w = prev \<or> e - w \<in> set ts))"
proof (induction w start prev n ts rule: spans_from.induct)
  case (2 w start prev n current rest)
  have srt: "sorted (current # rest)" "prev \<le> current" using "2.prems"(3) by auto
  show ?case
  proof (cases "current - prev = 0 \<or> current - prev = w")
    case True
    from "2.IH"(1)[OF refl True] "2.prems" srt
    have IH: "(\<forall>t\<in>set (current # rest). \<exists>(s, e, m)\<in>set (spans_from w start current (Suc n) rest). s \<le> t \<and> t < e)"
        "(\<forall>(s, e, m)\<in>set (spans_from w start current (Suc n) rest). s < e \<and> 1 \<le> m \<and> (s = start \<or> s \<in> set rest) \<and> (e - w = current \<or> e - w \<in> set rest))"
      by auto
    have eq: "spans_from w start prev n (current # rest) = spans_from w start current (Suc n) rest"
      using True by (simp add: Let_def)
    have "\<exists>(s, e, m)\<in>set (spans_from w start current (Suc n) rest). s \<le> prev \<and> prev < e"
    proof -
      have "\<exists>x\<in>set (spans_from w start current (Suc n) rest). fst x = start \<and> current \<le> fst (snd x) - w"
        using srt(1) by (rule spans_from_first)
      then show ?thesis using "2.prems" srt(2) by force
    qed
    then show ?thesis using IH unfolding eq by (auto 0 3)
  next
    case False
    have eq: "spans_from w start prev n (current # rest) = (start, prev + w, n) # spans_from w current current 1 rest"
      using False by (simp add: Let_def)
    from "2.IH"(2)[OF refl False] "2.prems" srt
    have IH: "(\<forall>t\<in>set (current # rest). \<exists>(s, e, m)\<in>set (spans_from w current current 1 rest). s \<le> t \<and> t < e)"
        "(\<forall>(s, e, m)\<in>set (spans_from w current current 1 rest). s < e \<and> 1 \<le> m \<and> (s = current \<or> s \<in> set rest) \<and> (e - w = current \<or> e - w \<in> set rest))"
      by auto
    show ?thesis using IH "2.prems" unfolding eq by (auto 0 3)
  qed
qed auto




section \<open>Gaps account for every missing bar\<close>

lemma gaps_from_facts:
  assumes "start < pos" "pos \<le> length L" "L ! (pos - 1) = prev" "drop pos L = rest"
    and "\<forall>k. start < k \<and> k < pos \<longrightarrow> joins C freq (L ! (k - 1)) (L ! k)"
  shows "concat (map (\<lambda>(i, j). [i..<Suc j]) (gaps_from C freq start pos prev rest)) = [start..<length L] \<and>
    (\<forall>(i, j)\<in>set (gaps_from C freq start pos prev rest). i \<le> j \<and> j < length L \<and>
        (\<forall>k. i < k \<and> k \<le> j \<longrightarrow> joins C freq (L ! (k - 1)) (L ! k))) \<and>
    length (gaps_from C freq start pos prev rest) = 1 + length (filter (\<lambda>(p, c). \<not> joins C freq p c) (zip (prev # rest) rest))"
  using assms
proof (induction C freq start pos prev rest rule: gaps_from.induct)
  case (1 C freq start pos prev)
  then have "length L = pos" by simp
  then show ?case using 1 by (auto simp: upt_rec)
next
  case (2 C freq start pos prev current rest)
  have pos: "pos < length L" "L ! pos = current" "drop (Suc pos) L = rest"
    using "2.prems"(4) by (auto simp: drop_Suc tl_drop[symmetric]) (metis drop_eq_Nil linorder_not_le list.distinct(1), metis hd_drop_conv_nth drop_eq_Nil linorder_not_le list.distinct(1) list.sel(1))
  show ?case
  proof (cases "joins C freq prev current")
    case True
    have "\<forall>k. start < k \<and> k < Suc pos \<longrightarrow> joins C freq (L ! (k - 1)) (L ! k)"
      using "2.prems"(3,5) True pos(2) by (auto simp: less_Suc_eq)
    from "2.IH"(1)[OF True _ _ _ pos(3) this] "2.prems"(1) pos True show ?thesis by simp
  next
    case False
    have "\<forall>k. pos < k \<and> k < Suc pos \<longrightarrow> joins C freq (L ! (k - 1)) (L ! k)" by auto
    from "2.IH"(2)[OF False _ _ _ pos(3) this] pos
    have IH: "concat (map (\<lambda>(i, j). [i..<Suc j]) (gaps_from C freq pos (Suc pos) current rest)) = [pos..<length L]"
      "\<forall>(i, j)\<in>set (gaps_from C freq pos (Suc pos) current rest). i \<le> j \<and> j < length L \<and>
        (\<forall>k. i < k \<and> k \<le> j \<longrightarrow> joins C freq (L ! (k - 1)) (L ! k))"
      "length (gaps_from C freq pos (Suc pos) current rest)
        = 1 + length (filter (\<lambda>(p, c). \<not> joins C freq p c) (zip (current # rest) rest))"
      by auto
    have "[start..<Suc (pos - 1)] @ [pos..<length L] = [start..<length L]"
      using "2.prems"(1) pos(1) upt_add_eq_append[of start pos "length L - pos"] by simp
    moreover have "\<forall>k. start < k \<and> k \<le> pos - 1 \<longrightarrow> joins C freq (L ! (k - 1)) (L ! k)" using "2.prems"(5) by auto
    moreover have eq: "gaps_from C freq start pos prev (current # rest) = (start, pos - 1) # gaps_from C freq pos (Suc pos) current rest"
      using False by simp
    moreover have "concat (map (\<lambda>(i, j). [i..<Suc j]) (gaps_from C freq start pos prev (current # rest))) = [start..<length L]"
      unfolding eq list.map concat.simps prod.case IH(1) by fact
    ultimately show ?thesis using IH(2,3) False "2.prems"(1) pos(1) by auto
  qed
qed


lemma gap_boundaries_facts:
  "concat (map (\<lambda>(i, j). [i..<Suc j]) (gap_boundaries C freq L)) = [0..<length L] \<and>
   (\<forall>(i, j)\<in>set (gap_boundaries C freq L). i \<le> j \<and> j < length L \<and>
        (\<forall>k. i < k \<and> k \<le> j \<longrightarrow> joins C freq (L ! (k - 1)) (L ! k))) \<and>
   length (gap_boundaries C freq L) = count_missing_bar_intervals C L freq"
proof (cases L)
  case (Cons t ts)
  have "(\<lambda>(p, c). \<not> joins C freq p c) = (\<lambda>(p, c). cal_date C c \<noteq> cal_date C p \<or> c - p \<noteq> freq)"
    by (auto simp: joins_def)
  then have "count_missing_bar_intervals C L freq = 1 + length (filter (\<lambda>(p, c). \<not> joins C freq p c) (zip (t # ts) ts))"
    by (simp add: count_missing_bar_intervals_def Cons)
  then show ?thesis
    using gaps_from_facts[of 0 1 L t ts C freq] by (simp add: gap_boundaries_def Cons del: upt_Suc)
qed (simp add: gap_boundaries_def count_missing_bar_intervals_def)

lemma joined_run:
  "i + k \<le> j \<Longrightarrow> \<forall>m. i < m \<and> m \<le> j \<longrightarrow> joins C freq (L ! (m - 1)) (L ! m) \<Longrightarrow>
   L ! (i + k) = L ! i + int k * freq \<and> cal_date C (L ! (i + k)) = cal_date C (L ! i)"
proof (induction k)
  case (Suc k)
  have "joins C freq (L ! (i + k)) (L ! (i + Suc k))" using Suc.prems(2)[rule_format, of "i + Suc k"] Suc.prems(1) by simp
  then have step: "L ! (i + Suc k) = L ! (i + k) + freq" "cal_date C (L ! (i + Suc k)) = cal_date C (L ! (i + k))"
    by (simp_all add: joins_def)
  have both: "L ! (i + k) = L ! i + int k * freq \<and> cal_date C (L ! (i + k)) = cal_date C (L ! i)"
    by (rule Suc.IH[OF _ Suc.prems(2)]) (use Suc.prems(1) in simp)
  note IH = conjunct1[OF both] conjunct2[OF both]
  show ?case
  proof
    show "L ! (i + Suc k) = L ! i + int (Suc k) * freq" using step(1) IH(1) by (simp add: algebra_simps)
    show "cal_date C (L ! (i + Suc k)) = cal_date C (L ! i)" using step(2) IH(2) by (rule trans)
  qed
qed simp

definition interval_starts :: "int \<Rightarrow> missing_interval \<Rightarrow> instant list" where
  "interval_starts freq iv = map (\<lambda>k. mi_start iv + int k * freq) [0..<mi_bar_count iv]"

lemma interval_of_facts:
  assumes "i \<le> j" "\<forall>k. i < k \<and> k \<le> j \<longrightarrow> joins C freq (L ! (k - 1)) (L ! k)"
  shows "interval_starts freq (interval_of C freq L ex ob (i, j)) = map ((!) L) [i..<Suc j]"
    "mi_end (interval_of C freq L ex ob (i, j)) = mi_start (interval_of C freq L ex ob (i, j))
       + int (mi_bar_count (interval_of C freq L ex ob (i, j))) * freq"
    "t \<in> set (interval_starts freq (interval_of C freq L ex ob (i, j))) \<Longrightarrow>
       cal_date C t = mi_session_date (interval_of C freq L ex ob (i, j))"
proof -
  let ?iv = "interval_of C freq L ex ob (i, j)"
  have f: "mi_start ?iv = L ! i" "mi_bar_count ?iv = j - i + 1" "mi_end ?iv = L ! j + freq" "mi_session_date ?iv = cal_date C (L ! i)"
    by (simp_all add: interval_of_def Let_def)
  have "[i..<Suc j] = map (\<lambda>k. k + i) [0..<j - i + 1]" using assms(1) by (simp add: map_add_upt del: upt_Suc)
  then have "map ((!) L) [i..<Suc j] = map (\<lambda>k. L ! (i + k)) [0..<j - i + 1]" by (simp add: add.commute del: upt_Suc)
  also have "\<dots> = map (\<lambda>k. L ! i + int k * freq) [0..<j - i + 1]"
    by (rule map_cong[OF refl], rule conjunct1[OF joined_run[OF _ assms(2)]]) (use assms(1) in \<open>auto simp del: upt_Suc\<close>)
  finally show "interval_starts freq ?iv = map ((!) L) [i..<Suc j]" by (simp add: interval_starts_def f del: upt_Suc)
  have le: "i + (j - i) \<le> j" using assms(1) by simp
  have "L ! j = L ! i + int (j - i) * freq" using conjunct1[OF joined_run[OF le assms(2)]] assms(1) by simp
  then show "mi_end ?iv = mi_start ?iv + int (mi_bar_count ?iv) * freq"
    using assms(1) by (simp add: f algebra_simps of_nat_diff)
  assume "t \<in> set (interval_starts freq ?iv)"
  then obtain k where k: "t = L ! i + int k * freq" "k \<in> set [0..<j - i + 1]"
    unfolding interval_starts_def f set_map by (elim imageE)
  then have "i + k \<le> j" using assms(1) by (auto simp del: upt_Suc)
  from joined_run[OF this assms(2)] show "cal_date C t = mi_session_date ?iv" unfolding f k(1) by metis
qed

text \<open>C11: The recorded gaps are exactly the missing bars: the bar starts the intervals stand for, in
  order, are the missing bars, no gap crosses a session date, each one ends one bar after its last, and
  the fast count of gaps is the number of intervals.\<close>

theorem missing_intervals_exact:
  "concat (map (interval_starts freq) (missing_bar_intervals C missing ex ob freq)) = missing \<and>
   (\<forall>iv\<in>set (missing_bar_intervals C missing ex ob freq).
      mi_end iv = mi_start iv + int (mi_bar_count iv) * freq \<and> 1 \<le> mi_bar_count iv \<and>
      (\<forall>t\<in>set (interval_starts freq iv). cal_date C t = mi_session_date iv)) \<and>
   count_missing_bar_intervals C missing freq = length (missing_bar_intervals C missing ex ob freq)"
proof -
  note g = gap_boundaries_facts[of C freq missing]
  have run: "i \<le> j \<and> (\<forall>k. i < k \<and> k \<le> j \<longrightarrow> joins C freq (missing ! (k - 1)) (missing ! k))"
    if "(i, j) \<in> set (gap_boundaries C freq missing)" for i j
    using g that by blast
  have "map (\<lambda>b. interval_starts freq (interval_of C freq missing ex ob b)) (gap_boundaries C freq missing)
      = map (\<lambda>(i, j). map ((!) missing) [i..<Suc j]) (gap_boundaries C freq missing)"
    using interval_of_facts(1)[where L = missing] run by (intro map_cong) (auto simp del: upt_Suc)
  then have "concat (map (interval_starts freq) (missing_bar_intervals C missing ex ob freq))
      = concat (map (\<lambda>(i, j). map ((!) missing) [i..<Suc j]) (gap_boundaries C freq missing))"
    by (simp only: missing_bar_intervals_def map_map o_def)
  also have "\<dots> = map ((!) missing) (concat (map (\<lambda>(i, j). [i..<Suc j]) (gap_boundaries C freq missing)))"
    by (simp add: map_concat o_def split_def del: upt_Suc)
  also have "\<dots> = missing" using g by (simp add: map_nth del: upt_Suc)
  finally have "concat (map (interval_starts freq) (missing_bar_intervals C missing ex ob freq)) = missing" .
  moreover have "mi_end iv = mi_start iv + int (mi_bar_count iv) * freq \<and> 1 \<le> mi_bar_count iv \<and>
      (\<forall>t\<in>set (interval_starts freq iv). cal_date C t = mi_session_date iv)"
    if iv: "iv \<in> set (missing_bar_intervals C missing ex ob freq)" for iv
  proof -
    obtain i j where ij: "(i, j) \<in> set (gap_boundaries C freq missing)" "iv = interval_of C freq missing ex ob (i, j)"
      using iv by (auto simp: missing_bar_intervals_def)
    have "1 \<le> mi_bar_count iv" by (simp add: ij(2) interval_of_def Let_def)
    then show ?thesis using interval_of_facts(2,3)[where L = missing] run[OF ij(1)] ij(2) by blast
  qed
  ultimately show ?thesis using g by (simp add: missing_bar_intervals_def)
qed

definition demo_calendar :: calendar_env where
  "demo_calendar = \<lparr>session_windows = (\<lambda>a b. map (\<lambda>d. (d * 1000, d * 1000 + 120)) [a..b]), cal_date = (\<lambda>t. t div 1000),
     abs_log_return = (\<lambda>p c. \<bar>c - p\<bar> / p)\<rparr>"

theorem missing_intervals_exact_witness:
  "map mi_bar_count (missing_bar_intervals demo_calendar [30, 60, 1000] [0, 30, 60, 90, 1000, 1030] [0, 90, 1030] 30) = [2, 1] \<and>
   concat (map (interval_starts 30) (missing_bar_intervals demo_calendar [30, 60, 1000] [0, 30, 60, 90, 1000, 1030] [0, 90, 1030] 30))
     = [30, 60, 1000]"
proof
  show "map mi_bar_count (missing_bar_intervals demo_calendar [30, 60, 1000] [0, 30, 60, 90, 1000, 1030] [0, 90, 1030] 30) = [2, 1]"
    by code_simp
qed (use missing_intervals_exact in blast)


section \<open>A partition without findings is clean\<close>

lemma spans_from_nonempty: "spans_from w start prev n ts \<noteq> []"
  by (induction w start prev n ts rule: spans_from.induct) (auto simp: Let_def)

lemma contiguous_spans_empty: "contiguous_spans w ts = [] \<longleftrightarrow> ts = []"
  by (cases ts) (simp_all add: spans_from_nonempty)

lemma in_instruments: "i \<in> set (instruments_of bars) \<longleftrightarrow> (\<exists>b\<in>set bars. b_instrument b = i)"
  by (auto simp: instruments_of_def)

lemma row_findings_empty: "row_findings say code sev pol w bad = [] \<longleftrightarrow> bad = []"
proof
  assume e: "row_findings say code sev pol w bad = []"
  show "bad = []"
  proof (rule ccontr)
    assume "bad \<noteq> []"
    then obtain b where b: "b \<in> set bad" by (cases bad) auto
    then have "b_instrument b \<in> set (instruments_of bad)" unfolding in_instruments by blast
    then have "contiguous_spans w (sort (map b_start (group_rows bad (b_instrument b)))) = []"
      using e by (auto simp: row_findings_def)
    then have "group_rows bad (b_instrument b) = []" unfolding contiguous_spans_empty by (metis length_0_conv length_map length_sort)
    then show False using b by (auto simp: group_rows_def filter_empty_conv)
  qed
qed (simp add: row_findings_def instruments_of_def dedup_sorted_def)

lemma descents_empty: "descents ts = [] \<longleftrightarrow> sorted ts"
  by (induction ts rule: descents.induct) auto

lemma distinct_of_counts:
  "(\<And>x. x \<in> set xs \<Longrightarrow> length (filter (\<lambda>y. k y = k x) xs) \<le> 1) \<Longrightarrow> distinct (map k xs)"
proof (induction xs)
  case (Cons a xs)
  have "k a \<notin> k ` set xs"
  proof
    assume "k a \<in> k ` set xs"
    then have "filter (\<lambda>y. k y = k a) xs \<noteq> []" by (auto simp: filter_empty_conv)
    then show False using Cons.prems[of a] by (cases "filter (\<lambda>y. k y = k a) xs") auto
  qed
  moreover have "length (filter (\<lambda>y. k y = k x) xs) \<le> 1" if "x \<in> set xs" for x
    using Cons.prems[of x] that by (auto split: if_splits)
  ultimately show ?case using Cons.IH by auto
qed simp

text \<open>When all checks of a partition report nothing, its rows are clean: the schema is the
  contract's, each instrument's bars are delivered in strictly increasing order, every price is finite
  and positive with high and low bounding the bar, no activity is negative, and every row belongs to
  the session date its start falls on, inside the partition.\<close>

theorem no_findings_means_clean:
  assumes "quality_findings E C say schema frame contract (Some (ps, pe)) = Inr []"
  shows "schema = bar_schema (has_source_minutes contract) \<and>
    (\<forall>i. sorted_wrt (<) (map b_start (group_rows frame i))) \<and>
    (\<forall>b\<in>set frame. valid_prices b \<and> ohlc_ok b \<and> \<not> negative_activity b \<and> et_date E (b_start b) = b_session b \<and>
        ps \<le> b_session b \<and> b_session b < pe)"
proof (cases "frame = []")
  case True
  then show ?thesis using assms by (auto simp: quality_findings_def group_rows_def split: if_splits)
next
  case False
  have schema: "schema = bar_schema (has_source_minutes contract)"
    using assms by (auto simp: quality_findings_def split: if_splits)
  then obtain w where empty: "detect_duplicate_bars say frame w = []" "detect_out_of_order_bars say frame w = []"
      "detect_invalid_values say frame w = []" "detect_session_date_mismatch E say frame w = []"
      "detect_partition_boundary_violation say frame ps pe = []"
    using assms False by (auto simp: quality_findings_def)
  have bars: "valid_prices b \<and> ohlc_ok b \<and> \<not> negative_activity b \<and> et_date E (b_start b) = b_session b \<and>
        ps \<le> b_session b \<and> b_session b < pe" if "b \<in> set frame" for b
    using empty(3-5) that
    by (auto simp: detect_invalid_values_def detect_session_date_mismatch_def row_findings_empty filter_empty_conv
        detect_partition_boundary_violation_def Let_def split: if_splits)
  have "distinct (map (\<lambda>b. (b_instrument b, b_start b)) frame)"
    using empty(1) by (intro distinct_of_counts) (auto simp: detect_duplicate_bars_def row_findings_empty filter_empty_conv)
  then have inj: "distinct (map b_start (group_rows frame i))" for i
    unfolding group_rows_def by (induction frame) (force simp: image_iff)+
  have srt: "sorted (map b_start (group_rows frame i))" for i
  proof (cases "i \<in> set (instruments_of frame)")
    case True
    then show ?thesis using empty(2) by (auto simp: detect_out_of_order_bars_def descents_empty)
  next
    case False
    then have "group_rows frame i = []" by (auto simp: in_instruments group_rows_def filter_empty_conv)
    then show ?thesis by simp
  qed
  have "sorted_wrt (<) (map b_start (group_rows frame i))" for i
    using srt inj by (simp add: strict_sorted_iff)
  then show ?thesis using schema bars by blast
qed


definition clean_bar :: "int \<Rightarrow> bar" where
  "clean_bar t = \<lparr>b_instrument = ''A'', b_start = t, b_session = 719163, b_open = Fin 2, b_high = Fin 2, b_low = Fin 2,
     b_close = Fin 2, b_volume = 5, b_trade_count = None, b_source_minutes = 0\<rparr>"

definition clean_contract :: dataset_contract where
  "clean_contract = mk_contract ''RAW'' ''RAW'' ''30m'' ''F''"

definition quiet_calendar :: calendar_env where
  "quiet_calendar = \<lparr>session_windows = (\<lambda>a b. [(0, 7200000000)]), cal_date = (\<lambda>t. 719163), abs_log_return = (\<lambda>p c. 0)\<rparr>"

definition plain_say :: say where
  "plain_say code i n s e = code"

theorem no_findings_means_clean_witness:
  "quality_findings demo_env quiet_calendar plain_say (bar_schema (has_source_minutes clean_contract))
     [clean_bar 0, clean_bar 1800000000] clean_contract (Some (719163, 719164)) = Inr [] \<and>
   sorted_wrt (<) (map b_start (group_rows [clean_bar 0, clean_bar 1800000000] ''A''))"
proof -
  have n: "quality_findings demo_env quiet_calendar plain_say (bar_schema (has_source_minutes clean_contract))
     [clean_bar 0, clean_bar 1800000000] clean_contract (Some (719163, 719164)) = Inr []" by code_simp
  show ?thesis using n no_findings_means_clean[OF n] by blast
qed

section \<open>Every finding can be attached to its partition\<close>

definition attachable :: "finding \<Rightarrow> bool" where
  "attachable f \<longleftrightarrow> fd_breadth f \<noteq> MANIFEST \<and> \<not> blank (fd_code f) \<and> fd_severity f \<in> set SEVERITIES \<and> 0 \<le> fd_affected_bar_count f"

lemma attachable_rows:
  "\<not> blank code \<Longrightarrow> sev \<in> set SEVERITIES \<Longrightarrow> list_all attachable (row_findings say code sev pol w bad)"
  by (auto simp: row_findings_def list_all_iff run_finding_def attachable_def)

lemma finding_codes:
  "\<not> blank ''DUPLICATE_BAR''" "\<not> blank ''OUT_OF_ORDER_BARS''" "\<not> blank ''INVALID_PRICE''" "\<not> blank ''INVALID_OHLC''"
  "\<not> blank ''NEGATIVE_ACTIVITY''" "\<not> blank ''PRICE_OUTLIER_RETURN''" "\<not> blank ''PRICE_OUTLIER_RANGE''"
  "\<not> blank ''ZERO_VOLUME_BAR''" "\<not> blank ''VOLUME_SPIKE''" "\<not> blank ''SESSION_DATE_ET_MISMATCH''"
  "\<not> blank ''PARTITION_BOUNDARY_VIOLATION''" "\<not> blank ''MISSING_BARS''" "\<not> blank ''XNYS_SESSION_VIOLATION''"
  "\<not> blank ''INVALID_SOURCE_MINUTES''" "\<not> blank ''UNEXPECTED_MISSING_SOURCE_BARS''" "\<not> blank ''SCHEMA_MISMATCH''"
  by code_simp+

lemma finding_severities: "''ERROR'' \<in> set SEVERITIES" "''WARNING'' \<in> set SEVERITIES"
  by (simp_all add: SEVERITIES_def)

lemma quality_findings_attachable:
  assumes "quality_findings E C say schema frame contract bounds = Inr fs"
  shows "list_all attachable fs"
proof -
  have single: "attachable (schema_mismatch_finding m)" for m
    by (simp add: schema_mismatch_finding_def attachable_def finding_codes finding_severities)
  have order: "list_all attachable (detect_out_of_order_bars say frame w)" for w
    by (auto simp: detect_out_of_order_bars_def descent_finding_def attachable_def list_all_iff finding_codes
        finding_severities ORDERING_POLICY_def)
  have missing: "list_all attachable (detect_missing_bars C say frame w MISSING_BAR_POLICY)" for w
    by (auto simp: detect_missing_bars_def missing_finding_def attachable_def list_all_iff finding_codes
        finding_severities MISSING_BAR_POLICY_def)
  have bound: "list_all attachable (detect_partition_boundary_violation say frame ps pe)" for ps pe
    by (simp add: detect_partition_boundary_violation_def Let_def attachable_def finding_codes finding_severities)
  note rows = attachable_rows[OF finding_codes(1) finding_severities(1)] attachable_rows[OF finding_codes(3) finding_severities(1)]
    attachable_rows[OF finding_codes(4) finding_severities(1)] attachable_rows[OF finding_codes(5) finding_severities(1)]
    attachable_rows[OF finding_codes(6) finding_severities(2)] attachable_rows[OF finding_codes(7) finding_severities(2)]
    attachable_rows[OF finding_codes(8) finding_severities(2)] attachable_rows[OF finding_codes(9) finding_severities(2)]
    attachable_rows[OF finding_codes(10) finding_severities(1)] attachable_rows[OF finding_codes(13) finding_severities(1)]
    attachable_rows[OF finding_codes(14) finding_severities(1)] attachable_rows[OF finding_codes(15) finding_severities(2)]
  have derived: "detect_derived_session_issues C say frame r w = Inr fs \<Longrightarrow> list_all attachable fs" for r w fs
    by (auto simp: detect_derived_session_issues_def Let_def rows)
  show ?thesis
    using assms
    by (auto simp: quality_findings_def single order missing bound rows detect_duplicate_bars_def detect_invalid_values_def
        detect_price_outliers_def detect_volume_anomalies_def detect_session_date_mismatch_def
        split: if_splits option.splits dest: derived)
qed

text \<open>Whatever the checks of a partition find can be recorded: every finding turns into an incident
  whose scope the constructor accepts, one incident per finding, for any non-empty partition.\<close>

theorem findings_are_recordable:
  assumes "quality_findings E C say schema frame contract bounds = Inr fs"
    and "shard \<noteq> []" "ps < pe" "et_midnight E ps < et_midnight E pe"
  shows "\<exists>qs. scoped_incidents E remark fs shard ps pe (Aware t) evidence = Inr qs \<and> length qs = length fs \<and>
    (\<forall>q\<in>set qs. scope_ok E (qi_scope q) \<and> is_shard_key (qi_scope q) = Some shard)"
proof -
  have each: "\<exists>q. with_scope E remark f shard ps pe (Aware t) evidence = Inr q \<and> scope_ok E (qi_scope q) \<and>
      is_shard_key (qi_scope q) = Some shard" if "f \<in> set fs" for f
    using quality_findings_attachable[OF assms(1)] that with_scope_narrow[OF _ _ _ assms(2-4), of f remark t evidence]
    by (auto simp: list_all_iff attachable_def)
  then obtain qs where qs: "scoped_incidents E remark fs shard ps pe (Aware t) evidence = Inr qs"
    unfolding scoped_incidents_def using mapE_all_ok by meson
  have "scope_ok E (qi_scope q) \<and> is_shard_key (qi_scope q) = Some shard" if "q \<in> set qs" for q
    using mapE_set[OF qs[unfolded scoped_incidents_def] that] each by force
  then show ?thesis using qs mapE_length[OF qs[unfolded scoped_incidents_def]] by blast
qed

theorem findings_are_recordable_witness:
  "\<exists>q. scoped_incidents demo_env plain_note [schema_mismatch_finding ''SCHEMA_MISMATCH''] ''shard-0'' 719163 719164 (Aware 0) None = Inr [q] \<and>
     scope_ok demo_env (qi_scope q) \<and> is_shard_key (qi_scope q) = Some ''shard-0''"
proof -
  have q: "quality_findings demo_env quiet_calendar plain_say [] [] clean_contract None = Inr [schema_mismatch_finding ''SCHEMA_MISMATCH'']"
    by code_simp
  have w: "et_midnight demo_env 719163 < et_midnight demo_env 719164" by code_simp
  obtain qs where qs: "scoped_incidents demo_env plain_note [schema_mismatch_finding ''SCHEMA_MISMATCH''] ''shard-0'' 719163 719164 (Aware 0) None = Inr qs"
      "length qs = 1" "\<forall>q\<in>set qs. scope_ok demo_env (qi_scope q) \<and> is_shard_key (qi_scope q) = Some ''shard-0''"
    using findings_are_recordable[OF q _ _ w, of "''shard-0''" plain_note 0 None] by auto
  then obtain q where "qs = [q]" by (auto simp: length_Suc_conv)
  then show ?thesis using qs by auto
qed

end
