(* ===== verification/Manifest_Watermarks.thy ===== *)
theory Manifest_Watermarks
  imports Catalog Watermarks
begin

text \<open>
  \<open>market_pipeline_lib/manifest_watermarks.py\<close>: the newest AVAILABLE manifest of each active feed is
  projected onto its watermark row. \<open>read\<close> is \<open>records\<close> of the catalog; \<open>load\<close> and \<open>advance\<close> are
  the watermark repository, whose contract is the locale \<open>watermark_store\<close>.
\<close>

definition manifest_instant :: "env \<Rightarrow> pyval \<Rightarrow> instant res" where
  "manifest_instant E v =
     (case v of
        VStr s \<Rightarrow>
          (case fromisoformat E (timestamp_text s) of
             IsoAware t \<Rightarrow> if in_calendar t then Inr t else Inl OverflowError
           | _ \<Rightarrow> Inl ValueError)
      | _ \<Rightarrow> Inl ValueError)"

definition active_ids :: "(pyobj \<Rightarrow> string) \<Rightarrow> (doc \<Rightarrow> bool) \<Rightarrow> doc list \<Rightarrow> string list res" where
  "active_ids str_of P rows = mapE (row_id str_of) (filter P rows)"

definition active_provider :: "doc \<Rightarrow> bool" where
  "active_provider r \<longleftrightarrow> py_eq (dget_none r ''status'') (VStr ''ACTIVE'')"

definition active_feed :: "(pyobj \<Rightarrow> string) \<Rightarrow> string list \<Rightarrow> doc \<Rightarrow> bool" where
  "active_feed str_of providers r \<longleftrightarrow>
     py_str str_of (dget_none r ''provider_id'') \<in> set providers \<and> dget_none r ''retired_at'' = VNone"

definition manifest_feed :: "(pyobj \<Rightarrow> string) \<Rightarrow> doc \<Rightarrow> string" where
  "manifest_feed str_of m = (case dget m ''feed_id'' of None \<Rightarrow> [] | Some v \<Rightarrow> py_str str_of v)"

definition contributes :: "(pyobj \<Rightarrow> string) \<Rightarrow> string list \<Rightarrow> doc \<Rightarrow> bool" where
  "contributes str_of feeds m \<longleftrightarrow>
     manifest_feed str_of m \<in> set feeds \<and> py_eq (dget_none m ''status'') (VStr ''AVAILABLE'')"

fun latest_manifests ::
  "env \<Rightarrow> (pyobj \<Rightarrow> string) \<Rightarrow> string list \<Rightarrow> doc list \<Rightarrow> (string, instant \<times> instant) dict \<Rightarrow> (string, instant \<times> instant) dict res" where
  "latest_manifests E str_of feeds [] latest = Inr latest"
| "latest_manifests E str_of feeds (m # ms) latest =
     (if \<not> contributes str_of feeds m then latest_manifests E str_of feeds ms latest
      else
        bindE (manifest_instant E (dget_none m ''period_end'')) (\<lambda>period_end.
        bindE (manifest_instant E (dget_none m ''available_at'')) (\<lambda>available_at.
          latest_manifests E str_of feeds ms
            (case dget latest (manifest_feed str_of m) of
               None \<Rightarrow> dset (manifest_feed str_of m) (period_end, available_at) latest
             | Some (pe, aa) \<Rightarrow>
                 if pe < period_end then dset (manifest_feed str_of m) (period_end, available_at) latest else latest))))"

record projection_row =
  pr_feed_id :: string
  pr_last_source_event_at :: string
  pr_last_ingested_at :: string

record projection =
  pj_active_feed_count :: nat
  pj_advanced_feed_count :: nat
  pj_watermarks :: "projection_row list"

definition manifest_watermark :: "instant \<Rightarrow> string \<times> instant \<times> instant \<Rightarrow> stream_watermark res" where
  "manifest_watermark observed entry =
     (case entry of (feed, pe, aa) \<Rightarrow>
        mk_watermark feed \<lparr>sp_source_event_at = pe, sp_sequence = None\<rparr> aa (Some observed))"

definition moved :: "stream_watermark option \<Rightarrow> stream_watermark \<Rightarrow> bool" where
  "moved before stored = (case before of None \<Rightarrow> True | Some w \<Rightarrow> pos_less (wm_position w) (wm_position stored))"

fun project_feeds ::
  "('s \<Rightarrow> string \<Rightarrow> stream_watermark option) \<Rightarrow> ('s \<Rightarrow> stream_watermark \<Rightarrow> stream_watermark \<times> 's) \<Rightarrow> instant
    \<Rightarrow> (string \<times> instant \<times> instant) list \<Rightarrow> nat \<Rightarrow> projection_row list \<Rightarrow> 's \<Rightarrow> (nat \<times> projection_row list) res \<times> 's" where
  "project_feeds load advance observed [] n rows s = (Inr (n, rows), s)"
| "project_feeds load advance observed (entry # entries) n rows s =
     (case manifest_watermark observed entry of
        Inl e \<Rightarrow> (Inl e, s)
      | Inr w \<Rightarrow>
          let before = load s (fst entry); (stored, s') = advance s w in
          project_feeds load advance observed entries (if moved before stored then Suc n else n)
            (rows @ [\<lparr>pr_feed_id = fst entry, pr_last_source_event_at = position_isoformat (wm_position stored),
                      pr_last_ingested_at = iso_utc (wm_ingested_at stored)\<rparr>]) s')"

definition latest_of_catalog ::
  "env \<Rightarrow> (pyobj \<Rightarrow> string) \<Rightarrow> (string \<Rightarrow> doc list res) \<Rightarrow> (string list \<times> (string, instant \<times> instant) dict) res" where
  "latest_of_catalog E str_of read =
     bindE (read ''market_data.providers'') (\<lambda>providers.
     bindE (active_ids str_of active_provider providers) (\<lambda>provider_ids.
     bindE (read ''market_data.feeds'') (\<lambda>feeds.
     bindE (active_ids str_of (active_feed str_of provider_ids) feeds) (\<lambda>feed_ids.
     bindE (read ''market_data.dataset_manifests'') (\<lambda>manifests.
     bindE (latest_manifests E str_of feed_ids manifests []) (\<lambda>latest. Inr (remdups feed_ids, latest)))))))"

definition advance_available_manifest_watermarks ::
  "env \<Rightarrow> (pyobj \<Rightarrow> string) \<Rightarrow> (string \<Rightarrow> doc list res) \<Rightarrow> ('s \<Rightarrow> string \<Rightarrow> stream_watermark option)
    \<Rightarrow> ('s \<Rightarrow> stream_watermark \<Rightarrow> stream_watermark \<times> 's) \<Rightarrow> instant \<Rightarrow> 's \<Rightarrow> projection res \<times> 's" where
  "advance_available_manifest_watermarks E str_of read load advance observed s =
     (case latest_of_catalog E str_of read of
        Inl e \<Rightarrow> (Inl e, s)
      | Inr (feed_ids, latest) \<Rightarrow>
          (case project_feeds load advance observed (sort_key fst latest) 0 [] s of
             (Inl e, s') \<Rightarrow> (Inl e, s')
           | (Inr (n, rows), s') \<Rightarrow>
               (Inr \<lparr>pj_active_feed_count = length feed_ids, pj_advanced_feed_count = n, pj_watermarks = rows\<rparr>, s')))"

section \<open>What the projection does to the rows\<close>

definition wm_key :: "stream_watermark option \<Rightarrow> (instant \<times> int) option" where
  "wm_key w = map_option (order_key \<circ> wm_position) w"

context watermark_store
begin

lemma project_feeds_rows:
  "distinct (map fst entries) \<Longrightarrow> project_feeds load advance observed entries n rows s = (r, s') \<Longrightarrow>
   (case pos_at s f of None \<Rightarrow> True | Some k \<Rightarrow> \<exists>k'. pos_at s' f = Some k' \<and> k \<le> k') \<and>
   (f \<notin> fst ` set entries \<longrightarrow> pos_at s' f = pos_at s f) \<and>
   (is_ok r \<longrightarrow> (\<forall>pe aa. (f, pe, aa) \<in> set entries \<longrightarrow>
      pos_at s' f = Some (case pos_at s f of None \<Rightarrow> (pe, NO_SEQUENCE) | Some k \<Rightarrow> max k (pe, NO_SEQUENCE))))"
proof (induction entries arbitrary: n rows s)
  case Nil
  then show ?case by (auto split: option.splits)
next
  case (Cons entry entries)
  obtain g pe aa where entry: "entry = (g, pe, aa)" by (cases entry) auto
  show ?case
  proof (cases "manifest_watermark observed entry")
    case (Inl e)
    then show ?thesis using Cons.prems(2) by (auto split: option.splits)
  next
    case w: (Inr w)
    have wf: "wm_feed_id w = g" "order_key (wm_position w) = (pe, NO_SEQUENCE)"
      using w by (auto simp: entry manifest_watermark_def mk_watermark_def order_key_def split: if_splits)
    obtain stored s1 where adv: "advance s w = (stored, s1)" by (cases "advance s w")
    have p1: "pos_at s1 f = (if f = g then Some (case pos_at s f of None \<Rightarrow> (pe, NO_SEQUENCE) | Some k \<Rightarrow> max k (pe, NO_SEQUENCE))
        else pos_at s f)"
      using pos_at_advance[of s w f] unfolding adv snd_conv wf .
    obtain n1 rows1 where rest: "project_feeds load advance observed entries n1 rows1 s1 = (r, s')"
      using Cons.prems(2) w adv by (auto simp: Let_def)
    have d: "distinct (map fst entries)" "g \<notin> fst ` set entries" using Cons.prems(1) by (auto simp: entry)
    note IH = Cons.IH[OF d(1) rest]
    show ?thesis
    proof (cases "f = g")
      case True
      then have keep: "pos_at s' f = pos_at s1 f" using IH d(2) by blast
      have once: "(f, pe', aa') \<in> set (entry # entries) \<longleftrightarrow> pe' = pe \<and> aa' = aa" for pe' aa'
        using d(2) True by (force simp: entry)
      show ?thesis unfolding keep p1 once using True entry by (auto split: option.splits)
    next
      case False
      then have "pos_at s1 f = pos_at s f" using p1 by simp
      then show ?thesis using IH False entry by auto
    qed
  qed
qed

end

lemma latest_manifests_dict: "latest_manifests E str_of feeds ms d = Inr d' \<Longrightarrow> dict_ok d \<Longrightarrow> dict_ok d'"
  by (induction ms arbitrary: d) (auto split: if_splits option.splits prod.splits)


lemma latest_manifests_covers:
  "latest_manifests E str_of feeds ms d = Inr d' \<Longrightarrow>
   (\<forall>g pe aa. dget d g = Some (pe, aa) \<longrightarrow> (\<exists>pe' aa'. dget d' g = Some (pe', aa') \<and> pe \<le> pe')) \<and>
   (\<forall>m\<in>set ms. contributes str_of feeds m \<longrightarrow>
      (\<exists>t pe aa. manifest_instant E (dget_none m ''period_end'') = Inr t \<and>
         dget d' (manifest_feed str_of m) = Some (pe, aa) \<and> t \<le> pe)) \<and>
   (\<forall>g pe aa. dget d' g = Some (pe, aa) \<longrightarrow> dget d g = Some (pe, aa) \<or>
      (\<exists>m\<in>set ms. contributes str_of feeds m \<and> manifest_feed str_of m = g))"
proof (induction ms arbitrary: d)
  case Nil
  then show ?case by auto
next
  case (Cons m ms)
  show ?case
  proof (cases "contributes str_of feeds m")
    case False
    then show ?thesis using Cons.IH[of d] Cons.prems by (auto 0 3)
  next
    case True
    obtain pe aa where t: "manifest_instant E (dget_none m ''period_end'') = Inr pe"
        "manifest_instant E (dget_none m ''available_at'') = Inr aa"
      using Cons.prems True by auto
    define d1 where "d1 = (case dget d (manifest_feed str_of m) of
               None \<Rightarrow> dset (manifest_feed str_of m) (pe, aa) d
             | Some (pe', aa') \<Rightarrow> if pe' < pe then dset (manifest_feed str_of m) (pe, aa) d else d)"
    have run: "latest_manifests E str_of feeds ms d1 = Inr d'" using Cons.prems True t by (simp add: d1_def)
    have grow: "\<exists>pe' aa'. dget d1 g = Some (pe', aa') \<and> q \<le> pe'" if "dget d g = Some (q, a)" for g q a
      using that by (auto simp: d1_def split: option.splits)
    have here: "\<exists>pe' aa'. dget d1 (manifest_feed str_of m) = Some (pe', aa') \<and> pe \<le> pe'"
      by (auto simp: d1_def split: option.splits)
    have older: "dget d1 g = Some (q, a) \<Longrightarrow> dget d g = Some (q, a) \<or> g = manifest_feed str_of m" for g q a
      by (auto simp: d1_def split: option.splits if_splits)
    note IH = Cons.IH[OF run]
    have g1: "\<exists>pe' aa'. dget d' g = Some (pe', aa') \<and> q \<le> pe'" if "dget d g = Some (q, a)" for g q a
      using grow[OF that] IH by (meson order_trans)
    have g2: "\<exists>pe' aa'. dget d' (manifest_feed str_of m) = Some (pe', aa') \<and> pe \<le> pe'"
      using here IH by (meson order_trans)
    have "\<exists>t pe aa. manifest_instant E (dget_none x ''period_end'') = Inr t \<and>
         dget d' (manifest_feed str_of x) = Some (pe, aa) \<and> t \<le> pe"
      if "x \<in> set (m # ms)" "contributes str_of feeds x" for x
    proof (cases "x = m")
      case True
      then show ?thesis using g2 t(1) by blast
    next
      case False
      then have "x \<in> set ms" using that(1) by simp
      then show ?thesis using IH that(2) by blast
    qed
    moreover have "dget d g = Some (q, a) \<or> (\<exists>x\<in>set (m # ms). contributes str_of feeds x \<and> manifest_feed str_of x = g)"
      if that': "dget d' g = Some (q, a)" for g q a
    proof (cases "dget d1 g = Some (q, a)")
      case d1: True
      show ?thesis using older[OF d1] True by auto
    next
      case False
      then obtain x where "x \<in> set ms" "contributes str_of feeds x" "manifest_feed str_of x = g"
        using IH that' by blast
      then show ?thesis by auto
    qed
    ultimately show ?thesis using g1 by blast
  qed
qed

context watermark_store
begin

lemma projection_rows:
  assumes run: "advance_available_manifest_watermarks E str_of read load advance observed s = (r, s')"
  shows "(case pos_at s g of None \<Rightarrow> True | Some k \<Rightarrow> \<exists>k'. pos_at s' g = Some k' \<and> k \<le> k') \<and>
    (is_ok r \<longrightarrow> (\<exists>feeds ms latest. read ''market_data.dataset_manifests'' = Inr ms \<and>
        latest_of_catalog E str_of read = Inr (remdups feeds, latest) \<and>
        (\<forall>m\<in>set ms. contributes str_of feeds m \<longrightarrow>
          (\<exists>t k. manifest_instant E (dget_none m ''period_end'') = Inr t \<and>
             pos_at s' (manifest_feed str_of m) = Some k \<and> (t, NO_SEQUENCE) \<le> k)) \<and>
        ((\<nexists>m. m \<in> set ms \<and> contributes str_of feeds m \<and> manifest_feed str_of m = g) \<longrightarrow> pos_at s' g = pos_at s g)))"
proof (cases "latest_of_catalog E str_of read")
  case (Inl e)
  then show ?thesis using run by (auto simp: advance_available_manifest_watermarks_def split: option.splits)
next
  case (Inr p)
  obtain fs latest where p: "p = (fs, latest)" by (cases p)
  obtain feeds ms where ms: "read ''market_data.dataset_manifests'' = Inr ms" "fs = remdups feeds"
      "latest_manifests E str_of feeds ms [] = Inr latest"
    using Inr p by (auto simp: latest_of_catalog_def)
  have dl: "dict_ok latest" using latest_manifests_dict[OF ms(3)] by simp
  define entries where "entries = sort_key fst latest"
  have de: "distinct (map fst entries)"
    using dl unfolding entries_def dict_ok_def by (metis mset_eq_imp_distinct_iff mset_map mset_sort)
  have in_e: "(h, pe, aa) \<in> set entries \<longleftrightarrow> dget latest h = Some (pe, aa)" for h pe aa
    using dget_in_set[OF dl] by (simp add: entries_def)
  obtain r0 where loop: "project_feeds load advance observed entries 0 [] s = (r0, s')" "is_ok r \<Longrightarrow> is_ok r0"
    using run Inr p by (auto simp: advance_available_manifest_watermarks_def entries_def split: prod.splits sum.splits)
  note rows = project_feeds_rows[OF de loop(1)]
  note cov = latest_manifests_covers[OF ms(3)]
  have "\<exists>t k. manifest_instant E (dget_none m ''period_end'') = Inr t \<and>
             pos_at s' (manifest_feed str_of m) = Some k \<and> (t, NO_SEQUENCE) \<le> k"
    if that': "is_ok r" "m \<in> set ms" "contributes str_of feeds m" for m
  proof -
    obtain t pe aa where t: "manifest_instant E (dget_none m ''period_end'') = Inr t"
        "dget latest (manifest_feed str_of m) = Some (pe, aa)" "t \<le> pe"
      using cov that'(2,3) by blast
    have "pos_at s' (manifest_feed str_of m) = Some (case pos_at s (manifest_feed str_of m) of
        None \<Rightarrow> (pe, NO_SEQUENCE) | Some k \<Rightarrow> max k (pe, NO_SEQUENCE))"
      using rows[of "manifest_feed str_of m"] loop(2)[OF that'(1)] t(2) in_e by blast
    moreover have "(t, NO_SEQUENCE) \<le> (pe, NO_SEQUENCE)" using t(3) by (simp add: less_eq_prod_def)
    ultimately show ?thesis using t(1) by (auto simp: le_max_iff_disj split: option.splits)
  qed
  moreover have "pos_at s' g = pos_at s g" if "\<nexists>m. m \<in> set ms \<and> contributes str_of feeds m \<and> manifest_feed str_of m = g"
  proof -
    have "dget latest g \<noteq> Some (pe, aa)" for pe aa using cov that by fastforce
    then have "dget latest g = None" by (cases "dget latest g") auto
    then have "g \<notin> fst ` set entries" by (auto simp: entries_def map_of_eq_None_iff)
    then show ?thesis using rows[of g] by blast
  qed
  ultimately show ?thesis using rows[of g] ms Inr p by blast
qed

end


definition projection_catalog :: "string \<Rightarrow> doc list res" where
  "projection_catalog t =
     (if t = ''market_data.providers'' then Inr [[(''id'', VStr ''P''), (''status'', VStr ''ACTIVE'')]]
      else if t = ''market_data.feeds'' then
        Inr [[(''id'', VStr ''F''), (''provider_id'', VStr ''P''), (''retired_at'', VNone)],
             [(''id'', VStr ''G''), (''provider_id'', VStr ''P''), (''retired_at'', VStr ''1970-01-01T00:00:00Z'')]]
      else Inr [[(''feed_id'', VStr ''F''), (''status'', VStr ''AVAILABLE''),
                 (''period_end'', VStr ''1970-01-01T00:00:00Z''), (''available_at'', VStr ''1970-01-01T00:00:00Z'')]])"



end
