(* ===== verification/Quality_Recording.thy ===== *)
theory Quality_Recording
  imports Quality Catalog_Transactions
begin

text \<open>
  \<open>record_quality_incidents\<close> against the interface it names, \<open>QualityIncidentRecorder\<close>: anything that
  persists one row. The contract is a locale; the local catalog is shown to meet it.
\<close>

section \<open>Dictionary updates, repeated\<close>

lemma dict_eqI:
  assumes "dict_ok a" "map fst a = map fst b" "map_of a = map_of b" shows "a = b"
proof -
  have "dict_ok b" using assms(1,2) by (simp add: dict_ok_def)
  then show ?thesis
    using map_of_self[of a] map_of_self[of b] assms by (metis dict_ok_def)
qed

definition apply_rows :: "('k \<times> 'v) list \<Rightarrow> ('k, 'v) dict \<Rightarrow> ('k, 'v) dict" where
  "apply_rows kvs d = fold (\<lambda>(k, v). dset k v) kvs d"

lemma apply_rows_simps [simp]: "apply_rows [] d = d" "apply_rows ((k, v) # kvs) d = apply_rows kvs (dset k v d)"
  by (simp_all add: apply_rows_def)

lemma dict_ok_apply_rows: "dict_ok d \<Longrightarrow> dict_ok (apply_rows kvs d)"
  unfolding apply_rows_def by (rule dict_ok_fold_dset)

lemma dget_apply_rows: "dget (apply_rows kvs d) k = (case map_of (rev kvs) k of None \<Rightarrow> dget d k | Some v \<Rightarrow> Some v)"
  by (induction kvs arbitrary: d) (auto split: option.splits simp: map_add_def)

lemma keys_apply_rows: "\<forall>(k, v)\<in>set kvs. has_key d k \<Longrightarrow> map fst (apply_rows kvs d) = map fst d"
  by (induction kvs arbitrary: d) (auto simp: keys_dset split_beta)

lemma has_key_apply_rows: "has_key (apply_rows kvs d) k \<longleftrightarrow> k \<in> fst ` set kvs \<or> has_key d k"
proof (cases "map_of (rev kvs) k")
  case None
  then have "k \<notin> fst ` set kvs" by (simp add: map_of_eq_None_iff)
  then show ?thesis using None by (simp add: has_key_def dget_apply_rows)
next
  case (Some v)
  then have "k \<in> fst ` set kvs" using map_of_SomeD[OF Some] by force
  then show ?thesis using Some by (simp add: has_key_def dget_apply_rows)
qed

lemma apply_rows_idem: "dict_ok d \<Longrightarrow> apply_rows kvs (apply_rows kvs d) = apply_rows kvs d"
proof (rule dict_eqI)
  assume "dict_ok d"
  then show "dict_ok (apply_rows kvs (apply_rows kvs d))" by (simp add: dict_ok_apply_rows)
  show "map fst (apply_rows kvs (apply_rows kvs d)) = map fst (apply_rows kvs d)"
    by (rule keys_apply_rows) (force simp: has_key_apply_rows)
  show "map_of (apply_rows kvs (apply_rows kvs d)) = map_of (apply_rows kvs d)"
    by (rule ext) (simp add: dget_apply_rows split: option.splits)
qed

section \<open>The rows a batch of incidents writes\<close>

fun fresh_incidents :: "env \<Rightarrow> string option \<Rightarrow> string list \<Rightarrow> quality_incident list \<Rightarrow> quality_incident list" where
  "fresh_incidents E m seen [] = []"
| "fresh_incidents E m seen (q # qs) =
     (let i = row_id_of E q m in
      if i \<in> set seen then fresh_incidents E m seen qs else q # fresh_incidents E m (i # seen) qs)"

lemma fresh_incidents_subset: "set (fresh_incidents E m seen qs) \<subseteq> set qs"
  by (induction qs arbitrary: seen) (auto simp: Let_def)

lemma fresh_incident_ids:
  "distinct (map (\<lambda>q. row_id_of E q m) (fresh_incidents E m seen qs)) \<and>
   (\<lambda>q. row_id_of E q m) ` set (fresh_incidents E m seen qs) = (\<lambda>q. row_id_of E q m) ` set qs - set seen"
  by (induction qs arbitrary: seen) (auto simp: Let_def)

lemma length_fresh_incidents:
  "length (fresh_incidents E m [] qs) = card ((\<lambda>q. row_id_of E q m) ` set qs)"
proof -
  have d: "distinct (map (\<lambda>q. row_id_of E q m) (fresh_incidents E m [] qs))"
    and s: "(\<lambda>q. row_id_of E q m) ` set (fresh_incidents E m [] qs) = (\<lambda>q. row_id_of E q m) ` set qs"
    using fresh_incident_ids[of E m "[]" qs] by auto
  have "length (fresh_incidents E m [] qs) = card (set (map (\<lambda>q. row_id_of E q m) (fresh_incidents E m [] qs)))"
    using distinct_card[OF d] by simp
  then show ?thesis using s by simp
qed

section \<open>The recorder interface\<close>

locale incident_recorder =
  fixes record_row :: "doc \<Rightarrow> 's \<Rightarrow> unit res \<times> 's"
    and inv :: "'s \<Rightarrow> bool"
    and accepts :: "doc \<Rightarrow> bool"
    and entry :: "doc \<Rightarrow> 'k \<times> 'v"
    and rows :: "'s \<Rightarrow> ('k, 'v) dict"
  assumes record_accepted:
      "inv s \<Longrightarrow> accepts r \<Longrightarrow>
       \<exists>s'. record_row r s = (Inr (), s') \<and> inv s' \<and> rows s' = dset (fst (entry r)) (snd (entry r)) (rows s)"
    and rows_dict: "inv s \<Longrightarrow> dict_ok (rows s)"
begin

lemma record_from_rows:
  "inv s \<Longrightarrow> \<forall>q\<in>set qs. accepts (to_db_row E q m) \<Longrightarrow>
   \<exists>s'. record_from E record_row m seen n qs s = (Inr (n + length (fresh_incidents E m seen qs)), s') \<and> inv s' \<and>
        rows s' = apply_rows (map (\<lambda>q. entry (to_db_row E q m)) (fresh_incidents E m seen qs)) (rows s)"
proof (induction qs arbitrary: seen n s)
  case (Cons q qs)
  show ?case
  proof (cases "row_id_of E q m \<in> set seen")
    case True
    then show ?thesis using Cons by simp
  next
    case False
    obtain s1 where s1: "record_row (to_db_row E q m) s = (Inr (), s1)" "inv s1"
        "rows s1 = dset (fst (entry (to_db_row E q m))) (snd (entry (to_db_row E q m))) (rows s)"
      using record_accepted[OF Cons.prems(1)] Cons.prems(2) by (meson list.set_intros(1))
    have "\<forall>q\<in>set qs. accepts (to_db_row E q m)" using Cons.prems(2) by simp
    from Cons.IH[OF s1(2) this, of "row_id_of E q m # seen" "Suc n"] s1 False show ?thesis
      by (cases "entry (to_db_row E q m)") auto
  qed
qed simp

lemma record_batch:
  assumes "inv s" "\<forall>q\<in>set qs. accepts (to_db_row E q m)"
  obtains s' where "record_quality_incidents E record_row qs m s = (Inr (card ((\<lambda>q. row_id_of E q m) ` set qs)), s')"
    "inv s'" "rows s' = apply_rows (map (\<lambda>q. entry (to_db_row E q m)) (fresh_incidents E m [] qs)) (rows s)"
  using record_from_rows[OF assms, of "[]" 0] length_fresh_incidents[of E m qs]
  by (auto simp: record_quality_incidents_def)

lemma record_batch_again:
  assumes "inv s" "\<forall>q\<in>set qs. accepts (to_db_row E q m)" "record_quality_incidents E record_row qs m s = (r, s')"
  shows "\<exists>s''. record_quality_incidents E record_row qs m s' = (r, s'') \<and> inv s'' \<and> rows s'' = rows s'"
proof -
  obtain s1 where s1: "record_quality_incidents E record_row qs m s = (Inr (card ((\<lambda>q. row_id_of E q m) ` set qs)), s1)"
      "inv s1" "rows s1 = apply_rows (map (\<lambda>q. entry (to_db_row E q m)) (fresh_incidents E m [] qs)) (rows s)"
    using record_batch[OF assms(1,2)] .
  obtain s2 where "record_quality_incidents E record_row qs m s1 = (Inr (card ((\<lambda>q. row_id_of E q m) ` set qs)), s2)"
      "inv s2" "rows s2 = apply_rows (map (\<lambda>q. entry (to_db_row E q m)) (fresh_incidents E m [] qs)) (rows s1)"
    using record_batch[OF s1(2) assms(2)] .
  then show ?thesis using s1 assms(3) apply_rows_idem[OF rows_dict[OF assms(1)]] by auto
qed

end

section \<open>The local catalog is a recorder\<close>

abbreviation INCIDENTS :: string where
  "INCIDENTS \<equiv> ''market_data.quality_incidents''"

definition catalog_record :: "env \<Rightarrow> (pyobj \<Rightarrow> string) \<Rightarrow> doc \<Rightarrow> local_catalog \<Rightarrow> unit res \<times> local_catalog" where
  "catalog_record E f r c = record_quality_incident E f (as_record_of r) c"

definition catalog_accepts :: "env \<Rightarrow> (pyobj \<Rightarrow> string) \<Rightarrow> doc \<Rightarrow> bool" where
  "catalog_accepts E f r \<longleftrightarrow>
     (case normalise_record E f INCIDENTS (as_record_of r) of
        Inl _ \<Rightarrow> False
      | Inr c \<Rightarrow> has_key c ''id'' \<and> list_all (\<lambda>(_, v). dumpable v) c)"

definition catalog_entry :: "env \<Rightarrow> (pyobj \<Rightarrow> string) \<Rightarrow> doc \<Rightarrow> string \<times> doc" where
  "catalog_entry E f r =
     (case normalise_record E f INCIDENTS (as_record_of r) of
        Inl _ \<Rightarrow> ([], [])
      | Inr c \<Rightarrow> (case row_id f c of Inl _ \<Rightarrow> ([], []) | Inr k \<Rightarrow> (k, json_row c)))"

definition incident_rows :: "(pyobj \<Rightarrow> string) \<Rightarrow> local_catalog \<Rightarrow> (string, doc) dict" where
  "incident_rows f c = (case table_view f c INCIDENTS of Inl _ \<Rightarrow> [] | Inr d \<Rightarrow> d)"

lemma incidents_table: "INCIDENTS \<in> set ID_TABLES" "dget NATURAL_KEYS INCIDENTS = None"
  by code_simp+

interpretation catalog: incident_recorder
  "catalog_record E f" "\<lambda>c. table_ok f c INCIDENTS" "catalog_accepts E f" "catalog_entry E f" "incident_rows f"
  for E f
proof
  fix c r assume ok: "table_ok f c INCIDENTS" and acc: "catalog_accepts E f r"
  obtain canonical where n: "normalise_record E f INCIDENTS (as_record_of r) = Inr canonical"
      and i: "has_key canonical ''id''" and d: "list_all (\<lambda>(_, v). dumpable v) canonical"
    using acc by (auto simp: catalog_accepts_def split: sum.splits)
  show "\<exists>s'. catalog_record E f r c = (Inr (), s') \<and> table_ok f s' INCIDENTS \<and>
      incident_rows f s' = dset (fst (catalog_entry E f r)) (snd (catalog_entry E f r)) (incident_rows f c)"
    using upsert_by_id[OF ok incidents_table n i d]
    by (auto simp: catalog_record_def record_quality_incident_def catalog_entry_def n incident_rows_def)
next
  fix c assume ok: "table_ok f c INCIDENTS"
  obtain p where p: "path_of INCIDENTS = Inr p" using id_table_path[OF incidents_table(1)] by blast
  obtain d where "table_view f c INCIDENTS = Inr d" "dict_ok d" by (rule table_view_ok[OF ok incidents_table(1) p])
  then show "dict_ok (incident_rows f c)" by (simp add: incident_rows_def)
qed

text \<open>C22: Recording incidents into the catalog writes one row per distinct incident and is idempotent:
  every incident's row is stored under its id, the count returned is the number of distinct row ids, and
  recording the same incidents again succeeds with the same count and leaves the table as it was.\<close>

theorem recording_is_idempotent:
  assumes ok: "table_ok f c INCIDENTS" and acc: "\<forall>q\<in>set qs. catalog_accepts E f (to_db_row E q m)"
  shows "\<exists>c' c''. record_quality_incidents E (catalog_record E f) qs m c = (Inr (card ((\<lambda>q. row_id_of E q m) ` set qs)), c') \<and>
     (\<forall>q\<in>set qs. \<exists>q'\<in>set qs. row_id_of E q' m = row_id_of E q m \<and> has_key (incident_rows f c') (fst (catalog_entry E f (to_db_row E q' m)))) \<and>
     record_quality_incidents E (catalog_record E f) qs m c' = (Inr (card ((\<lambda>q. row_id_of E q m) ` set qs)), c'') \<and>
     incident_rows f c'' = incident_rows f c'"
proof -
  obtain c' where c': "record_quality_incidents E (catalog_record E f) qs m c = (Inr (card ((\<lambda>q. row_id_of E q m) ` set qs)), c')"
      "incident_rows f c' = apply_rows (map (\<lambda>q. catalog_entry E f (to_db_row E q m)) (fresh_incidents E m [] qs)) (incident_rows f c)"
    using catalog.record_batch[OF ok acc] by metis
  obtain c'' where c'': "record_quality_incidents E (catalog_record E f) qs m c' = (Inr (card ((\<lambda>q. row_id_of E q m) ` set qs)), c'')"
      "incident_rows f c'' = incident_rows f c'"
    using catalog.record_batch_again[OF ok acc c'(1)] by blast
  have "\<exists>q'\<in>set qs. row_id_of E q' m = row_id_of E q m \<and> has_key (incident_rows f c') (fst (catalog_entry E f (to_db_row E q' m)))"
    if "q \<in> set qs" for q
  proof -
    have "row_id_of E q m \<in> (\<lambda>q. row_id_of E q m) ` set (fresh_incidents E m [] qs)"
      using fresh_incident_ids[of E m "[]" qs] that by auto
    then obtain q' where "q' \<in> set (fresh_incidents E m [] qs)" "row_id_of E q' m = row_id_of E q m" by auto
    then show ?thesis using fresh_incidents_subset[of E m "[]" qs] by (auto simp: c'(2) has_key_apply_rows)
  qed
  then show ?thesis using c'(1) c'' by blast
qed


definition demo_incident :: quality_incident where
  "demo_incident = \<lparr>qi_incident_code = ''MISSING_BARS'', qi_severity = ''WARNING'',
     qi_scope = \<lparr>is_breadth = BAR_RANGE, is_period_start = 0, is_period_end = 1, is_instrument_id = Some ''A'',
       is_shard_key = Some ''s'', is_partition_start = Some 719163, is_partition_end = Some 719164,
       is_affected_bar_count = 1, is_evidence_object_id = None, is_manifest_wide_reason = []\<rparr>,
     qi_detected_at = 0, qi_message = [], qi_policy_version = [], qi_status = ''ACTIVE'', qi_resolved_at = None\<rparr>"

theorem recording_is_idempotent_witness:
  "\<exists>c' c''. record_quality_incidents issue_env (catalog_record issue_env no_str) [demo_incident, demo_incident] None new_catalog
       = (Inr 1, c') \<and>
     record_quality_incidents issue_env (catalog_record issue_env no_str) [demo_incident, demo_incident] None c' = (Inr 1, c'') \<and>
     incident_rows no_str c'' = incident_rows no_str c'"
proof -
  have ok: "table_ok no_str new_catalog INCIDENTS" by (simp add: table_ok_def new_catalog_def)
  have "catalog_accepts issue_env no_str (to_db_row issue_env demo_incident None)" by code_simp
  then have acc: "\<forall>q\<in>set [demo_incident, demo_incident]. catalog_accepts issue_env no_str (to_db_row issue_env q None)" by simp
  show ?thesis using recording_is_idempotent[OF ok acc] by auto
qed

end
