(* ===== verification/Warmup_Gate.thy ===== *)
theory Warmup_Gate
  imports Quality_Recording Watermarks
begin

text \<open>
  \<open>market_pipeline_lib/warmup_gate.py\<close> and the verdict of \<open>market_pipeline_lib/realtime_warmup.py\<close>:
  may a consumer start from a session? The data, the watermark and the feature batch are checked in
  that order; a block is then recorded as an incident and quarantines the manifest. The catalog is the
  local one, the watermark row is what \<open>load\<close> answers, the feature batch is what its
  \<open>consume\<close> does.
\<close>

section \<open>The verdict\<close>

datatype block_reason =
    DAILY_OBJECT_MISSING | MANIFEST_NOT_AVAILABLE | WATERMARK_MISSING | WATERMARK_STALE
  | WATERMARK_BEHIND_SESSION | FEATURE_BATCH_MISSING | FEATURE_BATCH_INCOMPLETE

definition reason_code :: "block_reason \<Rightarrow> string" where
  "reason_code r =
     (case r of
        DAILY_OBJECT_MISSING \<Rightarrow> ''D90_DAILY_OBJECT_MISSING''
      | MANIFEST_NOT_AVAILABLE \<Rightarrow> ''D90_MANIFEST_NOT_AVAILABLE''
      | WATERMARK_MISSING \<Rightarrow> ''D90_WATERMARK_MISSING''
      | WATERMARK_STALE \<Rightarrow> ''D90_WATERMARK_STALE''
      | WATERMARK_BEHIND_SESSION \<Rightarrow> ''D90_WATERMARK_BEHIND_SESSION''
      | FEATURE_BATCH_MISSING \<Rightarrow> ''D90_FEATURE_BATCH_MISSING''
      | FEATURE_BATCH_INCOMPLETE \<Rightarrow> ''D90_FEATURE_BATCH_INCOMPLETE'')"

definition READY :: string where "READY = ''READY''"
definition BLOCKED :: string where "BLOCKED = ''BLOCKED''"

definition READINESS_MANIFEST_STATUS :: "(string, string) dict" where
  "READINESS_MANIFEST_STATUS = [(READY, ''AVAILABLE''), (BLOCKED, ''QUARANTINED'')]"

record warmup_readiness =
  rd_state :: string
  rd_session_date_et :: string
  rd_feed_id :: string
  rd_evaluated_at :: instant
  rd_reason_code :: "string option"
  rd_detail :: "string option"
  rd_manifest_id :: "string option"
  rd_observed :: doc

definition mk_readiness ::
  "env \<Rightarrow> string \<Rightarrow> string \<Rightarrow> string \<Rightarrow> moment \<Rightarrow> string option \<Rightarrow> string option \<Rightarrow> string option \<Rightarrow> doc
    \<Rightarrow> warmup_readiness res" where
  "mk_readiness E state session feed evaluated_at reason detail manifest_id observed =
     bindE (guardE (has_key READINESS_MANIFEST_STATUS state) ValueError) (\<lambda>_.
     bindE (guardE (session \<noteq> []) ValueError) (\<lambda>_.
     bindE (guardE (date_fromisoformat E session \<noteq> None) ValueError) (\<lambda>_.
     bindE (guardE (feed \<noteq> []) ValueError) (\<lambda>_.
     bindE (utc evaluated_at) (\<lambda>t.
     bindE (guardE (if state = BLOCKED then \<not> empty_text reason \<and> \<not> empty_text detail
                    else reason = None \<and> detail = None) ValueError) (\<lambda>_.
       Inr \<lparr>rd_state = state, rd_session_date_et = session, rd_feed_id = feed, rd_evaluated_at = t,
            rd_reason_code = reason, rd_detail = detail, rd_manifest_id = manifest_id, rd_observed = observed\<rparr>))))))"

definition rd_blocked :: "warmup_readiness \<Rightarrow> bool" where
  "rd_blocked r \<longleftrightarrow> rd_state r = BLOCKED"

definition manifest_status :: "warmup_readiness \<Rightarrow> string res" where
  "manifest_status r = (case dget READINESS_MANIFEST_STATUS (rd_state r) of None \<Rightarrow> Inl KeyError | Some s \<Rightarrow> Inr s)"

definition as_document :: "warmup_readiness \<Rightarrow> doc" where
  "as_document r =
     [(''state'', VStr (rd_state r)), (''reason_code'', opt_value (rd_reason_code r)),
      (''detail'', opt_value (rd_detail r)), (''feed_id'', VStr (rd_feed_id r)),
      (''session_date_et'', VStr (rd_session_date_et r)), (''evaluated_at'', VStr (iso_utc (rd_evaluated_at r))),
      (''observed'', VMap (sort_key fst (rd_observed r)))]"

section \<open>What a start requires\<close>

definition BLOCK_SEVERITY :: string where "BLOCK_SEVERITY = ''ERROR''"
definition NEVER_OPENED_MARKER :: string where "NEVER_OPENED_MARKER = ''has never been opened''"

record warmup_coverage =
  wc_contract :: dataset_contract
  wc_session :: date
  wc_granularity :: string
  wc_required_shards :: "string list"
  wc_required_watermark_at :: instant

definition wc_bounds :: "warmup_coverage \<Rightarrow> (date \<times> date) res" where
  "wc_bounds c = partition_of (wc_session c) (wc_granularity c)"

definition wc_period :: "env \<Rightarrow> warmup_coverage \<Rightarrow> (instant \<times> instant) res" where
  "wc_period E c = bindE (wc_bounds c) (\<lambda>(start, end). Inr (et_midnight E start, et_midnight E end))"

definition mk_coverage ::
  "env \<Rightarrow> dataset_contract \<Rightarrow> date \<Rightarrow> string \<Rightarrow> string list \<Rightarrow> moment \<Rightarrow> warmup_coverage res" where
  "mk_coverage E contract session granularity shards required_at =
     bindE (guardE (shards \<noteq> []) ValueError) (\<lambda>_.
     bindE (guardE (distinct shards) ValueError) (\<lambda>_.
     bindE (utc required_at) (\<lambda>t.
       let c = \<lparr>wc_contract = contract, wc_session = session, wc_granularity = granularity,
                wc_required_shards = shards, wc_required_watermark_at = t\<rparr>
       in bindE (wc_period E c) (\<lambda>(lower, upper).
            if lower \<le> t \<and> t < upper then Inr c else Inl ValueError))))"

record warmup_gate =
  wg_feed_id :: string
  wg_freshness_budget :: int

definition mk_gate :: "string \<Rightarrow> int \<Rightarrow> warmup_gate res" where
  "mk_gate feed budget =
     (if budget \<le> 0 then Inl ValueError else Inr \<lparr>wg_feed_id = feed, wg_freshness_budget = budget\<rparr>)"

section \<open>Texts\<close>

text \<open>\<open>repr\<close> of a string and of a list of strings, on ASCII.\<close>

definition hex_digit :: "nat \<Rightarrow> char" where
  "hex_digit d = (if d < 10 then char_of (48 + d) else char_of (87 + d))"

definition repr_char :: "char \<Rightarrow> char \<Rightarrow> string" where
  "repr_char quote c =
     (if c = quote \<or> c = char_of (92::nat) then [char_of (92::nat), c]
      else if c = char_of (10::nat) then [char_of (92::nat), CHR ''n'']
      else if c = char_of (13::nat) then [char_of (92::nat), CHR ''r'']
      else if c = char_of (9::nat) then [char_of (92::nat), CHR ''t'']
      else if (of_char c :: nat) < 32 \<or> (of_char c :: nat) = 127
      then [char_of (92::nat), CHR ''x'', hex_digit (of_char c div 16), hex_digit (of_char c mod 16)]
      else [c])"

definition repr_str :: "string \<Rightarrow> string" where
  "repr_str s =
     (let apostrophe = char_of (39::nat); double = char_of (34::nat);
          quote = (if apostrophe \<in> set s \<and> double \<notin> set s then double else apostrophe)
      in quote # concat (map (repr_char quote) s) @ [quote])"

definition repr_list :: "string list \<Rightarrow> string" where
  "repr_list xs = ''['' @ join '', '' (map repr_str xs) @ '']''"

text \<open>A duration in microseconds; \<open>int(total_seconds())\<close> truncates (exact below \<open>2^53\<close> microseconds).\<close>

definition iso_duration :: "int \<Rightarrow> string" where
  "iso_duration delta =
     (let s = abs delta div 1000000;
          hours = s div 3600; minutes = s mod 3600 div 60; seconds = s mod 60;
          body = (if hours \<noteq> 0 then int_str hours @ ''H'' else []) @
                 (if minutes \<noteq> 0 then int_str minutes @ ''M'' else []) @
                 (if seconds \<noteq> 0 \<or> (hours = 0 \<and> minutes = 0) then int_str seconds @ ''S'' else [])
      in (if delta < 0 \<and> s \<noteq> 0 then ''-'' else []) @ ''PT'' @ body)"

section \<open>The three checks\<close>

type_synonym block = "(block_reason \<times> string) option"

definition text_is :: "(pyobj \<Rightarrow> string) \<Rightarrow> doc \<Rightarrow> string \<Rightarrow> string \<Rightarrow> bool res" where
  "text_is f r k s = bindE (get_item r k) (\<lambda>v. Inr (py_str f v = s))"

definition gate_candidate :: "(pyobj \<Rightarrow> string) \<Rightarrow> warmup_gate \<Rightarrow> dataset_contract \<Rightarrow> doc \<Rightarrow> bool res" where
  "gate_candidate f g contract r =
     all_of [text_is f r ''feed_id'' (wg_feed_id g), text_is f r ''data_layer'' (dc_data_layer contract),
             text_is f r ''resolution'' (dc_resolution contract)]"

definition int_item :: "doc \<Rightarrow> string \<Rightarrow> int res" where
  "int_item r k = bindE (get_item r k) (\<lambda>v. issue_int (OVal v))"

text \<open>\<open>max(available, key=...)\<close>: the first of the highest revision.\<close>

definition newest :: "doc list \<Rightarrow> (int \<times> doc) res" where
  "newest rows =
     bindE (mapE (\<lambda>r. bindE (int_item r ''revision_number'') (\<lambda>n. Inr (n, r))) rows) (\<lambda>ps.
       case ps of [] \<Rightarrow> Inl ValueError | p # ps' \<Rightarrow> Inr (max_by fst p ps'))"

definition gate_date :: "env \<Rightarrow> (pyobj \<Rightarrow> string) \<Rightarrow> doc \<Rightarrow> string \<Rightarrow> date res" where
  "gate_date E f item k =
     bindE (get_item item k) (\<lambda>v.
       case date_fromisoformat E (take 10 (py_str f v)) of None \<Rightarrow> Inl ValueError | Some d \<Rightarrow> Inr d)"

definition covers_session :: "env \<Rightarrow> (pyobj \<Rightarrow> string) \<Rightarrow> warmup_coverage \<Rightarrow> doc \<Rightarrow> bool res" where
  "covers_session E f c item =
     all_of [bindE (gate_date E f item ''partition_start'') (\<lambda>d. Inr (d \<le> wc_session c)),
             bindE (gate_date E f item ''partition_end'') (\<lambda>d. Inr (wc_session c < d)),
             text_is f item ''partition_granularity'' (wc_granularity c)]"

definition covered_shards :: "env \<Rightarrow> (pyobj \<Rightarrow> string) \<Rightarrow> warmup_coverage \<Rightarrow> doc list \<Rightarrow> string list res" where
  "covered_shards E f c items =
     bindE (mapE (\<lambda>item. bindE (covers_session E f c item) (\<lambda>b.
              if b then bindE (get_item item ''shard_key'') (\<lambda>v. Inr [py_str f v]) else Inr [])) items) (\<lambda>xs.
       Inr (concat xs))"

definition session_text :: "warmup_coverage \<Rightarrow> string" where
  "session_text c = isoformat_date (wc_session c)"

definition missing_shards :: "string list \<Rightarrow> string list \<Rightarrow> string list" where
  "missing_shards required covered = filter (\<lambda>s. s \<notin> set covered) required"

definition no_manifest_text :: "warmup_gate \<Rightarrow> warmup_coverage \<Rightarrow> string" where
  "no_manifest_text g cov =
     ''no dataset manifest exists for feed '' @ wg_feed_id g @ '' ('' @ dc_data_layer (wc_contract cov) @ ''/'' @
     dc_resolution (wc_contract cov) @ '') covering '' @ session_text cov"

definition not_available_text :: "warmup_coverage \<Rightarrow> string list \<Rightarrow> string" where
  "not_available_text cov statuses =
     ''the only manifests for '' @ session_text cov @ '' are '' @ repr_list (dedup_sorted statuses) @
     ''; C starts only from AVAILABLE''"

definition uncovered_text :: "warmup_coverage \<Rightarrow> string \<Rightarrow> date \<Rightarrow> date \<Rightarrow> string list \<Rightarrow> string" where
  "uncovered_text cov i start end missing =
     ''manifest '' @ i @ '' has no '' @ wc_granularity cov @ '' object covering '' @ session_text cov @ '' ('' @
     isoformat_date start @ ''..'' @ isoformat_date end @ '') for shard(s) '' @ repr_list missing"

definition no_watermark_text :: "warmup_gate \<Rightarrow> string" where
  "no_watermark_text g =
     ''market_data.stream_watermarks has no row for feed '' @ wg_feed_id g @
     ''; nothing has ever been ingested, so freshness is unknown rather than good''"

definition stale_text :: "warmup_gate \<Rightarrow> stream_watermark \<Rightarrow> instant \<Rightarrow> string" where
  "stale_text g w now =
     ''feed '' @ wg_feed_id g @ '' last ingested at '' @ iso_utc (wm_ingested_at w) @ '', '' @
     iso_duration (now - wm_ingested_at w) @ '' before '' @ iso_utc now @ '', which exceeds the '' @
     iso_duration (wg_freshness_budget g) @ '' budget''"

definition behind_text :: "warmup_gate \<Rightarrow> warmup_coverage \<Rightarrow> stream_watermark \<Rightarrow> string" where
  "behind_text g cov w =
     ''feed '' @ wg_feed_id g @ '' has consumed only up to '' @ position_isoformat (wm_position w) @ '', short of the '' @
     session_text cov @ '' completion target '' @ iso_utc (wc_required_watermark_at cov)"

definition check_data ::
  "env \<Rightarrow> (pyobj \<Rightarrow> string) \<Rightarrow> local_catalog \<Rightarrow> warmup_gate \<Rightarrow> warmup_coverage \<Rightarrow> doc \<Rightarrow> (doc option \<times> block \<times> doc) res" where
  "check_data E f c g cov observed =
     (let contract = wc_contract cov in
      bindE (records E f c MANIFESTS []) (\<lambda>rows.
      bindE (filterE (gate_candidate f g contract) rows) (\<lambda>candidates.
        if candidates = [] then
          Inr (None, Some (DAILY_OBJECT_MISSING, no_manifest_text g cov),
               dset ''manifest_count'' (VInt 0) observed)
        else
          bindE (filterE (\<lambda>r. text_is f r ''status'' ''AVAILABLE'') candidates) (\<lambda>available.
          let observed = dset ''manifest_count'' (VInt (int (length candidates))) observed in
          if available = [] then
            bindE (mapE (\<lambda>r. bindE (get_item r ''status'') (\<lambda>v. Inr (py_str f v))) candidates) (\<lambda>statuses.
              Inr (None, Some (MANIFEST_NOT_AVAILABLE, not_available_text cov statuses), observed))
          else
            bindE (newest available) (\<lambda>(revision, manifest).
            bindE (row_id f manifest) (\<lambda>i.
            let observed = dset ''manifest_revision'' (VInt revision) (dset ''manifest_id'' (VStr i) observed) in
            bindE (wc_bounds cov) (\<lambda>(start, end).
            bindE (objects_for_manifest E f c i) (\<lambda>items.
            bindE (covered_shards E f cov items) (\<lambda>covered.
            let observed = dset ''covered_shards'' (VList (map VStr (dedup_sorted covered))) observed;
                missing = missing_shards (wc_required_shards cov) covered in
            Inr (Some manifest,
                 if missing = [] then None
                 else Some (DAILY_OBJECT_MISSING, uncovered_text cov i start end missing),
                 observed))))))))))"

definition check_watermark ::
  "stream_watermark option \<Rightarrow> warmup_gate \<Rightarrow> warmup_coverage \<Rightarrow> moment \<Rightarrow> doc \<Rightarrow> (block \<times> doc) res" where
  "check_watermark stored g cov evaluated_at observed =
     (case stored of
        None \<Rightarrow> Inr (Some (WATERMARK_MISSING, no_watermark_text g), observed)
      | Some w \<Rightarrow>
          let observed = dset ''watermark_ingested_at'' (VStr (iso_utc (wm_ingested_at w)))
                (dset ''watermark_sequence'' (case sp_sequence (wm_position w) of None \<Rightarrow> VNone | Some n \<Rightarrow> VInt n)
                  (dset ''watermark_source_event_at'' (VStr (position_isoformat (wm_position w))) observed)) in
          (case evaluated_at of
             Naive _ \<Rightarrow> Inl TypeError
           | Aware now \<Rightarrow>
               let age = now - wm_ingested_at w; target = wc_required_watermark_at cov in
               if wg_freshness_budget g < age then
                 Inr (Some (WATERMARK_STALE, stale_text g w now), observed)
               else
                 let observed = dset ''required_watermark_at'' (VStr (iso_utc target)) observed in
                 if sp_source_event_at (wm_position w) < target then
                   Inr (Some (WATERMARK_BEHIND_SESSION, behind_text g cov w), observed)
                 else Inr (None, observed)))"

text \<open>What \<open>consume\<close> of the pinned feature batch does: returns, or raises with its message.\<close>

datatype batch_answer =
    BatchConsumable | BatchNotConsumable string | BatchPartial string | BatchRaised exc

definition check_features :: "batch_answer option \<Rightarrow> doc \<Rightarrow> (block \<times> doc) res" where
  "check_features batch observed =
     (case batch of
        None \<Rightarrow> Inr (None, dset ''feature_batch_checked'' (VBool False) observed)
      | Some answer \<Rightarrow>
          let observed = dset ''feature_batch_checked'' (VBool True) observed in
          (case answer of
             BatchConsumable \<Rightarrow> Inr (None, observed)
           | BatchNotConsumable m \<Rightarrow>
               Inr (Some (if sublist NEVER_OPENED_MARKER m then FEATURE_BATCH_MISSING else FEATURE_BATCH_INCOMPLETE, m), observed)
           | BatchPartial m \<Rightarrow> Inr (Some (FEATURE_BATCH_INCOMPLETE, m), observed)
           | BatchRaised e \<Rightarrow> Inl e))"

section \<open>Evaluation\<close>

definition blocked_verdict ::
  "env \<Rightarrow> warmup_gate \<Rightarrow> warmup_coverage \<Rightarrow> moment \<Rightarrow> string option \<Rightarrow> doc \<Rightarrow> block_reason \<Rightarrow> string \<Rightarrow> warmup_readiness res" where
  "blocked_verdict E g cov evaluated_at manifest_id observed reason detail =
     mk_readiness E BLOCKED (session_text cov) (wg_feed_id g) evaluated_at (Some (reason_code reason)) (Some detail)
       manifest_id observed"

definition first_observed :: "warmup_gate \<Rightarrow> warmup_coverage \<Rightarrow> doc" where
  "first_observed g cov =
     [(''feed_id'', VStr (wg_feed_id g)), (''session_date_et'', VStr (session_text cov)),
      (''required_shards'', VList (map VStr (wc_required_shards cov))),
      (''freshness_budget'', VStr (iso_duration (wg_freshness_budget g)))]"

definition evaluate ::
  "env \<Rightarrow> (pyobj \<Rightarrow> string) \<Rightarrow> local_catalog \<Rightarrow> (string \<Rightarrow> stream_watermark option) \<Rightarrow> moment \<Rightarrow> warmup_gate
    \<Rightarrow> warmup_coverage \<Rightarrow> batch_answer option \<Rightarrow> warmup_readiness res" where
  "evaluate E f c load now g cov batch =
     bindE (check_data E f c g cov (first_observed g cov)) (\<lambda>(manifest, data_block, observed).
     bindE (case manifest of None \<Rightarrow> Inr None | Some m \<Rightarrow> bindE (row_id f m) (\<lambda>i. Inr (Some i))) (\<lambda>manifest_id.
       case data_block of
         Some (reason, detail) \<Rightarrow> blocked_verdict E g cov now manifest_id observed reason detail
       | None \<Rightarrow>
           bindE (check_watermark (load (wg_feed_id g)) g cov now observed) (\<lambda>(watermark_block, observed).
             case watermark_block of
               Some (reason, detail) \<Rightarrow> blocked_verdict E g cov now manifest_id observed reason detail
             | None \<Rightarrow>
                 bindE (check_features batch observed) (\<lambda>(feature_block, observed).
                   case feature_block of
                     Some (reason, detail) \<Rightarrow> blocked_verdict E g cov now manifest_id observed reason detail
                   | None \<Rightarrow> mk_readiness E READY (session_text cov) (wg_feed_id g) now None None manifest_id observed))))"

section \<open>Recording a block\<close>

definition observed_covered :: "doc \<Rightarrow> string list" where
  "observed_covered observed =
     (case dget observed ''covered_shards'' of
        Some (VList l) \<Rightarrow> concat (map (\<lambda>v. case v of VStr s \<Rightarrow> [s] | _ \<Rightarrow> []) l)
      | _ \<Rightarrow> [])"

definition blocked_shards :: "warmup_readiness \<Rightarrow> warmup_coverage \<Rightarrow> string list option" where
  "blocked_shards r cov =
     (if rd_reason_code r \<noteq> Some (reason_code DAILY_OBJECT_MISSING) then None
      else let missing = missing_shards (wc_required_shards cov) (observed_covered (rd_observed r))
           in if missing = [] then None else Some missing)"

definition feed_wide_reason :: "warmup_readiness \<Rightarrow> string" where
  "feed_wide_reason r =
     str_opt (rd_reason_code r) @ '' is a feed-wide fact: market_data.stream_watermarks is keyed by feed_id alone and the feature batch is planned per feed, so neither can be attributed to one shard''"

definition block_incident :: "env \<Rightarrow> warmup_readiness \<Rightarrow> warmup_coverage \<Rightarrow> quality_incident res" where
  "block_incident E r cov =
     bindE (wc_period E cov) (\<lambda>(period_start, period_end).
     bindE (wc_bounds cov) (\<lambda>(start, end).
     bindE (case blocked_shards r cov of
              Some (shard # _) \<Rightarrow> mk_scope E PARTITION (Aware period_start) (Aware period_end) None (Some shard)
                                    (Some start) (Some end) 0 None []
            | _ \<Rightarrow> mk_scope E MANIFEST (Aware period_start) (Aware period_end) None None None None 0 None
                     (feed_wide_reason r)) (\<lambda>scope.
       mk_incident (str_opt (rd_reason_code r)) BLOCK_SEVERITY scope (Aware (rd_evaluated_at r))
         (str_opt (rd_detail r)) QUALITY_POLICY_VERSION INCIDENT_STATUS_ACTIVE None)))"

fun quarantine_rows ::
  "env \<Rightarrow> (pyobj \<Rightarrow> string) \<Rightarrow> string \<Rightarrow> doc list \<Rightarrow> local_catalog \<Rightarrow> unit res \<times> local_catalog" where
  "quarantine_rows E f i [] c = (Inl LookupError, c)"
| "quarantine_rows E f i (r # rs) c =
     (case row_id f r of
        Inl e \<Rightarrow> (Inl e, c)
      | Inr k \<Rightarrow>
          if k \<noteq> i then quarantine_rows E f i rs c
          else (case text_is f r ''status'' ''QUARANTINED'' of
                  Inl e \<Rightarrow> (Inl e, c)
                | Inr True \<Rightarrow> (Inr (), c)
                | Inr False \<Rightarrow> upsert E f MANIFESTS (as_record_of (dset ''status'' (VStr ''QUARANTINED'') r)) c))"

definition quarantine ::
  "env \<Rightarrow> (pyobj \<Rightarrow> string) \<Rightarrow> string option \<Rightarrow> local_catalog \<Rightarrow> unit res \<times> local_catalog" where
  "quarantine E f manifest_id c =
     (case manifest_id of
        None \<Rightarrow> (Inr (), c)
      | Some i \<Rightarrow> (case records E f c MANIFESTS [] of Inl e \<Rightarrow> (Inl e, c) | Inr rows \<Rightarrow> quarantine_rows E f i rows c))"

definition record_verdict ::
  "env \<Rightarrow> (pyobj \<Rightarrow> string) \<Rightarrow> warmup_readiness \<Rightarrow> warmup_coverage \<Rightarrow> local_catalog \<Rightarrow> string option res \<times> local_catalog" where
  "record_verdict E f r cov c =
     (if \<not> rd_blocked r then (Inr None, c)
      else case block_incident E r cov of
          Inl e \<Rightarrow> (Inl e, c)
        | Inr q \<Rightarrow>
            (case andthen (record_quality_incident E f (as_record_of (to_db_row E q (rd_manifest_id r))) c)
                    (quarantine E f (rd_manifest_id r)) of
               (Inl e, c') \<Rightarrow> (Inl e, c')
             | (Inr _, c') \<Rightarrow> (Inr (Some (row_id_of E q (rd_manifest_id r))), c')))"


section \<open>Two years of one feed\<close>

definition gate_env :: env where
  "gate_env = demo_env\<lparr>uuid_parse := Some, uuid5 := (\<lambda>_. ''Q''),
     date_fromisoformat := (\<lambda>s. if s = ''2025-06-02'' then Some 739404 else if s = ''2025-06-03'' then Some 739405 else None),
     fromisoformat := (\<lambda>s. if s = ''2025-06-02T00:00:00+00:00'' then IsoAware 1748822400000000
       else if s = ''2024-01-01T00:00:00+00:00'' then IsoAware 1704067200000000
       else if s = ''2025-06-03T00:00:00+00:00'' then IsoAware 1748908800000000
       else if s = ''2025-06-02T20:00:00+00:00'' then IsoAware 1748894400000000 else IsoInvalid)\<rparr>"

definition year_manifest :: "string \<Rightarrow> string \<Rightarrow> int \<Rightarrow> doc" where
  "year_manifest i start revision =
     [(''data_layer'', VStr ''RAW''), (''feed_id'', VStr ''FEED''), (''id'', VStr i), (''instrument_id'', VNone),
      (''period_start'', VStr start), (''resolution'', VStr ''30m''), (''revision_number'', VInt revision),
      (''status'', VStr ''AVAILABLE'')]"

definition two_years :: local_catalog where
  "two_years = new_catalog\<lparr>lc_files :=
     [(''dataset-manifests.jsonl'', [year_manifest ''OLD'' ''2024-01-01T00:00:00Z'' 3, year_manifest ''NEW'' ''2025-01-01T00:00:00Z'' 1]),
      (''storage-objects.jsonl'', [[(''id'', VStr ''OBJ'')]]),
      (''dataset-objects.jsonl'', [[(''dataset_manifest_id'', VStr ''NEW''), (''id'', VStr ''REL''), (''object_id'', VStr ''OBJ''),
         (''partition_end'', VStr ''2025-06-03''), (''partition_granularity'', VStr ''DAY''),
         (''partition_start'', VStr ''2025-06-02''), (''shard_key'', VStr ''s0'')]])]\<rparr>"

definition year_coverage :: warmup_coverage where
  "year_coverage = \<lparr>wc_contract = mk_contract ''RAW'' ''RAW'' ''30m'' ''FEED'', wc_session = 739404,
     wc_granularity = ''DAY'', wc_required_shards = [''s0''], wc_required_watermark_at = 1748892600000000\<rparr>"

definition year_gate :: warmup_gate where
  "year_gate = \<lparr>wg_feed_id = ''FEED'', wg_freshness_budget = 3600000000\<rparr>"

definition live_watermark :: "string \<Rightarrow> stream_watermark option" where
  "live_watermark feed = Some \<lparr>wm_feed_id = feed,
     wm_position = \<lparr>sp_source_event_at = 1748892600000000, sp_sequence = None\<rparr>,
     wm_ingested_at = 1748892660000000, wm_updated_at = Some 1748892660000000\<rparr>"

definition year_verdict :: "warmup_readiness res" where
  "year_verdict = evaluate gate_env no_str two_years live_watermark (Aware 1748894400000000) year_gate year_coverage None"

definition chosen_manifest :: "local_catalog \<Rightarrow> string option" where
  "chosen_manifest c =
     (case latest_available_manifest gate_env no_str c ''FEED'' ''RAW'' ''30m'' 2025 None of
        Inr (Some m) \<Rightarrow> (case row_id no_str m of Inr i \<Rightarrow> Some i | Inl _ \<Rightarrow> None) | _ \<Rightarrow> None)"

definition gate_ids :: "local_catalog \<Rightarrow> string list" where
  "gate_ids c =
     (case records gate_env no_str c MANIFESTS [] of
        Inl _ \<Rightarrow> []
      | Inr rows \<Rightarrow> map (sort_id no_str) (filter (\<lambda>r. text_is no_str r ''status'' ''AVAILABLE'' = Inr True) rows))"

lemma year_choice:
  "chosen_manifest two_years = Some ''NEW''"
  "bindE (objects_for_manifest gate_env no_str two_years ''NEW'') (covered_shards gate_env no_str year_coverage) = Inr [''s0'']"
  "gate_ids two_years = [''OLD'', ''NEW'']"
  by code_simp+

definition year_recorded :: "warmup_readiness \<Rightarrow> bool" where
  "year_recorded r \<longleftrightarrow>
     (case record_verdict gate_env no_str r year_coverage two_years of
        (Inr (Some k), c) \<Rightarrow> gate_ids c = [''NEW''] | _ \<Rightarrow> False)"

lemma year_facts:
  "case year_verdict of Inl _ \<Rightarrow> False | Inr r \<Rightarrow> rd_blocked r \<and>
     rd_reason_code r = Some (reason_code DAILY_OBJECT_MISSING) \<and> rd_manifest_id r = Some ''OLD'' \<and> year_recorded r"
  by code_simp

section \<open>What a verdict means\<close>

definition gate_rows :: "env \<Rightarrow> (pyobj \<Rightarrow> string) \<Rightarrow> local_catalog \<Rightarrow> warmup_gate \<Rightarrow> warmup_coverage \<Rightarrow> doc \<Rightarrow> bool" where
  "gate_rows E f c g cov m \<longleftrightarrow>
     (\<exists>rows. records E f c MANIFESTS [] = Inr rows \<and> m \<in> set rows) \<and> gate_candidate f g (wc_contract cov) m = Inr True"

definition gate_available :: "env \<Rightarrow> (pyobj \<Rightarrow> string) \<Rightarrow> local_catalog \<Rightarrow> warmup_gate \<Rightarrow> warmup_coverage \<Rightarrow> doc \<Rightarrow> bool" where
  "gate_available E f c g cov m \<longleftrightarrow> gate_rows E f c g cov m \<and> text_is f m ''status'' ''AVAILABLE'' = Inr True"

text \<open>\<open>m\<close> is an AVAILABLE manifest of the feed with id \<open>i\<close>, of the highest revision number.\<close>

definition gate_selects ::
  "env \<Rightarrow> (pyobj \<Rightarrow> string) \<Rightarrow> local_catalog \<Rightarrow> warmup_gate \<Rightarrow> warmup_coverage \<Rightarrow> doc \<Rightarrow> string \<Rightarrow> bool" where
  "gate_selects E f c g cov m i \<longleftrightarrow>
     gate_available E f c g cov m \<and> row_id f m = Inr i \<and>
     (\<exists>n. int_item m ''revision_number'' = Inr n \<and>
        (\<forall>m'. gate_available E f c g cov m' \<longrightarrow> (\<exists>n'. int_item m' ''revision_number'' = Inr n' \<and> n' \<le> n)))"

definition shard_covered ::
  "env \<Rightarrow> (pyobj \<Rightarrow> string) \<Rightarrow> local_catalog \<Rightarrow> warmup_coverage \<Rightarrow> string \<Rightarrow> string \<Rightarrow> bool" where
  "shard_covered E f c cov i s \<longleftrightarrow>
     (\<exists>items. objects_for_manifest E f c i = Inr items \<and>
        (\<exists>item\<in>set items. covers_session E f cov item = Inr True \<and> text_is f item ''shard_key'' s = Inr True))"

definition data_ready ::
  "env \<Rightarrow> (pyobj \<Rightarrow> string) \<Rightarrow> local_catalog \<Rightarrow> warmup_gate \<Rightarrow> warmup_coverage \<Rightarrow> string \<Rightarrow> bool" where
  "data_ready E f c g cov i \<longleftrightarrow>
     (\<exists>m. gate_selects E f c g cov m i) \<and> (\<forall>s\<in>set (wc_required_shards cov). shard_covered E f c cov i s)"

definition feed_fresh :: "stream_watermark option \<Rightarrow> instant \<Rightarrow> warmup_gate \<Rightarrow> warmup_coverage \<Rightarrow> bool" where
  "feed_fresh stored t g cov \<longleftrightarrow>
     (\<exists>w. stored = Some w \<and> t - wm_ingested_at w \<le> wg_freshness_budget g \<and>
        wc_required_watermark_at cov \<le> sp_source_event_at (wm_position w))"

lemma newest_facts:
  assumes "newest rows = Inr (n, m)"
  shows "m \<in> set rows" "int_item m ''revision_number'' = Inr n"
    "m' \<in> set rows \<Longrightarrow> \<exists>n'. int_item m' ''revision_number'' = Inr n' \<and> n' \<le> n"
proof -
  obtain ps where ps: "mapE (\<lambda>r. bindE (int_item r ''revision_number'') (\<lambda>n. Inr (n, r))) rows = Inr ps"
      "(case ps of [] \<Rightarrow> Inl ValueError | p # ps' \<Rightarrow> Inr (max_by fst p ps')) = Inr (n, m)"
    using assms by (auto simp: newest_def)
  then obtain p ps' where p: "ps = p # ps'" "max_by fst p ps' = (n, m)" by (cases ps) auto
  have mem: "(n, m) \<in> set ps" using max_by_in[of fst p ps'] unfolding p(2) p(1) by simp
  then show "m \<in> set rows" "int_item m ''revision_number'' = Inr n"
    using mapE_set[OF ps(1) mem] by auto
  assume "m' \<in> set rows"
  then obtain k where k: "k < length rows" "rows ! k = m'" by (auto simp: in_set_conv_nth)
  then obtain n' where n': "int_item m' ''revision_number'' = Inr n'" "ps ! k = (n', m')"
    using mapE_nth[OF ps(1) k(1)] by auto
  have "(n', m') \<in> set ps" using k(1) n'(2) mapE_length[OF ps(1)] by (metis nth_mem)
  then have "n' \<le> n"
    using max_by_ge[of "(n', m')" ps' fst p] max_by_ge_base[of fst p ps'] unfolding p by auto
  then show "\<exists>n'. int_item m' ''revision_number'' = Inr n' \<and> n' \<le> n" using n'(1) by blast
qed

lemma covered_shards_set:
  assumes "covered_shards E f cov items = Inr xs"
  shows "s \<in> set xs \<longleftrightarrow> (\<exists>item\<in>set items. covers_session E f cov item = Inr True \<and> text_is f item ''shard_key'' s = Inr True)"
  using assms
proof (induction items arbitrary: xs)
  case Nil
  then show ?case by (simp add: covered_shards_def)
next
  case (Cons item items)
  then obtain b ys where b: "covers_session E f cov item = Inr b" "covered_shards E f cov items = Inr ys"
      "b \<Longrightarrow> \<exists>v. get_item item ''shard_key'' = Inr v \<and> xs = py_str f v # ys" "\<not> b \<Longrightarrow> xs = ys"
    by (auto simp: covered_shards_def split: if_splits)
  then show ?case using Cons.IH[OF b(2)] by (cases b) (auto simp: text_is_def)
qed

lemma check_data_cases:
  assumes "check_data E f c g cov obs = Inr (manifest, b, obs')"
  obtains d where "manifest = None" "b = Some (DAILY_OBJECT_MISSING, d)" "\<nexists>m. gate_rows E f c g cov m"
  | d m where "manifest = None" "b = Some (MANIFEST_NOT_AVAILABLE, d)" "gate_rows E f c g cov m" "\<nexists>m. gate_available E f c g cov m"
  | m i where "manifest = Some m" "gate_selects E f c g cov m i"
      "b = None \<and> data_ready E f c g cov i
       \<or> (\<exists>d. b = Some (DAILY_OBJECT_MISSING, d)) \<and> (\<exists>s\<in>set (wc_required_shards cov). \<not> shard_covered E f c cov i s)"
proof -
  obtain rows candidates where rows: "records E f c MANIFESTS [] = Inr rows"
      "filterE (gate_candidate f g (wc_contract cov)) rows = Inr candidates"
    using assms unfolding check_data_def Let_def by auto
  note cand = filterE_eq[OF rows(2)]
  have gr: "gate_rows E f c g cov m \<longleftrightarrow> m \<in> set candidates" for m
    using rows(1) by (simp add: gate_rows_def cand)
  show thesis
  proof (cases "candidates = []")
    case True
    then show thesis using that(1) assms rows gr by (auto simp: check_data_def Let_def)
  next
    case False
    then obtain available where av: "filterE (\<lambda>r. text_is f r ''status'' ''AVAILABLE'') candidates = Inr available"
      using assms rows by (auto simp: check_data_def Let_def)
    have ga: "gate_available E f c g cov m \<longleftrightarrow> m \<in> set available" for m
      unfolding gate_available_def gr filterE_eq[OF av] by simp
    show thesis
    proof (cases "available = []")
      case True
      then show thesis using that(2)[of _ "hd candidates"] assms rows av False gr ga
        by (auto simp: check_data_def Let_def)
    next
      case nonempty: False
      obtain n m i covered where sel: "newest available = Inr (n, m)" "row_id f m = Inr i"
        and items: "bindE (objects_for_manifest E f c i) (covered_shards E f cov) = Inr covered"
        and res: "manifest = Some m" "(b = None) = (missing_shards (wc_required_shards cov) covered = [])"
          "b = None \<or> (\<exists>d. b = Some (DAILY_OBJECT_MISSING, d))"
        using assms rows av False nonempty by (auto simp: check_data_def Let_def split: if_splits)
      have "gate_selects E f c g cov m i"
        unfolding gate_selects_def ga using newest_facts[OF sel(1)] sel(2) by blast
      moreover have "shard_covered E f c cov i s \<longleftrightarrow> s \<in> set covered" for s
        using items covered_shards_set[of E f cov _ covered s] by (auto simp: shard_covered_def)
      ultimately have "b = None \<and> data_ready E f c g cov i
          \<or> (\<exists>d. b = Some (DAILY_OBJECT_MISSING, d)) \<and> (\<exists>s\<in>set (wc_required_shards cov). \<not> shard_covered E f c cov i s)"
        using res(2,3) by (auto simp: data_ready_def missing_shards_def filter_empty_conv)
      then show thesis using that(3)[OF res(1) \<open>gate_selects E f c g cov m i\<close>] by blast
    qed
  qed
qed


lemma check_watermark_cases:
  assumes "check_watermark stored g cov now obs = Inr (b, obs')"
  shows "(\<exists>d. b = Some (WATERMARK_MISSING, d)) \<and> stored = None \<or>
    (\<exists>w t. stored = Some w \<and> now = Aware t \<and>
       (if wg_freshness_budget g < t - wm_ingested_at w then \<exists>d. b = Some (WATERMARK_STALE, d)
        else if sp_source_event_at (wm_position w) < wc_required_watermark_at cov
        then \<exists>d. b = Some (WATERMARK_BEHIND_SESSION, d) else b = None))"
  using assms by (auto simp: check_watermark_def Let_def split: option.splits moment.splits if_splits)

lemma check_features_cases:
  assumes "check_features batch obs = Inr (b, obs')"
  shows "b = None \<and> batch \<in> {None, Some BatchConsumable} \<or>
    (\<exists>m reason. b = Some (reason, m) \<and> reason \<in> {FEATURE_BATCH_MISSING, FEATURE_BATCH_INCOMPLETE} \<and>
       (batch = Some (BatchNotConsumable m) \<or> batch = Some (BatchPartial m)) \<and>
       (reason = FEATURE_BATCH_MISSING \<longleftrightarrow> batch = Some (BatchNotConsumable m) \<and> sublist NEVER_OPENED_MARKER m))"
  using assms by (auto simp: check_features_def Let_def split: option.splits batch_answer.splits if_splits)

lemma reason_code_inj: "reason_code r = reason_code r' \<longleftrightarrow> r = r'"
  by (cases r; cases r') (simp_all add: reason_code_def)

lemma mk_readiness_fields:
  assumes "mk_readiness E state session feed m reason detail manifest_id observed = Inr r"
  shows "rd_state r = state" "rd_reason_code r = reason" "rd_manifest_id r = manifest_id" "rd_detail r = detail"
    "rd_observed r = observed" "\<exists>t. m = Aware t \<and> rd_evaluated_at r = t"
  using assms by (auto simp: mk_readiness_def utc_def split: moment.splits if_splits)

lemma evaluate_cases:
  assumes "evaluate E f c load now g cov batch = Inr r"
  obtains (no_manifest) "rd_blocked r" "rd_reason_code r = Some (reason_code DAILY_OBJECT_MISSING)" "rd_manifest_id r = None"
      "\<nexists>m. gate_rows E f c g cov m"
  | (not_available) m where "rd_blocked r" "rd_reason_code r = Some (reason_code MANIFEST_NOT_AVAILABLE)" "rd_manifest_id r = None"
      "gate_rows E f c g cov m" "\<nexists>m. gate_available E f c g cov m"
  | (uncovered) m i s where "rd_blocked r" "rd_reason_code r = Some (reason_code DAILY_OBJECT_MISSING)" "rd_manifest_id r = Some i"
      "gate_selects E f c g cov m i" "s \<in> set (wc_required_shards cov)" "\<not> shard_covered E f c cov i s"
  | (watermark) m i d reason obs where "rd_blocked r" "rd_reason_code r = Some (reason_code reason)" "rd_manifest_id r = Some i"
      "gate_selects E f c g cov m i" "data_ready E f c g cov i"
      "check_watermark (load (wg_feed_id g)) g cov now obs = Inr (Some (reason, d), rd_observed r)"
  | (features) m i d t reason obs where "rd_blocked r" "rd_reason_code r = Some (reason_code reason)" "rd_manifest_id r = Some i"
      "gate_selects E f c g cov m i" "data_ready E f c g cov i" "now = Aware t" "feed_fresh (load (wg_feed_id g)) t g cov"
      "check_features batch obs = Inr (Some (reason, d), rd_observed r)"
  | (ready) m i t where "\<not> rd_blocked r" "rd_reason_code r = None" "rd_manifest_id r = Some i"
      "gate_selects E f c g cov m i" "data_ready E f c g cov i" "now = Aware t" "feed_fresh (load (wg_feed_id g)) t g cov"
      "batch \<in> {None, Some BatchConsumable}"
proof -
  obtain manifest b obs i where cd: "check_data E f c g cov (first_observed g cov) = Inr (manifest, b, obs)"
    and id: "(case manifest of None \<Rightarrow> Inr None | Some m \<Rightarrow> bindE (row_id f m) (\<lambda>i. Inr (Some i))) = Inr i"
    and rest: "(case b of
         Some (reason, detail) \<Rightarrow> blocked_verdict E g cov now i obs reason detail
       | None \<Rightarrow>
           bindE (check_watermark (load (wg_feed_id g)) g cov now obs) (\<lambda>(watermark_block, observed).
             case watermark_block of
               Some (reason, detail) \<Rightarrow> blocked_verdict E g cov now i observed reason detail
             | None \<Rightarrow>
                 bindE (check_features batch observed) (\<lambda>(feature_block, observed).
                   case feature_block of
                     Some (reason, detail) \<Rightarrow> blocked_verdict E g cov now i observed reason detail
                   | None \<Rightarrow> mk_readiness E READY (session_text cov) (wg_feed_id g) now None None i observed))) = Inr r"
    using assms by (auto simp: evaluate_def)
  have blocked: "rd_blocked r" "rd_reason_code r = Some (reason_code reason)" "rd_manifest_id r = i" "rd_observed r = obs'"
    if "blocked_verdict E g cov now i obs' reason d = Inr r" for obs' reason d
    using mk_readiness_fields[OF that[unfolded blocked_verdict_def]] by (simp_all add: rd_blocked_def)
  from cd show thesis
  proof (cases rule: check_data_cases)
    case (1 d)
    then show thesis using no_manifest blocked[of obs DAILY_OBJECT_MISSING d] rest id by simp
  next
    case (2 d m)
    then show thesis using not_available[of m] blocked[of obs MANIFEST_NOT_AVAILABLE d] rest id by simp
  next
    case (3 m j)
    have i: "i = Some j" using id 3(1,2) by (auto simp: gate_selects_def)
    show thesis
    proof (cases b)
      case (Some p)
      then obtain d s where "b = Some (DAILY_OBJECT_MISSING, d)" "s \<in> set (wc_required_shards cov)" "\<not> shard_covered E f c cov j s"
        using 3(3) by auto
      then show thesis using uncovered[of j m s] blocked[of obs DAILY_OBJECT_MISSING d] rest i 3(2) by simp
    next
      case None
      have dr: "data_ready E f c g cov j" using 3(3) None by auto
      obtain wb obs1 where w: "check_watermark (load (wg_feed_id g)) g cov now obs = Inr (wb, obs1)"
        using rest None by auto
      show thesis
      proof (cases wb)
        case (Some p)
        obtain reason d where p: "p = (reason, d)" by (cases p)
        have v: "blocked_verdict E g cov now i obs1 reason d = Inr r" using rest None w Some p by simp
        show thesis using watermark[of reason j m obs d] blocked[OF v] i 3(2) dr w Some p by simp
      next
        case fresh: None
        obtain t where t: "now = Aware t" "feed_fresh (load (wg_feed_id g)) t g cov"
          using check_watermark_cases[OF w] fresh by (force simp: feed_fresh_def split: if_splits)
        obtain fb obs2 where fc: "check_features batch obs1 = Inr (fb, obs2)" using rest None w fresh by auto
        show thesis
        proof (cases fb)
          case (Some p)
          obtain reason d where p: "p = (reason, d)" by (cases p)
          have v: "blocked_verdict E g cov now i obs2 reason d = Inr r" using rest None w fresh fc Some p by simp
          show thesis using features[of reason j m t obs1 d] blocked[OF v] i 3(2) dr t fc Some p by simp
        next
          case clear: None
          have v: "mk_readiness E READY (session_text cov) (wg_feed_id g) now None None i obs2 = Inr r"
            using rest None w fresh fc clear by simp
          have "batch \<in> {None, Some BatchConsumable}" using check_features_cases[OF fc] clear by auto
          then show thesis using ready[of j m t] mk_readiness_fields[OF v] i 3(2) dr t
            by (simp add: rd_blocked_def READY_def BLOCKED_def)
        qed
      qed
    qed
  qed
qed


definition block_cause ::
  "env \<Rightarrow> (pyobj \<Rightarrow> string) \<Rightarrow> local_catalog \<Rightarrow> stream_watermark option \<Rightarrow> moment \<Rightarrow> warmup_gate \<Rightarrow> warmup_coverage
    \<Rightarrow> batch_answer option \<Rightarrow> string option \<Rightarrow> block_reason \<Rightarrow> bool" where
  "block_cause E f c stored now g cov batch i reason \<longleftrightarrow>
     (case reason of
        DAILY_OBJECT_MISSING \<Rightarrow>
          (\<nexists>m. gate_rows E f c g cov m) \<or>
          (\<exists>j m s. i = Some j \<and> gate_selects E f c g cov m j \<and> s \<in> set (wc_required_shards cov) \<and> \<not> shard_covered E f c cov j s)
      | MANIFEST_NOT_AVAILABLE \<Rightarrow> (\<exists>m. gate_rows E f c g cov m) \<and> (\<nexists>m. gate_available E f c g cov m)
      | WATERMARK_MISSING \<Rightarrow> (\<exists>j. i = Some j \<and> data_ready E f c g cov j) \<and> stored = None
      | WATERMARK_STALE \<Rightarrow> (\<exists>j. i = Some j \<and> data_ready E f c g cov j) \<and>
          (\<exists>w t. stored = Some w \<and> now = Aware t \<and> wg_freshness_budget g < t - wm_ingested_at w)
      | WATERMARK_BEHIND_SESSION \<Rightarrow> (\<exists>j. i = Some j \<and> data_ready E f c g cov j) \<and>
          (\<exists>w t. stored = Some w \<and> now = Aware t \<and> t - wm_ingested_at w \<le> wg_freshness_budget g \<and>
             sp_source_event_at (wm_position w) < wc_required_watermark_at cov)
      | FEATURE_BATCH_MISSING \<Rightarrow> (\<exists>j t. i = Some j \<and> data_ready E f c g cov j \<and> now = Aware t \<and> feed_fresh stored t g cov) \<and>
          (\<exists>m. batch = Some (BatchNotConsumable m) \<and> sublist NEVER_OPENED_MARKER m)
      | FEATURE_BATCH_INCOMPLETE \<Rightarrow> (\<exists>j t. i = Some j \<and> data_ready E f c g cov j \<and> now = Aware t \<and> feed_fresh stored t g cov) \<and>
          (\<exists>m. batch = Some (BatchNotConsumable m) \<and> \<not> sublist NEVER_OPENED_MARKER m \<or> batch = Some (BatchPartial m)))"

text \<open>C10: A verdict means what it says. READY names a manifest of the feed that is AVAILABLE and of the
  highest revision, every required shard has a published object covering the session, the watermark is
  fresh and past the session, and the pinned feature batch is consumable; BLOCKED carries a reason
  whose own condition is violated while every earlier check passed.\<close>

theorem verdict_explained:
  assumes "evaluate E f c load now g cov batch = Inr r"
  shows "if rd_blocked r
    then \<exists>reason. rd_reason_code r = Some (reason_code reason) \<and>
           block_cause E f c (load (wg_feed_id g)) now g cov batch (rd_manifest_id r) reason
    else rd_reason_code r = None \<and> (\<exists>i t. rd_manifest_id r = Some i \<and> data_ready E f c g cov i \<and> now = Aware t \<and>
           feed_fresh (load (wg_feed_id g)) t g cov) \<and> batch \<in> {None, Some BatchConsumable}"
  using assms
proof (cases rule: evaluate_cases)
  case no_manifest
  then show ?thesis by (auto simp: block_cause_def intro!: exI[of _ DAILY_OBJECT_MISSING])
next
  case (not_available m)
  then show ?thesis by (auto simp: block_cause_def intro!: exI[of _ MANIFEST_NOT_AVAILABLE])
next
  case (uncovered m i s)
  then have "block_cause E f c (load (wg_feed_id g)) now g cov batch (rd_manifest_id r) DAILY_OBJECT_MISSING"
    by (auto simp: block_cause_def)
  then show ?thesis using uncovered(1,2) by auto
next
  case (watermark m i d reason obs)
  then have "block_cause E f c (load (wg_feed_id g)) now g cov batch (rd_manifest_id r) reason"
    using check_watermark_cases[OF watermark(6)] by (auto simp: block_cause_def split: if_splits)
  then show ?thesis using watermark(1,2) by auto
next
  case (features m i d t reason obs)
  then have "block_cause E f c (load (wg_feed_id g)) now g cov batch (rd_manifest_id r) reason"
    using check_features_cases[OF features(8)] by (auto simp: block_cause_def)
  then show ?thesis using features(1,2) by auto
next
  case (ready m i t)
  then show ?thesis by auto
qed

theorem verdict_explained_witness:
  "\<exists>r reason. year_verdict = Inr r \<and> rd_reason_code r = Some (reason_code reason) \<and>
     block_cause gate_env no_str two_years (live_watermark ''FEED'') (Aware 1748894400000000) year_gate year_coverage None
       (rd_manifest_id r) reason"
proof -
  obtain r where r: "year_verdict = Inr r" "rd_blocked r" using year_facts by (auto split: sum.splits)
  have "wg_feed_id year_gate = ''FEED''" by (simp add: year_gate_def)
  then show ?thesis using verdict_explained[OF r(1)[unfolded year_verdict_def]] r by auto
qed



section \<open>A recorded block holds\<close>

lemma manifest_columns:
  "list_ex (\<lambda>cl. cl_name cl = ''status'' \<and> cl_type cl = TEnum DATASET_STATUS_LABELS) (tb_columns tbl_dataset_manifests)"
  "list_ex (\<lambda>cl. cl_name cl = ''id'' \<and> cl_type cl = TUuid) (tb_columns tbl_dataset_manifests)"
  by code_simp+

lemma manifests_columns_of: "table_for MANIFESTS = Inr tbl_dataset_manifests"
  by (simp add: table_for_code)

lemma quarantined_canonical:
  assumes n: "normalise_record E f MANIFESTS (as_record_of (dset ''status'' (VStr ''QUARANTINED'') r)) = Inr c"
    and i: "row_id f r = Inr i" "uuid_parse E i = Some i"
  shows "dget c ''status'' = Some (VStr ''QUARANTINED'')" "row_id f c = Inr i"
proof -
  let ?q = "dset ''status'' (VStr ''QUARANTINED'') r"
  obtain t where t: "table_for MANIFESTS = Inr t"
    and vals0: "\<And>cl. cl \<in> set (tb_columns t) \<Longrightarrow> has_key (as_record_of ?q) (cl_name cl) \<Longrightarrow>
       \<exists>v w. dget (as_record_of ?q) (cl_name cl) = Some v \<and> to_canonical E f (cl_type cl) v = Inr w \<and> dget c (cl_name cl) = Some w"
    by (rule normalise_facts[OF n]) blast
  have tb: "t = tbl_dataset_manifests" using t unfolding manifests_columns_of sum.inject by (rule sym)
  have hk: "has_key (as_record_of ?q) x = has_key ?q x" for x by (simp only: has_key_def dget_as_record option.map_disc_iff)
  have vals: "\<exists>v w. dget ?q (cl_name cl) = Some v \<and> to_canonical E f (cl_type cl) (OVal v) = Inr w \<and> dget c (cl_name cl) = Some w"
    if "cl \<in> set (tb_columns tbl_dataset_manifests)" "has_key ?q (cl_name cl)" for cl
    using vals0[unfolded tb hk, OF that] by (auto simp: dget_as_record)
  show "dget c ''status'' = Some (VStr ''QUARANTINED'')"
    using manifest_columns(1) vals by (force simp: list_ex_iff to_canonical_def canonical_text_def)
  obtain v where v: "dget r ''id'' = Some v" "py_str f v = i" using i(1) by (auto simp: row_id_def get_item_def split: option.splits)
  obtain w where w: "to_canonical E f TUuid (OVal v) = Inr w" "dget c ''id'' = Some w"
    using manifest_columns(2) vals v(1) by (force simp: list_ex_iff has_key_def)
  then show "row_id f c = Inr i"
    using v(2) i(2) by (auto simp: row_id_def get_item_def to_canonical_def canonical_uuid_def py_str_def split: if_splits pyval.splits option.splits)
qed


text \<open>No row of the table with the id is AVAILABLE any more.\<close>

definition withdrawn :: "(pyobj \<Rightarrow> string) \<Rightarrow> string \<Rightarrow> local_catalog \<Rightarrow> bool" where
  "withdrawn f i c \<longleftrightarrow>
     (\<forall>d m. table_view f c MANIFESTS = Inr d \<longrightarrow> m \<in> set (map snd d) \<longrightarrow> row_id f m = Inr i \<longrightarrow>
        text_is f m ''status'' ''AVAILABLE'' \<noteq> Inr True)"

lemma quarantine_rows_withdraws:
  assumes ok: "table_ok f c MANIFESTS" and d: "table_view f c MANIFESTS = Inr d"
    and run: "quarantine_rows E f i rows c = (Inr (), c')" and sub: "set rows \<subseteq> set (map snd d)"
    and i: "uuid_parse E i = Some i"
  shows "withdrawn f i c' \<and> same_elsewhere MANIFESTS c c'"
  using run sub
proof (induction rows)
  case (Cons r rows)
  obtain p where p: "path_of MANIFESTS = Inr p" using id_table_path[OF manifests_table(1)] by blast
  obtain d0 where d0: "table_view f c MANIFESTS = Inr d0" "dict_ok d0"
      "\<And>k r. (k, r) \<in> set d0 \<Longrightarrow> row_ok r \<and> row_id f r = Inr k"
    by (rule table_view_ok[OF ok manifests_table(1) p]) blast
  have "d0 = d" using d0(1) unfolding d sum.inject by (rule sym)
  then have dd: "dict_ok d" "\<And>k r. (k, r) \<in> set d \<Longrightarrow> row_id f r = Inr k" using d0(2,3) by blast+
  obtain k where k: "row_id f r = Inr k" "(k, r) \<in> set d" using Cons.prems(2) dd(2) by fastforce
  show ?case
  proof (cases "k = i")
    case False
    then show ?thesis using Cons k(1) by auto
  next
    case True
    define U where "U = upsert E f MANIFESTS (as_record_of (dset ''status'' (VStr ''QUARANTINED'') r)) c"
    define T where "T = text_is f r ''status'' ''QUARANTINED''"
    have "(case T of Inl e \<Rightarrow> (Inl e, c) | Inr True \<Rightarrow> (Inr (), c) | Inr False \<Rightarrow> U) = (Inr (), c')"
      using Cons.prems(1) unfolding quarantine_rows.simps k(1) True U_def T_def by simp
    then have "T = Inr True \<and> c' = c \<or> U = (Inr (), c')" by (auto split: sum.splits bool.splits)
    then consider "text_is f r ''status'' ''QUARANTINED'' = Inr True" "c' = c"
      | "upsert E f MANIFESTS (as_record_of (dset ''status'' (VStr ''QUARANTINED'') r)) c = (Inr (), c')"
      unfolding U_def T_def by blast
    then show ?thesis
    proof cases
      case 1
      have "m = r" if "m \<in> set (map snd d)" "row_id f m = Inr i" for m
        using that dd k(2) True by (force simp: dict_ok_def dest: eq_key_imp_eq_value)
      moreover have "text_is f r ''status'' ''AVAILABLE'' \<noteq> Inr True" using 1(1) by (auto simp: text_is_def)
      ultimately have "withdrawn f i c" unfolding withdrawn_def d sum.inject by metis
      then show ?thesis using 1(2) by simp
    next
      case 2
      obtain canonical where can: "normalise_record E f MANIFESTS (as_record_of (dset ''status'' (VStr ''QUARANTINED'') r)) = Inr canonical"
          "has_key canonical ''id''" "list_all (\<lambda>(_, v). dumpable v) canonical"
        using upsert_cases[OF ok manifests_table, of E] 2 by (metis Inl_Inr_False prod.inject)
      note q = quarantined_canonical[OF can(1) k(1)[unfolded True] i]
      obtain c1 where up: "upsert E f MANIFESTS (as_record_of (dset ''status'' (VStr ''QUARANTINED'') r)) c = (Inr (), c1)"
          "table_view f c1 MANIFESTS = Inr (dset i (json_row canonical) d)" "same_elsewhere MANIFESTS c c1"
        using upsert_by_id[OF ok manifests_table can] q(2) d by auto
      have c1: "c1 = c'" using up(1) 2 by simp
      have new: "text_is f (json_row canonical) ''status'' ''AVAILABLE'' \<noteq> Inr True"
        using q(1) normalised_keys[OF can(1)] by (simp add: text_is_def get_item_def dget_json_row py_str_def)
      have "m = json_row canonical" if m: "(j, m) \<in> set (dset i (json_row canonical) d)" "row_id f m = Inr i" for j m
      proof (cases "j = i \<and> m = json_row canonical")
        case False
        then have "(j, m) \<in> set d" using in_set_dset[OF m(1)] by blast
        then have j: "j = i" using dd(2) m(2) by fastforce
        have "dget (dset i (json_row canonical) d) j = Some m"
          using m(1) dget_in_set[OF dict_ok_dset[OF dd(1)]] by blast
        then show ?thesis using j by simp
      qed simp
      then have "withdrawn f i c1" using new unfolding withdrawn_def up(2) by fastforce
      then show ?thesis using up(3) c1 by simp
    qed
  qed
qed simp

lemma withdrawn_not_selected: "withdrawn f i c \<Longrightarrow> \<not> gate_selects E f c g cov m i"
  using records_view[OF manifests_table(1), of E f c]
  by (auto simp: withdrawn_def gate_selects_def gate_available_def gate_rows_def)

lemma upsert_incident:
  assumes ok: "table_ok f c INCIDENTS" "table_ok f c MANIFESTS"
    and up: "record_quality_incident E f record c = (Inr (), c1)"
  shows "\<exists>canonical k d. normalise_record E f INCIDENTS record = Inr canonical \<and> row_id f canonical = Inr k \<and>
     table_view f c INCIDENTS = Inr d \<and> table_view f c1 INCIDENTS = Inr (dset k (json_row canonical) d) \<and>
     table_ok f c1 MANIFESTS \<and> table_view f c1 MANIFESTS = table_view f c MANIFESTS"
proof -
  have t: "INCIDENTS \<in> set ID_TABLES" "dget NATURAL_KEYS INCIDENTS = None" by code_simp+
  have ne: "MANIFESTS \<noteq> INCIDENTS" by simp
  have up': "upsert E f INCIDENTS record c = (Inr (), c1)" using up by (simp add: record_quality_incident_def)
  obtain canonical where can: "normalise_record E f INCIDENTS record = Inr canonical" "has_key canonical ''id''"
      "list_all (\<lambda>(_, v). dumpable v) canonical"
    using upsert_cases[OF ok(1) t, of E "record"] up' by (metis Inl_Inr_False prod.inject)
  obtain k d c2 where c2: "row_id f canonical = Inr k" "table_view f c INCIDENTS = Inr d"
      "upsert E f INCIDENTS record c = (Inr (), c2)" "table_view f c2 INCIDENTS = Inr (dset k (json_row canonical) d)"
      "same_elsewhere INCIDENTS c c2"
    using upsert_by_id[OF ok(1) t can] by blast
  have "c2 = c1" using c2(3) up' by simp
  then show ?thesis using can(1) c2 same_elsewhere_view[OF c2(5) ne] same_elsewhere_ok[OF c2(5) ne] ok(2) by auto
qed



lemma two_years_ok: "table_ok no_str two_years INCIDENTS" "table_ok no_str two_years MANIFESTS"
proof -
  have p: "path_of INCIDENTS = Inr ''quality-incidents.jsonl''" "path_of MANIFESTS = Inr ''dataset-manifests.jsonl''"
    by code_simp+
  show "table_ok no_str two_years INCIDENTS" unfolding table_ok_def p by (simp add: two_years_def)
  have rows: "dget (lc_files two_years) ''dataset-manifests.jsonl'' =
      Some [year_manifest ''OLD'' ''2024-01-01T00:00:00Z'' 3, year_manifest ''NEW'' ''2025-01-01T00:00:00Z'' 1]"
    by (simp add: two_years_def)
  have "list_all row_ok [year_manifest ''OLD'' ''2024-01-01T00:00:00Z'' 3, year_manifest ''NEW'' ''2025-01-01T00:00:00Z'' 1]"
    "list_all (\<lambda>r. is_ok (row_id no_str r)) [year_manifest ''OLD'' ''2024-01-01T00:00:00Z'' 3, year_manifest ''NEW'' ''2025-01-01T00:00:00Z'' 1]"
    by code_simp+
  then show "table_ok no_str two_years MANIFESTS" unfolding table_ok_def p by (simp add: rows)
qed



end
