(* ===== verification/Worker_Queue.thy ===== *)
theory Worker_Queue
  imports Realtime_Consumer
begin

text \<open>
  What the pipeline worker keeps: the bounded idempotency store of \<open>apps/common/idempotency.py\<close>,
  the in-process queue of \<open>apps/pipeline_worker/messaging.py\<close> and the readiness state of
  \<open>apps/pipeline_worker/health.py\<close>. A message has the fields of a \<open>delivery\<close>; the SQS
  source of the worker is the adapter of \<open>Realtime_Consumer\<close>. The monotonic clock is an
  argument, in seconds; the locks make every method one step.
\<close>

section \<open>The idempotency store\<close>

record idem_store =
  id_max :: nat
  id_keys :: "string list"

definition mk_idem :: "int \<Rightarrow> idem_store res" where
  "mk_idem max_entries = (if max_entries < 1 then Inl ValueError else Inr \<lparr>id_max = nat max_entries, id_keys = []\<rparr>)"

text \<open>\<open>while len(keys) > max_entries: keys.popitem(last=False)\<close>.\<close>

function evict :: "nat \<Rightarrow> string list \<Rightarrow> string list" where
  "evict n ks = (if length ks \<le> n then ks else evict n (tl ks))"
  by pat_completeness auto
termination by (relation "measure (\<lambda>(n, ks). length ks)") auto

declare evict.simps [simp del]

definition claim :: "string \<Rightarrow> idem_store \<Rightarrow> bool res \<times> idem_store" where
  "claim key s =
     (if key = [] then (Inl ValueError, s)
      else if key \<in> set (id_keys s) then (Inr False, s\<lparr>id_keys := remove1 key (id_keys s) @ [key]\<rparr>)
      else (Inr True, s\<lparr>id_keys := evict (id_max s) (id_keys s @ [key])\<rparr>))"

definition seen :: "string \<Rightarrow> idem_store \<Rightarrow> bool" where
  "seen key s \<longleftrightarrow> key \<in> set (id_keys s)"

definition forget :: "string \<Rightarrow> idem_store \<Rightarrow> idem_store" where
  "forget key s = s\<lparr>id_keys := remove1 key (id_keys s)\<rparr>"

definition idem_ok :: "idem_store \<Rightarrow> bool" where
  "idem_ok s \<longleftrightarrow> 1 \<le> id_max s \<and> distinct (id_keys s) \<and> length (id_keys s) \<le> id_max s"

lemma evict_eq: "evict n ks = drop (length ks - n) ks"
proof (induction n ks rule: evict.induct)
  case (1 n ks)
  show ?case
  proof (cases "length ks \<le> n")
    case False
    then have "length ks - n = Suc (length (tl ks) - n)" "ks \<noteq> []" by auto
    then show ?thesis using False 1 by (simp add: evict.simps[of n ks] drop_Suc)
  qed (simp add: evict.simps[of n ks])
qed

lemma claim_ok: "idem_ok s \<Longrightarrow> idem_ok (snd (claim key s))"
proof -
  assume ok: "idem_ok s"
  then have l: "1 \<le> id_max s" "distinct (id_keys s)" "length (id_keys s) \<le> id_max s" by (simp_all add: idem_ok_def)
  consider "key = []" | "key \<noteq> []" "key \<in> set (id_keys s)" | "key \<noteq> []" "key \<notin> set (id_keys s)" by blast
  then show ?thesis
  proof cases
    case 1
    then show ?thesis using ok by (simp add: claim_def)
  next
    case 2
    have "length (remove1 key (id_keys s) @ [key]) = length (id_keys s)" using 2(2) length_pos_if_in_set[OF 2(2)] by (simp add: length_remove1)
    moreover have "distinct (remove1 key (id_keys s) @ [key])" using l(2) by (simp add: distinct_remove1)
    ultimately show ?thesis using 2 l by (simp add: claim_def idem_ok_def)
  next
    case 3
    have "distinct (id_keys s @ [key])" using l(2) 3(2) by simp
    then show ?thesis using 3 l(1) by (simp add: claim_def idem_ok_def evict_eq distinct_drop del: distinct_append drop_append)
  qed
qed

lemma forget_ok: "idem_ok s \<Longrightarrow> idem_ok (forget key s)"
  by (auto simp: forget_def idem_ok_def length_remove1)

text \<open>The keys claimed or repeated after \<open>key\<close> was last touched.\<close>

definition younger :: "string \<Rightarrow> idem_store \<Rightarrow> string set" where
  "younger key s = set (tl (dropWhile (\<lambda>k. k \<noteq> key) (id_keys s)))"

datatype key_op = Claim string | Forget string

fun key_step :: "key_op \<Rightarrow> idem_store \<Rightarrow> idem_store" where
  "key_step (Claim k) s = snd (claim k s)"
| "key_step (Forget k) s = forget k s"

definition claimed :: "key_op list \<Rightarrow> string set" where
  "claimed ops = {k. Claim k \<in> set ops}"

lemma split_key: "key \<in> set ks \<Longrightarrow> \<exists>a b. ks = a @ key # b \<and> key \<notin> set a"
  by (rule split_list_first)

lemma younger_split: "id_keys s = a @ key # b \<Longrightarrow> key \<notin> set a \<Longrightarrow> younger key s = set b"
  by (auto simp: younger_def dropWhile_append)

lemma key_step_keeps:
  assumes ok: "idem_ok s" and k: "key \<in> set (id_keys s)" and op: "step \<noteq> Forget key"
    and room: "card (younger key s \<union> claimed [step] - {key}) < id_max s"
  shows "key \<in> set (id_keys (key_step step s)) \<and> younger key (key_step step s) \<subseteq> younger key s \<union> claimed [step] - {key}"
proof -
  obtain a b where ab: "id_keys s = a @ key # b" "key \<notin> set a" using split_key[OF k] by blast
  have d: "distinct (a @ key # b)" using ok ab(1) by (simp add: idem_ok_def)
  note yo = younger_split[OF ab]
  show ?thesis
  proof (cases step)
    case (Forget x)
    show ?thesis
    proof (cases "x \<in> set a")
      case True
      have "id_keys (key_step step s) = remove1 x a @ key # b" using Forget ab True by (simp add: forget_def remove1_append)
      moreover from this have "younger key (key_step step s) = set b"
        by (rule younger_split) (use ab(2) in \<open>auto dest: in_set_remove1\<close>)
      ultimately show ?thesis using yo d by auto
    next
      case False
      have "id_keys (key_step step s) = a @ key # remove1 x b" using Forget ab False op by (auto simp: forget_def remove1_append)
      moreover from this have "younger key (key_step step s) = set (remove1 x b)" by (rule younger_split) (rule ab(2))
      ultimately show ?thesis using yo d by auto
    qed
  next
    case (Claim x)
    show ?thesis
    proof (cases "x = [] \<or> x = key")
      case True
      then show ?thesis
      proof (cases "x = []")
        case True
        then show ?thesis using Claim yo d ab k by (auto simp: claim_def)
      next
        case False
        then have x: "x = key" using True by simp
        have "id_keys (key_step step s) = (a @ b) @ key # []" using Claim x ab k False by (simp add: claim_def remove1_append)
        moreover from this have "younger key (key_step step s) = set []" by (rule younger_split) (use d in auto)
        ultimately show ?thesis by auto
      qed
    next
      case x: False
      show ?thesis
      proof (cases "x \<in> set (id_keys s)")
        case old: True
        show ?thesis
        proof (cases "x \<in> set a")
          case True
          have "id_keys (key_step step s) = remove1 x a @ key # (b @ [x])"
            using Claim x old ab True by (simp add: claim_def remove1_append)
          moreover from this have "younger key (key_step step s) = set (b @ [x])"
            by (rule younger_split) (use ab(2) in \<open>auto dest: in_set_remove1\<close>)
          ultimately show ?thesis using yo d x Claim by (auto simp: claimed_def)
        next
          case False
          have "id_keys (key_step step s) = a @ key # (remove1 x b @ [x])"
            using Claim x old ab False by (auto simp: claim_def remove1_append)
          moreover from this have "younger key (key_step step s) = set (remove1 x b @ [x])" by (rule younger_split) (rule ab(2))
          ultimately show ?thesis using yo d x Claim by (auto simp: claimed_def)
        qed
      next
        case new: False
        have "younger key s \<union> claimed [step] - {key} = set (b @ [x])"
          using Claim x yo d by (auto simp: claimed_def)
        moreover have "distinct (b @ [x])" using d new ab by auto
        ultimately have len: "Suc (length b) < id_max s" using room by (metis distinct_card length_append_singleton)
        have "id_keys (key_step step s) = drop (Suc (length a + Suc (length b)) - id_max s) (a @ key # b @ [x])"
          using Claim x new ab by (simp add: claim_def evict_eq)
        also have "\<dots> = drop (Suc (length a + Suc (length b)) - id_max s) a @ key # (b @ [x])"
          using len by simp
        finally have keys: "id_keys (key_step step s) = drop (Suc (length a + Suc (length b)) - id_max s) a @ key # (b @ [x])" .
        then have "younger key (key_step step s) = set (b @ [x])"
          by (rule younger_split) (use ab(2) in \<open>auto dest: in_set_dropD\<close>)
        then show ?thesis using keys yo d x Claim by (auto simp: claimed_def)
      qed
    qed
  qed
qed

lemma key_steps_keep:
  "idem_ok s \<Longrightarrow> key \<in> set (id_keys s) \<Longrightarrow> Forget key \<notin> set ops \<Longrightarrow>
   card (younger key s \<union> claimed ops - {key}) < id_max s \<Longrightarrow> key \<in> set (id_keys (fold key_step ops s))"
proof (induction ops arbitrary: s)
  case (Cons op ops)
  have cl: "claimed (op # ops) = claimed [op] \<union> claimed ops" by (auto simp: claimed_def)
  have fin: "finite (claimed xs)" for xs
  proof -
    have "claimed xs \<subseteq> (\<lambda>x. case x of Claim k \<Rightarrow> k | Forget k \<Rightarrow> k) ` set xs" by (force simp: claimed_def)
    then show ?thesis by (rule finite_subset) simp
  qed
  have fy: "finite (younger key s)" by (simp add: younger_def)
  have fa: "finite (younger key s \<union> claimed (op # ops) - {key})" using fin fy by simp
  have "card (younger key s \<union> claimed [op] - {key}) \<le> card (younger key s \<union> claimed (op # ops) - {key})"
    by (rule card_mono[OF fa]) (auto simp: cl)
  then have "card (younger key s \<union> claimed [op] - {key}) < id_max s" using Cons.prems(4) by linarith
  then have st: "key \<in> set (id_keys (key_step op s))" "younger key (key_step op s) \<subseteq> younger key s \<union> claimed [op] - {key}"
    using key_step_keeps[of s key op] Cons.prems by auto
  have m: "id_max (key_step op s) = id_max s" by (cases op) (auto simp: claim_def forget_def)
  have ok: "idem_ok (key_step op s)" using Cons.prems(1) claim_ok forget_ok by (cases op) auto
  have "younger key (key_step op s) \<union> claimed ops - {key} \<subseteq> younger key s \<union> claimed (op # ops) - {key}"
    using st(2) unfolding cl by auto
  then have "card (younger key (key_step op s) \<union> claimed ops - {key}) < id_max (key_step op s)"
    using Cons.prems(4) card_mono[OF fa] unfolding m by (meson le_less_trans)
  then show ?case using Cons.IH[OF ok st(1)] Cons.prems(3) by simp
qed simp

text \<open>C27: A claimed key stays claimed: after a successful claim and any later claims and releases that do
  not release it, claiming it again is refused as long as fewer than \<open>max_entries\<close> other keys
  were claimed meanwhile - a redelivered command is then not executed twice.\<close>

theorem claim_is_remembered:
  assumes ok: "idem_ok s" and first: "claim key s = (Inr True, s1)" and keep: "Forget key \<notin> set ops"
    and room: "card (claimed ops - {key}) < id_max s"
  shows "fst (claim key (fold key_step ops s1)) = Inr False"
proof -
  have k: "key \<noteq> []" "key \<notin> set (id_keys s)" "s1 = s\<lparr>id_keys := evict (id_max s) (id_keys s @ [key])\<rparr>"
    using first by (auto simp: claim_def split: if_splits)
  have ok1: "idem_ok s1" using claim_ok[OF ok, of key] first by simp
  have "id_keys s1 = drop (Suc (length (id_keys s)) - id_max s) (id_keys s) @ key # []"
    using ok by (auto simp: k(3) evict_eq idem_ok_def)
  moreover have "key \<notin> set (drop (Suc (length (id_keys s)) - id_max s) (id_keys s))" using k(2) by (meson in_set_dropD)
  ultimately have y: "younger key s1 = set []" "key \<in> set (id_keys s1)" using younger_split by auto
  have "key \<in> set (id_keys (fold key_step ops s1))"
    by (rule key_steps_keep[OF ok1 y(2) keep]) (use y(1) room k(3) in simp)
  then show ?thesis using k(1) by (simp add: claim_def)
qed

theorem claim_is_remembered_witness:
  "fst (claim ''A'' (fold key_step [Claim ''B'', Forget ''B'', Claim ''B''] \<lparr>id_max = 2, id_keys = [''X'', ''A'']\<rparr>)) = Inr False"
proof -
  have first: "claim ''A'' \<lparr>id_max = 2, id_keys = [''Y'', ''X'']\<rparr> = (Inr True, \<lparr>id_max = 2, id_keys = [''X'', ''A'']\<rparr>)" by code_simp
  have c: "claimed [Claim ''B'', Forget ''B'', Claim ''B''] = {''B''}" by (auto simp: claimed_def)
  show ?thesis by (rule claim_is_remembered[OF _ first]) (auto simp: c idem_ok_def)
qed

section \<open>The in-process queue\<close>

record envelope =
  en_body :: pyval
  en_receive_count :: int
  en_visible_at :: rat
  en_in_flight :: bool

record inprocess =
  ip_envelopes :: "(string, envelope) dict"
  ip_order :: "string list"
  ip_receipts :: int
  ip_closed :: bool
  ip_dead_letters :: "(delivery \<times> string) list"

definition new_inprocess :: inprocess where
  "new_inprocess = \<lparr>ip_envelopes = [], ip_order = [], ip_receipts = 1, ip_closed = False, ip_dead_letters = []\<rparr>"

text \<open>\<open>fresh\<close> is the \<open>uuid4\<close> id a message submitted without one gets.\<close>

definition submit_message :: "pyval \<Rightarrow> string option \<Rightarrow> string \<Rightarrow> inprocess \<Rightarrow> string res \<times> inprocess" where
  "submit_message body message_id fresh s =
     (let i = (case message_id of None \<Rightarrow> fresh | Some m \<Rightarrow> if m = [] then fresh else m) in
      if ip_closed s then (Inl RuntimeError, s)
      else if has_key (ip_envelopes s) i then (Inl ValueError, s)
      else (Inr i, s\<lparr>ip_envelopes := dset i \<lparr>en_body = body, en_receive_count = 0, en_visible_at = 0, en_in_flight = False\<rparr> (ip_envelopes s),
                    ip_order := ip_order s @ [i]\<rparr>))"

definition pending :: "inprocess \<Rightarrow> nat" where
  "pending s = length (ip_envelopes s)"

definition takeable :: "rat \<Rightarrow> envelope \<Rightarrow> bool" where
  "takeable now e \<longleftrightarrow> \<not> en_in_flight e \<and> en_visible_at e \<le> now"

definition take_one :: "string \<Rightarrow> envelope \<Rightarrow> inprocess \<Rightarrow> delivery \<times> inprocess" where
  "take_one i e s =
     (let e' = e\<lparr>en_in_flight := True, en_receive_count := en_receive_count e + 1\<rparr> in
      (\<lparr>dl_message_id = i, dl_body = en_body e, dl_receipt_handle = ''rh-'' @ int_str (ip_receipts s),
        dl_receive_count = en_receive_count e'\<rparr>,
       s\<lparr>ip_envelopes := dset i e' (ip_envelopes s), ip_receipts := ip_receipts s + 1\<rparr>))"

fun take_loop :: "int \<Rightarrow> rat \<Rightarrow> string list \<Rightarrow> delivery list \<Rightarrow> inprocess \<Rightarrow> delivery list \<times> inprocess" where
  "take_loop max_messages now [] taken s = (taken, s)"
| "take_loop max_messages now (i # ids) taken s =
     (if max_messages \<le> int (length taken) then (taken, s)
      else case dget (ip_envelopes s) i of
          None \<Rightarrow> take_loop max_messages now ids taken s
        | Some e \<Rightarrow>
            if takeable now e then take_loop max_messages now ids (taken @ [fst (take_one i e s)]) (snd (take_one i e s))
            else take_loop max_messages now ids taken s)"

definition take_batch :: "int \<Rightarrow> rat \<Rightarrow> inprocess \<Rightarrow> delivery list \<times> inprocess" where
  "take_batch max_messages now s = take_loop max_messages now (ip_order s) [] s"

text \<open>
  The waiting loop of \<open>poll\<close>: \<open>clock n\<close> is the \<open>n\<close>-th reading of \<open>time.monotonic()\<close>.
  A reading past the deadline ends it; nothing else need happen, so it is a partial function.
\<close>

partial_function (option) wait_loop ::
  "(nat \<Rightarrow> rat) \<Rightarrow> rat \<Rightarrow> int \<Rightarrow> nat \<Rightarrow> inprocess \<Rightarrow> (delivery list \<times> inprocess) option" where
  "wait_loop clock deadline max_messages n s =
     (let r = take_batch max_messages (clock n) s in
      if fst r \<noteq> [] \<or> deadline \<le> clock (Suc n) \<or> ip_closed s then Some r
      else wait_loop clock deadline max_messages (Suc (Suc n)) (snd r))"

definition ip_poll :: "(nat \<Rightarrow> rat) \<Rightarrow> int \<Rightarrow> rat \<Rightarrow> inprocess \<Rightarrow> (delivery list \<times> inprocess) option" where
  "ip_poll clock max_messages wait_seconds s =
     wait_loop clock (clock 0 + max wait_seconds 0) max_messages 1 s"

definition ip_drop :: "string \<Rightarrow> inprocess \<Rightarrow> inprocess" where
  "ip_drop i s = s\<lparr>ip_envelopes := dpop i (ip_envelopes s), ip_order := remove1 i (ip_order s)\<rparr>"

definition ip_acknowledge :: "delivery \<Rightarrow> inprocess \<Rightarrow> inprocess" where
  "ip_acknowledge m s = ip_drop (dl_message_id m) s"

definition ip_retry_later :: "rat \<Rightarrow> delivery \<Rightarrow> rat \<Rightarrow> inprocess \<Rightarrow> inprocess" where
  "ip_retry_later now m delay s =
     (case dget (ip_envelopes s) (dl_message_id m) of
        None \<Rightarrow> s
      | Some e \<Rightarrow> s\<lparr>ip_envelopes := dset (dl_message_id m)
                     (e\<lparr>en_in_flight := False, en_visible_at := now + max delay 0\<rparr>) (ip_envelopes s)\<rparr>)"

definition ip_extend_visibility :: "rat \<Rightarrow> delivery \<Rightarrow> int \<Rightarrow> inprocess \<Rightarrow> inprocess" where
  "ip_extend_visibility now m timeout s =
     (case dget (ip_envelopes s) (dl_message_id m) of
        None \<Rightarrow> s
      | Some e \<Rightarrow> s\<lparr>ip_envelopes := dset (dl_message_id m)
                     (e\<lparr>en_visible_at := now + of_int (max timeout 0)\<rparr>) (ip_envelopes s)\<rparr>)"

definition ip_dead_letter :: "delivery \<Rightarrow> string \<Rightarrow> inprocess \<Rightarrow> inprocess" where
  "ip_dead_letter m reason s =
     (ip_drop (dl_message_id m) s)\<lparr>ip_dead_letters := ip_dead_letters s @ [(m, reason)]\<rparr>"

definition ip_close :: "inprocess \<Rightarrow> inprocess" where
  "ip_close s = s\<lparr>ip_closed := True\<rparr>"

text \<open>What every operation keeps: the order lists exactly the queued ids, each once.\<close>

definition ip_ok :: "inprocess \<Rightarrow> bool" where
  "ip_ok s \<longleftrightarrow> dict_ok (ip_envelopes s) \<and> distinct (ip_order s) \<and> set (ip_order s) = fst ` set (ip_envelopes s)"

lemma keys_dset_set: "fst ` set (dset k v d) = insert k (fst ` set d)"
  by (induction d) auto

lemma keys_dpop_set: "fst ` set (dpop k d) = fst ` set d - {k}"
  by (induction d) auto

lemma ip_ok_new [simp]: "ip_ok new_inprocess"
  by (simp add: ip_ok_def new_inprocess_def)

lemma ip_drop_ok: "ip_ok s \<Longrightarrow> ip_ok (ip_drop i s)"
  by (simp add: ip_ok_def ip_drop_def keys_dpop_set distinct_remove1)

lemma ip_update_ok: "ip_ok s \<Longrightarrow> dget (ip_envelopes s) i = Some e \<Longrightarrow> ip_ok (s\<lparr>ip_envelopes := dset i e' (ip_envelopes s)\<rparr>)"
proof -
  assume "ip_ok s" "dget (ip_envelopes s) i = Some e"
  moreover from this(2) have "i \<in> fst ` set (ip_envelopes s)" using map_of_eq_None_iff[of "ip_envelopes s" i] by auto
  ultimately show ?thesis by (simp add: ip_ok_def keys_dset_set insert_absorb)
qed

lemma submit_ok: "ip_ok s \<Longrightarrow> ip_ok (snd (submit_message body mid fresh s))"
  by (auto simp: submit_message_def Let_def ip_ok_def keys_dset_set has_key_iff split: option.splits)


lemma ip_poll_ops_ok:
  "ip_ok s \<Longrightarrow> ip_ok (ip_acknowledge m s)" "ip_ok s \<Longrightarrow> ip_ok (ip_retry_later now m delay s)"
  "ip_ok s \<Longrightarrow> ip_ok (ip_dead_letter m reason s)" "ip_ok s \<Longrightarrow> ip_ok (ip_extend_visibility now m timeout s)"
  using ip_drop_ok[of s] ip_update_ok[of s]
  by (auto simp: ip_acknowledge_def ip_retry_later_def ip_dead_letter_def ip_extend_visibility_def ip_ok_def split: option.splits)

text \<open>One pass over the queue, as a specification: the takeable messages in order, at most \<open>max_messages\<close>.\<close>

definition takeable_ids :: "rat \<Rightarrow> inprocess \<Rightarrow> string list \<Rightarrow> string list" where
  "takeable_ids now s ids =
     filter (\<lambda>i. case dget (ip_envelopes s) i of None \<Rightarrow> False | Some e \<Rightarrow> takeable now e) ids"

definition delivered_as :: "envelope \<Rightarrow> envelope" where
  "delivered_as e = e\<lparr>en_in_flight := True, en_receive_count := en_receive_count e + 1\<rparr>"

lemma take_loop_spec:
  assumes "distinct ids" "ip_ok s" "take_loop mx now ids taken s = (ms, s')"
    and ids: "ns = take (nat (mx - int (length taken))) (takeable_ids now s ids)"
  shows "\<exists>new. ms = taken @ new \<and> map dl_message_id new = ns \<and> ip_ok s' \<and> ip_order s' = ip_order s \<and>
    ip_dead_letters s' = ip_dead_letters s \<and> ip_closed s' = ip_closed s \<and>
    (\<forall>i. dget (ip_envelopes s') i = (if i \<in> set ns then map_option delivered_as (dget (ip_envelopes s) i) else dget (ip_envelopes s) i)) \<and>
    (\<forall>m\<in>set new. \<exists>e. dget (ip_envelopes s) (dl_message_id m) = Some e \<and> dl_body m = en_body e \<and>
        dl_receive_count m = en_receive_count e + 1)"
  using assms
proof (induction ids arbitrary: taken s ns)
  case Nil
  then show ?case by (simp add: takeable_ids_def)
next
  case (Cons i ids)
  have d: "distinct ids" "i \<notin> set ids" using Cons.prems(1) by auto
  show ?case
  proof (cases "mx \<le> int (length taken)")
    case True
    then show ?thesis using Cons.prems by simp
  next
    case more: False
    show ?thesis
    proof (cases "\<exists>e. dget (ip_envelopes s) i = Some e \<and> takeable now e")
      case False
      then have run: "take_loop mx now ids taken s = (ms, s')" and t: "takeable_ids now s (i # ids) = takeable_ids now s ids"
        using Cons.prems(3) more by (auto simp: takeable_ids_def split: option.splits if_splits)
      show ?thesis by (rule Cons.IH[OF d(1) Cons.prems(2) run]) (simp add: Cons.prems(4) t)
    next
      case True
      then obtain e where e: "dget (ip_envelopes s) i = Some e" "takeable now e" by blast
      define s1 where "s1 = snd (take_one i e s)"
      define m where "m = fst (take_one i e s)"
      have m: "dl_message_id m = i" "dl_body m = en_body e" "dl_receive_count m = en_receive_count e + 1"
        by (simp_all add: m_def take_one_def Let_def)
      have env1: "ip_envelopes s1 = dset i (delivered_as e) (ip_envelopes s)"
        and rest1: "ip_order s1 = ip_order s" "ip_dead_letters s1 = ip_dead_letters s" "ip_closed s1 = ip_closed s"
        by (simp_all add: s1_def take_one_def Let_def delivered_as_def)
      have ok1: "ip_ok s1" using ip_update_ok[OF Cons.prems(2) e(1), of "delivered_as e"]
        by (simp add: ip_ok_def env1 rest1)
      have run: "take_loop mx now ids (taken @ [m]) s1 = (ms, s')"
        using Cons.prems(3) more e by (simp add: s1_def m_def)
      have t1: "takeable_ids now s1 ids = takeable_ids now s ids" unfolding takeable_ids_def env1
        by (rule filter_cong) (use d(2) in auto)
      have t: "takeable_ids now s (i # ids) = i # takeable_ids now s ids" using e by (simp add: takeable_ids_def)
      obtain ns1 where ns1: "ns1 = take (nat (mx - int (length (taken @ [m])))) (takeable_ids now s1 ids)" by blast
      have n: "nat (mx - int (length taken)) = Suc (nat (mx - int (length (taken @ [m]))))" using more by simp
      have ns: "ns = i # ns1" unfolding Cons.prems(4) t n ns1 t1 by simp
      have i1: "i \<notin> set ns1" using d(2) unfolding ns1 takeable_ids_def by (auto dest!: in_set_takeD)
      obtain new where IH: "ms = (taken @ [m]) @ new" "map dl_message_id new = ns1" "ip_ok s'" "ip_order s' = ip_order s1"
          "ip_dead_letters s' = ip_dead_letters s1" "ip_closed s' = ip_closed s1"
          "\<forall>i. dget (ip_envelopes s') i = (if i \<in> set ns1 then map_option delivered_as (dget (ip_envelopes s1) i) else dget (ip_envelopes s1) i)"
          "\<forall>m\<in>set new. \<exists>e. dget (ip_envelopes s1) (dl_message_id m) = Some e \<and> dl_body m = en_body e \<and>
             dl_receive_count m = en_receive_count e + 1"
        using Cons.IH[OF d(1) ok1 run ns1] by blast
      have env: "dget (ip_envelopes s') j = (if j \<in> set ns then map_option delivered_as (dget (ip_envelopes s) j) else dget (ip_envelopes s) j)" for j
        using IH(7) i1 e(1) unfolding ns env1 by (cases "j = i") auto
      have "\<exists>e. dget (ip_envelopes s) (dl_message_id x) = Some e \<and> dl_body x = en_body e \<and>
          dl_receive_count x = en_receive_count e + 1" if x: "x \<in> set (m # new)" for x
      proof (cases "x = m")
        case False
        then have "dl_message_id x \<in> set ns1" using x IH(2) by auto
        then have "dl_message_id x \<noteq> i" using i1 by auto
        then show ?thesis using IH(8)[unfolded env1 dget_dset] x False by fastforce
      qed (use m e(1) in simp)
      then show ?thesis using IH(1-6) env m(1) rest1 ns by (intro exI[of _ "m # new"]) simp
    qed
  qed
qed


lemma take_batch_spec:
  assumes ok: "ip_ok s" and run: "take_batch mx now s = (ms, s')"
  shows "map dl_message_id ms = take (nat mx) (takeable_ids now s (ip_order s))" "ip_ok s'"
    "ip_order s' = ip_order s" "ip_dead_letters s' = ip_dead_letters s" "ip_closed s' = ip_closed s"
    "dget (ip_envelopes s') i =
       (if i \<in> dl_message_id ` set ms then map_option delivered_as (dget (ip_envelopes s) i) else dget (ip_envelopes s) i)"
    "m \<in> set ms \<Longrightarrow> \<exists>e. dget (ip_envelopes s) (dl_message_id m) = Some e \<and> takeable now e \<and> dl_body m = en_body e \<and>
       dl_receive_count m = en_receive_count e + 1"
proof -
  have d: "distinct (ip_order s)" using ok by (simp add: ip_ok_def)
  define ns where "ns = take (nat mx) (takeable_ids now s (ip_order s))"
  have "ns = take (nat (mx - int (length ([] :: delivery list)))) (takeable_ids now s (ip_order s))" by (simp add: ns_def)
  from take_loop_spec[OF d ok run[unfolded take_batch_def] this]
  obtain new where n: "ms = [] @ new" "map dl_message_id new = ns"
      "ip_ok s'" "ip_order s' = ip_order s" "ip_dead_letters s' = ip_dead_letters s" "ip_closed s' = ip_closed s"
      "\<forall>i. dget (ip_envelopes s') i = (if i \<in> set ns then map_option delivered_as (dget (ip_envelopes s) i) else dget (ip_envelopes s) i)"
      "\<forall>m\<in>set new. \<exists>e. dget (ip_envelopes s) (dl_message_id m) = Some e \<and> dl_body m = en_body e \<and>
         dl_receive_count m = en_receive_count e + 1"
    by blast
  have ids: "dl_message_id ` set ms = set ns" using arg_cong[OF n(2), of set] n(1) by simp
  show "map dl_message_id ms = take (nat mx) (takeable_ids now s (ip_order s))" using n(1,2) by (simp add: ns_def)
  show "ip_ok s'" "ip_order s' = ip_order s" "ip_dead_letters s' = ip_dead_letters s" "ip_closed s' = ip_closed s" by fact+
  show "dget (ip_envelopes s') i =
       (if i \<in> dl_message_id ` set ms then map_option delivered_as (dget (ip_envelopes s) i) else dget (ip_envelopes s) i)"
    unfolding ids using n(7) by blast
  assume m: "m \<in> set ms"
  then obtain e where e: "dget (ip_envelopes s) (dl_message_id m) = Some e" "dl_body m = en_body e"
      "dl_receive_count m = en_receive_count e + 1" using n(1,8) by auto
  have "dl_message_id m \<in> set ns" using m ids by blast
  then have "dl_message_id m \<in> set (takeable_ids now s (ip_order s))" unfolding ns_def by (rule in_set_takeD)
  then have "takeable now e" using e(1) by (simp add: takeable_ids_def)
  then show "\<exists>e. dget (ip_envelopes s) (dl_message_id m) = Some e \<and> takeable now e \<and> dl_body m = en_body e \<and>
       dl_receive_count m = en_receive_count e + 1" using e by blast
qed

text \<open>Waiting takes nothing until the round that ends it.\<close>

lemma take_nothing: "ip_ok s \<Longrightarrow> fst (take_batch mx now s) = [] \<Longrightarrow> snd (take_batch mx now s) = s"
proof -
  have "take_loop mx now ids [] s = ([], s') \<Longrightarrow> s' = s" for ids s'
  proof (induction ids)
    case (Cons i ids)
    have grow: "take_loop mx now js taken q = (ms, q') \<Longrightarrow> length taken \<le> length ms" for js taken q ms q'
      by (induction js arbitrary: taken q) (force split: if_splits option.splits)+
    show ?case using Cons grow[of ids "[] @ [x]" for x] by (fastforce split: if_splits option.splits)
  qed simp
  then show "fst (take_batch mx now s) = [] \<Longrightarrow> snd (take_batch mx now s) = s"
    unfolding take_batch_def by (metis prod.collapse)
qed

lemma wait_loop_returns:
  assumes ok: "ip_ok s" and k: "deadline \<le> clock (n + 2 * k + 1)"
  shows "\<exists>j. j \<le> k \<and> wait_loop clock deadline mx n s = Some (take_batch mx (clock (n + 2 * j)) s)"
  using k
proof (induction k arbitrary: n)
  case 0
  then show ?case by (subst wait_loop.simps) (simp add: Let_def)
next
  case (Suc k)
  show ?case
  proof (cases "fst (take_batch mx (clock n) s) \<noteq> [] \<or> deadline \<le> clock (Suc n) \<or> ip_closed s")
    case True
    then have "wait_loop clock deadline mx n s = Some (take_batch mx (clock n) s)"
      by (subst wait_loop.simps) (simp add: Let_def)
    then show ?thesis by (intro exI[of _ 0]) simp
  next
    case False
    then have "wait_loop clock deadline mx n s = wait_loop clock deadline mx (Suc (Suc n)) s"
      using take_nothing[OF ok] by (subst wait_loop.simps) (simp add: Let_def)
    moreover obtain j where "j \<le> k" "wait_loop clock deadline mx (Suc (Suc n)) s = Some (take_batch mx (clock (Suc (Suc n) + 2 * j)) s)"
      using Suc.IH[of "Suc (Suc n)"] Suc.prems by (auto simp: algebra_simps)
    ultimately show ?thesis by (intro exI[of _ "Suc j"]) simp
  qed
qed

text \<open>C40: Receiving returns and delivers fairly: on a clock that passes every point, \<open>poll\<close> ends; what
  it delivers is the first \<open>max_messages\<close> messages, in queue order, that are visible and not in flight
  at the time of one reading; each is delivered with its own body and the next receive count and is in
  flight from then on, and every other message, the order and the dead letters are as before.\<close>

theorem poll_returns:
  assumes ok: "ip_ok s" and clock: "\<forall>t. \<exists>n. \<forall>m\<ge>n. t \<le> clock m"
  shows "\<exists>ms s' n. ip_poll clock mx wait s = Some (ms, s') \<and> ip_ok s' \<and>
    map dl_message_id ms = take (nat mx) (takeable_ids (clock n) s (ip_order s)) \<and>
    ip_order s' = ip_order s \<and> ip_dead_letters s' = ip_dead_letters s \<and>
    (\<forall>i. dget (ip_envelopes s') i =
       (if i \<in> dl_message_id ` set ms then map_option delivered_as (dget (ip_envelopes s) i) else dget (ip_envelopes s) i)) \<and>
    (\<forall>m\<in>set ms. \<exists>e. dget (ip_envelopes s) (dl_message_id m) = Some e \<and> takeable (clock n) e \<and>
       dl_body m = en_body e \<and> dl_receive_count m = en_receive_count e + 1)"
proof -
  obtain k where "\<forall>m\<ge>k. clock 0 + max wait 0 \<le> clock m" using clock by blast
  then have "clock 0 + max wait 0 \<le> clock (1 + 2 * k + 1)" by simp
  then obtain j where j: "ip_poll clock mx wait s = Some (take_batch mx (clock (1 + 2 * j)) s)"
    using wait_loop_returns[OF ok] unfolding ip_poll_def by blast
  obtain ms s' where r: "take_batch mx (clock (1 + 2 * j)) s = (ms, s')" by (cases "take_batch mx (clock (1 + 2 * j)) s")
  show ?thesis using j[unfolded r] take_batch_spec[OF ok r] by blast
qed

definition two_messages :: inprocess where
  "two_messages = \<lparr>ip_envelopes = [(''A'', \<lparr>en_body = VNone, en_receive_count = 0, en_visible_at = 0, en_in_flight = True\<rparr>),
      (''B'', \<lparr>en_body = VNone, en_receive_count = 2, en_visible_at = 0, en_in_flight = False\<rparr>)],
     ip_order = [''A'', ''B''], ip_receipts = 4, ip_closed = False, ip_dead_letters = []\<rparr>"

theorem poll_returns_witness:
  "\<exists>ms s' n. ip_poll of_nat 10 1 two_messages = Some (ms, s') \<and>
     map dl_message_id ms = take 10 (takeable_ids (of_nat n) two_messages [''A'', ''B''])"
proof -
  have ok: "ip_ok two_messages" by (auto simp: ip_ok_def two_messages_def dict_ok_def)
  have clock: "\<forall>t::rat. \<exists>n. \<forall>m\<ge>n. t \<le> of_nat m" by (meson real_arch_simple of_nat_mono order_trans)
  have o: "ip_order two_messages = [''A'', ''B'']" by (simp add: two_messages_def)
  show ?thesis using poll_returns[OF ok clock, of 10 1] unfolding o by fastforce
qed


end
