(* ===== verification/Worker_Loop.thy ===== *)
theory Worker_Loop
  imports Worker_Queue
begin

text \<open>
  The pipeline worker: the envelope checks of \<open>apps/common/events.py\<close>, the commands of
  \<open>apps/pipeline_worker/commands.py\<close> and the consumer loop of \<open>apps/pipeline_worker/worker.py\<close>.
  The domain adapters behind the executor are functions on a state of their own (the world); what other
  threads do (a stop request, the deadline, a heartbeat that failed to renew the lease) is an
  observation the environment supplies at the places where the loop looks.
\<close>

section \<open>Checking an envelope\<close>

definition require_mapping :: "pyval \<Rightarrow> doc res" where
  "require_mapping v = (case v of VMap d \<Rightarrow> Inr d | _ \<Rightarrow> Inl MalformedEventError)"

definition require_field :: "doc \<Rightarrow> string \<Rightarrow> pyval res" where
  "require_field d k = (case dget d k of None \<Rightarrow> Inl MalformedEventError | Some v \<Rightarrow> Inr v)"

definition require_string :: "doc \<Rightarrow> string \<Rightarrow> string res" where
  "require_string d k =
     bindE (require_field d k) (\<lambda>v.
       case v of VStr s \<Rightarrow> if strip s = [] then Inl MalformedEventError else Inr (strip s) | _ \<Rightarrow> Inl MalformedEventError)"

definition alphanumeric :: "char \<Rightarrow> bool" where
  "alphanumeric c \<longleftrightarrow> (let n = of_char c :: nat in 48 \<le> n \<and> n \<le> 57 \<or> 65 \<le> n \<and> n \<le> 90 \<or> 97 \<le> n \<and> n \<le> 122)"

definition identifier_match :: "string \<Rightarrow> bool" where
  "identifier_match s \<longleftrightarrow>
     (case s of [] \<Rightarrow> False
      | c # cs \<Rightarrow> alphanumeric c \<and> length cs \<le> 127 \<and> list_all (\<lambda>c. alphanumeric c \<or> c \<in> set ''._:-'') cs)"

definition require_identifier :: "doc \<Rightarrow> string \<Rightarrow> string res" where
  "require_identifier d k = bindE (require_string d k) (\<lambda>s. if identifier_match s then Inr s else Inl MalformedEventError)"

definition require_enum :: "doc \<Rightarrow> string \<Rightarrow> string list \<Rightarrow> string res" where
  "require_enum d k allowed = bindE (require_string d k) (\<lambda>s. if s \<in> set allowed then Inr s else Inl MalformedEventError)"

definition require_sequence :: "doc \<Rightarrow> string \<Rightarrow> pyval list res" where
  "require_sequence d k = bindE (require_field d k) (\<lambda>v. case v of VList l \<Rightarrow> Inr l | _ \<Rightarrow> Inl MalformedEventError)"

definition reject_unknown_fields :: "doc \<Rightarrow> string list \<Rightarrow> unit res" where
  "reject_unknown_fields d allowed = guardE (list_all (\<lambda>(k, _). k \<in> set allowed) d) MalformedEventError"

section \<open>Commands\<close>

definition COMMAND_ENVELOPE_FIELDS :: "string list" where
  "COMMAND_ENVELOPE_FIELDS = [''command'', ''command_id'', ''payload'', ''issued_at'']"

definition SUPPORTED_COMMANDS :: "string list" where
  "SUPPORTED_COMMANDS =
     [''VALIDATE_CATALOG'', ''VALIDATE_DATASET_MANIFEST'', ''PUBLISH_DATASET'', ''INGEST_REALTIME_BARS'',
      ''APPLY_CORPORATE_ACTION_APPROVAL'', ''MATERIALIZE_FEATURE_OUTPUT'']"

record command =
  cm_command :: string
  cm_command_id :: string
  cm_payload :: doc

definition parse_command :: "pyval \<Rightarrow> string \<Rightarrow> command res" where
  "parse_command body fallback =
     bindE (require_mapping body) (\<lambda>d.
     bindE (reject_unknown_fields d COMMAND_ENVELOPE_FIELDS) (\<lambda>_.
     bindE (require_string d ''command'') (\<lambda>name.
     bindE (guardE (name \<in> set SUPPORTED_COMMANDS) UnknownCommandError) (\<lambda>_.
     bindE (if has_key d ''command_id'' then require_identifier d ''command_id'' else Inr fallback) (\<lambda>i.
     bindE (require_mapping (case dget d ''payload'' of None \<Rightarrow> VMap [] | Some v \<Rightarrow> v)) (\<lambda>payload.
       Inr \<lparr>cm_command = name, cm_command_id = i, cm_payload = payload\<rparr>))))))"

text \<open>The adapters of the executor; each may raise and may change the world.\<close>

record 'w ports =
  pt_validate_catalog :: "'w \<Rightarrow> doc res \<times> 'w"
  pt_manifest_violation :: "doc \<Rightarrow> string option"
  pt_publish :: "doc \<Rightarrow> 'w \<Rightarrow> doc res \<times> 'w"
  pt_ingest :: "pyval list \<Rightarrow> bool \<Rightarrow> 'w \<Rightarrow> doc res \<times> 'w"
  pt_approve :: "doc \<Rightarrow> 'w \<Rightarrow> doc res \<times> 'w"
  pt_materialize :: "doc \<Rightarrow> string \<Rightarrow> 'w \<Rightarrow> doc res \<times> 'w"

definition get_or_none :: "doc \<Rightarrow> string \<Rightarrow> pyval" where
  "get_or_none d k = (case dget d k of None \<Rightarrow> VNone | Some v \<Rightarrow> v)"

definition validate_manifest_command :: "'w ports \<Rightarrow> doc \<Rightarrow> doc res" where
  "validate_manifest_command P payload =
     bindE (require_mapping (get_or_none payload ''manifest'')) (\<lambda>m.
       case pt_manifest_violation P m of
         Some violation \<Rightarrow>
           Inr [(''status'', VStr ''REJECTED''), (''manifest_id'', get_or_none m ''manifest_id''), (''violation'', VStr violation)]
       | None \<Rightarrow>
           Inr [(''status'', VStr ''ACCEPTED''), (''manifest_id'', get_or_none m ''manifest_id''),
                (''dataset_id'', get_or_none m ''dataset_id''), (''revision'', get_or_none m ''revision'')])"

definition ingest_arguments :: "doc \<Rightarrow> (pyval list \<times> bool) res" where
  "ingest_arguments payload =
     bindE (require_sequence payload ''events'') (\<lambda>events.
     bindE (guardE (events \<noteq> []) MalformedEventError) (\<lambda>_.
     bindE (mapE require_mapping events) (\<lambda>_.
       case dget payload ''flush'' of
         None \<Rightarrow> Inr (events, True) | Some (VBool b) \<Rightarrow> Inr (events, b) | Some _ \<Rightarrow> Inl MalformedEventError)))"

definition execute_command :: "'w ports \<Rightarrow> command \<Rightarrow> 'w \<Rightarrow> doc res \<times> 'w" where
  "execute_command P c w =
     (let name = cm_command c; payload = cm_payload c in
      if name = ''VALIDATE_CATALOG'' then pt_validate_catalog P w
      else if name = ''VALIDATE_DATASET_MANIFEST'' then (validate_manifest_command P payload, w)
      else if name = ''PUBLISH_DATASET'' then pt_publish P payload w
      else if name = ''INGEST_REALTIME_BARS'' then
        (case ingest_arguments payload of Inl e \<Rightarrow> (Inl e, w) | Inr (events, immediately) \<Rightarrow> pt_ingest P events immediately w)
      else if name = ''APPLY_CORPORATE_ACTION_APPROVAL'' then pt_approve P payload w
      else if name = ''MATERIALIZE_FEATURE_OUTPUT'' then pt_materialize P payload (cm_command_id c) w
      else (Inl UnknownCommandError, w))"

definition unconfigured_port :: "doc \<Rightarrow> 'w \<Rightarrow> doc res \<times> 'w" where
  "unconfigured_port payload w = (Inl PortNotConfiguredError, w)"

section \<open>Health\<close>

datatype readiness = STARTING | READY_STATE | DRAINING | STOPPED | FAILED_STATE

datatype outcome = SUCCEEDED | REJECTED | DUPLICATE | FAILED | DEAD_LETTERED

record health =
  hs_status :: readiness
  hs_stop_reason :: "string option"
  hs_processed :: nat
  hs_succeeded :: nat
  hs_rejected :: nat
  hs_duplicated :: nat
  hs_failed :: nat
  hs_dead_lettered :: nat

definition new_health :: health where
  "new_health = \<lparr>hs_status = STARTING, hs_stop_reason = None, hs_processed = 0, hs_succeeded = 0, hs_rejected = 0,
     hs_duplicated = 0, hs_failed = 0, hs_dead_lettered = 0\<rparr>"

definition mark_ready :: "health \<Rightarrow> health" where
  "mark_ready h = h\<lparr>hs_status := READY_STATE\<rparr>"

definition mark_draining :: "string \<Rightarrow> health \<Rightarrow> health" where
  "mark_draining reason h =
     h\<lparr>hs_status := (if hs_status h = FAILED_STATE then FAILED_STATE else DRAINING), hs_stop_reason := Some reason\<rparr>"

definition mark_stopped :: "health \<Rightarrow> health" where
  "mark_stopped h = h\<lparr>hs_status := (if hs_status h = FAILED_STATE then FAILED_STATE else STOPPED)\<rparr>"

definition mark_failed :: "string \<Rightarrow> health \<Rightarrow> health" where
  "mark_failed reason h = h\<lparr>hs_status := FAILED_STATE, hs_stop_reason := Some reason\<rparr>"

definition health_record :: "outcome \<Rightarrow> health \<Rightarrow> health" where
  "health_record r h =
     (let h = h\<lparr>hs_processed := Suc (hs_processed h)\<rparr> in
      case r of
        SUCCEEDED \<Rightarrow> h\<lparr>hs_succeeded := Suc (hs_succeeded h)\<rparr>
      | REJECTED \<Rightarrow> h\<lparr>hs_rejected := Suc (hs_rejected h)\<rparr>
      | DUPLICATE \<Rightarrow> h\<lparr>hs_duplicated := Suc (hs_duplicated h)\<rparr>
      | DEAD_LETTERED \<Rightarrow> h\<lparr>hs_dead_lettered := Suc (hs_dead_lettered h)\<rparr>
      | FAILED \<Rightarrow> h\<lparr>hs_failed := Suc (hs_failed h)\<rparr>)"

definition health_ok :: "health \<Rightarrow> bool" where
  "health_ok h \<longleftrightarrow> hs_processed h = hs_succeeded h + hs_rejected h + hs_duplicated h + hs_failed h + hs_dead_lettered h"

lemma health_record_ok: "health_ok h \<Longrightarrow> health_ok (health_record r h)"
  by (cases r) (simp_all add: health_ok_def health_record_def Let_def)

section \<open>The worker\<close>

record result =
  rs_command :: string
  rs_command_id :: string
  rs_outcome :: outcome
  rs_code :: "string option"
  rs_message_id :: string
  rs_attempt :: int

record worker_config =
  cf_max_messages_per_poll :: int
  cf_poll_interval_seconds :: rat
  cf_retry_delay_seconds :: rat
  cf_max_receive_count :: int
  cf_exit_after_idle_polls :: int

record worker =
  wk_idem :: idem_store
  wk_results :: "result list"
  wk_health :: health

definition RESULT_HISTORY :: nat where "RESULT_HISTORY = 1000"

definition new_worker :: "idem_store \<Rightarrow> worker" where
  "new_worker store = \<lparr>wk_idem = store, wk_results = [], wk_health = new_health\<rparr>"

text \<open>\<open>deque(maxlen=RESULT_HISTORY)\<close>.\<close>

definition record_result :: "result \<Rightarrow> worker \<Rightarrow> worker" where
  "record_result r k =
     k\<lparr>wk_results := drop (Suc (length (wk_results k)) - RESULT_HISTORY) (wk_results k @ [r]),
       wk_health := health_record (rs_outcome r) (wk_health k)\<rparr>"

text \<open>\<open>getattr(error, "code", type(error).__name__)\<close>; \<open>name_of\<close> is the class name.\<close>

definition error_code :: "(exc \<Rightarrow> string) \<Rightarrow> exc \<Rightarrow> string" where
  "error_code name_of e =
     (case e of
        MalformedEventError \<Rightarrow> ''MALFORMED_EVENT'' | UnknownCommandError \<Rightarrow> ''UNKNOWN_COMMAND''
      | ConfigurationError \<Rightarrow> ''CONFIGURATION_ERROR'' | PortNotConfiguredError \<Rightarrow> ''PORT_NOT_CONFIGURED''
      | ExecutionCancelledError \<Rightarrow> ''EXECUTION_CANCELLED'' | ApprovalRefusedError c \<Rightarrow> c | x \<Rightarrow> name_of x)"

definition is_malformed :: "exc \<Rightarrow> bool" where
  "is_malformed e \<longleftrightarrow> e = MalformedEventError \<or> e = UnknownCommandError"

definition is_refusal :: "exc \<Rightarrow> bool" where
  "is_refusal e \<longleftrightarrow> (case e of ApprovalRefusedError _ \<Rightarrow> True | _ \<Rightarrow> False)"

definition durable_domain_idempotency :: "command \<Rightarrow> bool" where
  "durable_domain_idempotency c \<longleftrightarrow>
     cm_command c \<in> set [''APPLY_CORPORATE_ACTION_APPROVAL'', ''MATERIALIZE_FEATURE_OUTPUT'']"

text \<open>
  Parking: a dead-letter hop that fails makes the message visible again, and a failure of that is
  swallowed too. The log line of the failed hop renders \<open>dict(message.body)\<close>, which raises for a body
  that is neither a mapping nor a sequence of pairs.
\<close>

definition pair_like :: "pyval \<Rightarrow> bool" where
  "pair_like v =
     (case v of
        VStr s \<Rightarrow> length s = 2
      | VList [VList _, _] \<Rightarrow> False | VList [VMap _, _] \<Rightarrow> False
      | VList l \<Rightarrow> length l = 2
      | VMap d \<Rightarrow> length d = 2
      | _ \<Rightarrow> False)"

definition dict_raises :: "pyval \<Rightarrow> exc option" where
  "dict_raises v =
     (case v of
        VMap _ \<Rightarrow> None
      | VStr s \<Rightarrow> if s = [] then None else Some ValueError
      | VList l \<Rightarrow> if list_all pair_like l then None else Some (OtherError ''dict'')
      | _ \<Rightarrow> Some TypeError)"

definition park :: "worker_config \<Rightarrow> 'q source_ops \<Rightarrow> delivery \<Rightarrow> string \<Rightarrow> 'q \<Rightarrow> bool res \<times> 'q" where
  "park cf src m reason q =
     (case so_dead_letter src q m reason of
        (Inr _, q1) \<Rightarrow> (Inr True, q1)
      | (Inl _, q1) \<Rightarrow>
          (case dict_raises (dl_body m) of
             Some e \<Rightarrow> (Inl e, q1)
           | None \<Rightarrow> (Inr False, snd (so_retry_later src q1 m (cf_retry_delay_seconds cf)))))"

definition result_of :: "command option \<Rightarrow> delivery \<Rightarrow> outcome \<Rightarrow> string option \<Rightarrow> result" where
  "result_of c m r code =
     \<lparr>rs_command = (case c of None \<Rightarrow> ''<malformed>'' | Some x \<Rightarrow> cm_command x),
      rs_command_id = (case c of None \<Rightarrow> dl_message_id m | Some x \<Rightarrow> cm_command_id x),
      rs_outcome = r, rs_code = code, rs_message_id = dl_message_id m, rs_attempt = dl_receive_count m\<rparr>"

definition park_and_record ::
  "(exc \<Rightarrow> string) \<Rightarrow> worker_config \<Rightarrow> 'q source_ops \<Rightarrow> command option \<Rightarrow> delivery \<Rightarrow> exc \<Rightarrow> worker \<Rightarrow> 'q
    \<Rightarrow> unit res \<times> worker \<times> 'q" where
  "park_and_record name_of cf src c m e k q =
     (case park cf src m (error_code name_of e) q of
        (Inl e', q1) \<Rightarrow> (Inl e', k, q1)
      | (Inr parked, q1) \<Rightarrow>
          (Inr (), record_result (result_of c m (if parked then REJECTED else FAILED)
             (Some (if parked then error_code name_of e else ''DEAD_LETTER_UNAVAILABLE''))) k, q1))"

definition release :: "command \<Rightarrow> worker \<Rightarrow> worker" where
  "release c k = (if durable_domain_idempotency c then k else k\<lparr>wk_idem := forget (cm_command_id c) (wk_idem k)\<rparr>)"

text \<open>The command raised something that is neither malformed nor a refusal.\<close>

definition failed_execution ::
  "(exc \<Rightarrow> string) \<Rightarrow> worker_config \<Rightarrow> 'q source_ops \<Rightarrow> command \<Rightarrow> delivery \<Rightarrow> exc \<Rightarrow> worker \<Rightarrow> 'q \<Rightarrow> unit res \<times> worker \<times> 'q" where
  "failed_execution name_of cf src c m e k q =
     (if cf_max_receive_count cf \<le> dl_receive_count m then
        (case park cf src m ''MAX_RECEIVES_EXCEEDED'' q of
           (Inl e', q1) \<Rightarrow> (Inl e', k, q1)
         | (Inr parked, q1) \<Rightarrow>
             (Inr (), record_result (result_of (Some c) m (if parked then DEAD_LETTERED else FAILED) (Some (error_code name_of e))) k, q1))
      else
        let k1 = record_result (result_of (Some c) m FAILED (Some (error_code name_of e))) k;
            (r, q1) = so_retry_later src q m (cf_retry_delay_seconds cf)
        in (r, k1, q1))"

text \<open>The claim of the command id, for the commands without an identity of their own.\<close>

definition claim_command :: "command \<Rightarrow> worker \<Rightarrow> bool res \<times> worker" where
  "claim_command c k =
     (if durable_domain_idempotency c then (Inr True, k)
      else let (r, s) = claim (cm_command_id c) (wk_idem k) in (r, k\<lparr>wk_idem := s\<rparr>))"

text \<open>\<open>lost\<close>: the heartbeat could not renew the lease while the command ran.\<close>

definition after_execution ::
  "(exc \<Rightarrow> string) \<Rightarrow> worker_config \<Rightarrow> 'q source_ops \<Rightarrow> command \<Rightarrow> delivery \<Rightarrow> bool \<Rightarrow> doc res \<Rightarrow> worker \<Rightarrow> 'q
    \<Rightarrow> unit res \<times> worker \<times> 'q" where
  "after_execution name_of cf src c m lost r k q =
     (case r of
        Inl e \<Rightarrow>
          if is_malformed e then park_and_record name_of cf src (Some c) m e (release c k) q
          else if is_refusal e then park_and_record name_of cf src (Some c) m e k q
          else failed_execution name_of cf src c m e (release c k) q
      | Inr detail \<Rightarrow>
          if lost then
            (Inr (), record_result (result_of (Some c) m FAILED (Some ''VISIBILITY_HEARTBEAT_FAILED'')) (release c k),
             snd (so_retry_later src q m 0))
          else
            let (a, q1) = so_acknowledge src q m in (a, record_result (result_of (Some c) m SUCCEEDED None) k, q1))"

definition process_message ::
  "(exc \<Rightarrow> string) \<Rightarrow> worker_config \<Rightarrow> 'q source_ops \<Rightarrow> (command \<Rightarrow> 'w \<Rightarrow> doc res \<times> 'w) \<Rightarrow> bool \<Rightarrow> delivery \<Rightarrow> worker \<Rightarrow> 'q \<Rightarrow> 'w
    \<Rightarrow> (unit res \<times> worker \<times> 'q) \<times> 'w" where
  "process_message name_of cf src ex lost m k q w =
     (case parse_command (dl_body m) (dl_message_id m) of
        Inl e \<Rightarrow> (park_and_record name_of cf src None m e k q, w)
      | Inr c \<Rightarrow>
          (case claim_command c k of
             (Inl e, k1) \<Rightarrow> ((Inl e, k1, q), w)
           | (Inr False, k1) \<Rightarrow>
               (let (a, q1) = so_acknowledge src q m in (a, record_result (result_of (Some c) m DUPLICATE None) k1, q1), w)
           | (Inr True, k1) \<Rightarrow>
               (let (r, w1) = ex c w in (after_execution name_of cf src c m lost r k1 q, w1))))"


text \<open>
  What the loop sees when it reaches a message: a stop was requested, the deadline of the drain passed,
  the heartbeat had already failed; and whether the heartbeat failed by the time the command returned.
\<close>

record observation =
  ob_stopped :: bool
  ob_expired :: bool
  ob_lease_lost :: bool
  ob_lease_lost_after :: bool

type_synonym ('q, 'w) worker_state = "worker \<times> 'q \<times> 'w"

fun process_batch ::
  "(exc \<Rightarrow> string) \<Rightarrow> worker_config \<Rightarrow> 'q source_ops \<Rightarrow> (command \<Rightarrow> 'w \<Rightarrow> doc res \<times> 'w) \<Rightarrow> (delivery \<Rightarrow> observation)
    \<Rightarrow> delivery list \<Rightarrow> ('q, 'w) worker_state \<Rightarrow> unit res \<times> ('q, 'w) worker_state" where
  "process_batch name_of cf src ex ob [] s = (Inr (), s)"
| "process_batch name_of cf src ex ob (m # ms) (k, q, w) =
     (if ob_stopped (ob m) \<or> ob_expired (ob m) \<or> ob_lease_lost (ob m) then
        (case so_retry_later src q m 0 of
           (Inl e, q1) \<Rightarrow> (Inl e, (k, q1, w))
         | (Inr _, q1) \<Rightarrow> process_batch name_of cf src ex ob ms (k, q1, w))
      else
        (case process_message name_of cf src ex (ob_lease_lost_after (ob m)) m k q w of
           ((Inl e, k1, q1), w1) \<Rightarrow> (Inl e, (k1, q1, w1))
         | ((Inr _, k1, q1), w1) \<Rightarrow> process_batch name_of cf src ex ob ms (k1, q1, w1)))"

definition request_stop :: "string \<Rightarrow> worker \<Rightarrow> worker" where
  "request_stop reason k = k\<lparr>wk_health := mark_draining reason (wk_health k)\<rparr>"

text \<open>
  The loop until a stop: \<open>stopped n\<close> is the stop flag at the \<open>n\<close>-th look, \<open>ob n\<close> what is seen
  in the \<open>n\<close>-th batch. The result says whether the stop flag is set when it leaves.
\<close>

fun consume ::
  "nat \<Rightarrow> (exc \<Rightarrow> string) \<Rightarrow> worker_config \<Rightarrow> 'q source_ops \<Rightarrow> (command \<Rightarrow> 'w \<Rightarrow> doc res \<times> 'w) \<Rightarrow> (nat \<Rightarrow> bool)
    \<Rightarrow> (nat \<Rightarrow> delivery \<Rightarrow> observation) \<Rightarrow> nat \<Rightarrow> int \<Rightarrow> ('q, 'w) worker_state
    \<Rightarrow> (bool res \<times> ('q, 'w) worker_state) option" where
  "consume 0 name_of cf src ex stopped ob n idle s = None"
| "consume (Suc fuel) name_of cf src ex stopped ob n idle (k, q, w) =
     (if stopped n then Some (Inr True, (k, q, w))
      else
        (case so_poll src q (cf_max_messages_per_poll cf) (cf_poll_interval_seconds cf) of
           (Inl e, q1) \<Rightarrow> Some (Inl e, (k, q1, w))
         | (Inr ms, q1) \<Rightarrow>
             if ms = [] then
               (if 0 < cf_exit_after_idle_polls cf \<and> cf_exit_after_idle_polls cf \<le> idle + 1
                then Some (Inr True, (request_stop ''idle-poll-limit'' k, q1, w))
                else consume fuel name_of cf src ex stopped ob (Suc n) (idle + 1) (k, q1, w))
             else
               (case process_batch name_of cf src ex (ob n) ms (k, q1, w) of
                  (Inl e, s1) \<Rightarrow> Some (Inl e, s1)
                | (Inr _, s1) \<Rightarrow> consume fuel name_of cf src ex stopped ob (Suc n) 0 s1)))"

text \<open>\<open>_drain\<close>: one poll and one batch; a set stop flag is seen at every message of it.\<close>

definition drain_worker ::
  "(exc \<Rightarrow> string) \<Rightarrow> worker_config \<Rightarrow> 'q source_ops \<Rightarrow> (command \<Rightarrow> 'w \<Rightarrow> doc res \<times> 'w) \<Rightarrow> bool \<Rightarrow> (delivery \<Rightarrow> observation)
    \<Rightarrow> ('q, 'w) worker_state \<Rightarrow> unit res \<times> ('q, 'w) worker_state" where
  "drain_worker name_of cf src ex stop_set ob s =
     (case s of (k, q, w) \<Rightarrow>
        case so_poll src q (cf_max_messages_per_poll cf) 0 of
          (Inl e, q1) \<Rightarrow> (Inl e, (k, q1, w))
        | (Inr ms, q1) \<Rightarrow>
            process_batch name_of cf src ex (\<lambda>m. (ob m)\<lparr>ob_stopped := stop_set \<or> ob_stopped (ob m)\<rparr>) ms (k, q1, w))"

definition shutdown_worker ::
  "(exc \<Rightarrow> string) \<Rightarrow> worker_config \<Rightarrow> 'q source_ops \<Rightarrow> ('q \<Rightarrow> 'q) \<Rightarrow> (command \<Rightarrow> 'w \<Rightarrow> doc res \<times> 'w) \<Rightarrow> bool \<Rightarrow> string
    \<Rightarrow> (delivery \<Rightarrow> observation) \<Rightarrow> ('q, 'w) worker_state \<Rightarrow> ('q, 'w) worker_state" where
  "shutdown_worker name_of cf src close_source ex stop_set reason ob s =
     (case s of (k, q, w) \<Rightarrow>
        case drain_worker name_of cf src ex stop_set ob (request_stop reason k, q, w) of
          (_, (k1, q1, w1)) \<Rightarrow> (k1\<lparr>wk_health := mark_stopped (wk_health k1)\<rparr>, close_source q1, w1))"

definition is_app_error :: "exc \<Rightarrow> bool" where
  "is_app_error e \<longleftrightarrow>
     e \<in> {ConfigurationError, PortNotConfiguredError, MalformedEventError, UnknownCommandError, ExecutionCancelledError}"

text \<open>\<open>run\<close> of a worker whose source and executor are ready: the exit code, or the error that escapes.\<close>

definition run_worker ::
  "nat \<Rightarrow> (exc \<Rightarrow> string) \<Rightarrow> worker_config \<Rightarrow> 'q source_ops \<Rightarrow> ('q \<Rightarrow> 'q) \<Rightarrow> (command \<Rightarrow> 'w \<Rightarrow> doc res \<times> 'w) \<Rightarrow> (nat \<Rightarrow> bool) \<Rightarrow> string
    \<Rightarrow> (nat \<Rightarrow> delivery \<Rightarrow> observation) \<Rightarrow> (delivery \<Rightarrow> observation) \<Rightarrow> ('q, 'w) worker_state
    \<Rightarrow> (int res \<times> ('q, 'w) worker_state) option" where
  "run_worker fuel name_of cf src close_source ex stopped reason ob ob_drain s =
     (case s of (k, q, w) \<Rightarrow>
        map_option (\<lambda>(r, (k1, q1, w1)).
          case r of
            Inr stop_set \<Rightarrow> (Inr 0, shutdown_worker name_of cf src close_source ex stop_set reason ob_drain (k1, q1, w1))
          | Inl e \<Rightarrow>
              let k2 = (if is_app_error e then k1\<lparr>wk_health := mark_failed (error_code name_of e) (wk_health k1)\<rparr> else k1)
              in (if is_app_error e then Inr 1 else Inl e,
                  shutdown_worker name_of cf src close_source ex False reason ob_drain (k2, q1, w1)))
          (consume fuel name_of cf src ex stopped ob 0 0 (k\<lparr>wk_health := mark_ready (wk_health k)\<rparr>, q, w)))"

section \<open>The in-process queue as a source\<close>

definition ip_source :: "rat \<Rightarrow> inprocess source_ops" where
  "ip_source now =
     \<lparr>so_poll = (\<lambda>s mx wait. let (ms, s') = take_batch mx now s in (Inr ms, s')),
      so_acknowledge = (\<lambda>s m. (Inr (), ip_acknowledge m s)),
      so_retry_later = (\<lambda>s m delay. (Inr (), ip_retry_later now m delay s)),
      so_dead_letter = (\<lambda>s m reason. (Inr (), ip_dead_letter m reason s))\<rparr>"

lemma ip_source_ops [simp]:
  "so_acknowledge (ip_source now) q m = (Inr (), ip_acknowledge m q)"
  "so_retry_later (ip_source now) q m d = (Inr (), ip_retry_later now m d q)"
  "so_dead_letter (ip_source now) q m reason = (Inr (), ip_dead_letter m reason q)"
  by (simp_all add: ip_source_def)

lemma park_ip [simp]: "park cf (ip_source now) m reason q = (Inr True, ip_dead_letter m reason q)"
  by (simp add: park_def)

text \<open>What one processed message leaves: the recorded outcome decides what becomes of it.\<close>

definition disposed :: "worker_config \<Rightarrow> rat \<Rightarrow> delivery \<Rightarrow> bool \<Rightarrow> outcome \<Rightarrow> inprocess \<Rightarrow> inprocess \<Rightarrow> bool" where
  "disposed cf now m lost r q q' \<longleftrightarrow>
     (case r of
        SUCCEEDED \<Rightarrow> \<not> lost \<and> q' = ip_acknowledge m q
      | DUPLICATE \<Rightarrow> q' = ip_acknowledge m q
      | REJECTED \<Rightarrow> \<exists>reason. q' = ip_dead_letter m reason q
      | DEAD_LETTERED \<Rightarrow> cf_max_receive_count cf \<le> dl_receive_count m \<and> q' = ip_dead_letter m ''MAX_RECEIVES_EXCEEDED'' q
      | FAILED \<Rightarrow> lost \<and> q' = ip_retry_later now m 0 q \<or>
          dl_receive_count m < cf_max_receive_count cf \<and> q' = ip_retry_later now m (cf_retry_delay_seconds cf) q)"

lemma process_message_cases:
  assumes "process_message name_of cf (ip_source now) ex lost m k q w = ((Inr (), k', q'), w')"
  obtains (unparsed) e where "parse_command (dl_body m) (dl_message_id m) = Inl e"
      "k' = record_result (result_of None m REJECTED (Some (error_code name_of e))) k" "w' = w"
      "q' = ip_dead_letter m (error_code name_of e) q"
  | (duplicate) c s where "parse_command (dl_body m) (dl_message_id m) = Inr c" "\<not> durable_domain_idempotency c"
      "claim (cm_command_id c) (wk_idem k) = (Inr False, s)" "k' = record_result (result_of (Some c) m DUPLICATE None) (k\<lparr>wk_idem := s\<rparr>)"
      "w' = w" "q' = ip_acknowledge m q"
  | (executed) c k1 r x code where "parse_command (dl_body m) (dl_message_id m) = Inr c" "claim_command c k = (Inr True, k1)"
      "ex c w = (r, w')" "x \<noteq> DUPLICATE" "disposed cf now m lost x q q'" "x = SUCCEEDED \<longrightarrow> (\<exists>d. r = Inr d)"
      "(\<exists>d. r = Inr d) \<longrightarrow> x = SUCCEEDED \<or> x = FAILED \<and> lost"
      "k' = record_result (result_of (Some c) m x code)
         (if x = SUCCEEDED \<or> (\<exists>e. r = Inl e \<and> is_refusal e) then k1 else release c k1)"
proof (cases "parse_command (dl_body m) (dl_message_id m)")
  case (Inl e)
  then show thesis using unparsed assms by (auto simp: process_message_def park_and_record_def)
next
  case c: (Inr c)
  show thesis
  proof (cases "claim_command c k")
    case (Pair a k1)
    then consider "a = Inr False" | "a = Inr True" using assms c
      by (cases a) (auto simp: process_message_def)
    then show thesis
    proof cases
      case 1
      then obtain s where s: "\<not> durable_domain_idempotency c" "claim (cm_command_id c) (wk_idem k) = (Inr False, s)" "k1 = k\<lparr>wk_idem := s\<rparr>"
        using Pair by (auto simp: claim_command_def split: if_splits prod.splits)
      show thesis using duplicate[OF c s(1,2)] assms c Pair 1 s(3) by (simp add: process_message_def)
    next
      case 2
      obtain r w1 where ex: "ex c w = (r, w1)" by (cases "ex c w")
      have af: "after_execution name_of cf (ip_source now) c m lost r k1 q = (Inr (), k', q')" "w1 = w'"
        using assms c Pair 2 ex by (auto simp: process_message_def)
      show thesis
      proof (cases r)
        case (Inr d)
        then show thesis using executed[OF c Pair[unfolded 2] ex[unfolded af(2)], of "if lost then FAILED else SUCCEEDED"] af(1)
          by (auto simp: after_execution_def disposed_def split: if_splits)
      next
        case (Inl e)
        show thesis
        proof (cases "is_malformed e \<or> is_refusal e")
          case True
          then show thesis using executed[OF c Pair[unfolded 2] ex[unfolded af(2)], of REJECTED] af(1) Inl
            by (auto simp: after_execution_def park_and_record_def disposed_def is_malformed_def is_refusal_def split: if_splits exc.splits)
        next
          case False
          then show thesis using executed[OF c Pair[unfolded 2] ex[unfolded af(2)],
              of "if cf_max_receive_count cf \<le> dl_receive_count m then DEAD_LETTERED else FAILED"] af(1) Inl
            by (auto simp: after_execution_def failed_execution_def disposed_def Let_def split: if_splits)
        qed
      qed
    qed
  qed
qed


lemma last_result: "last (wk_results (record_result r k)) = r" "wk_results (record_result r k) \<noteq> []"
  by (simp_all add: record_result_def RESULT_HISTORY_def)

lemma record_result_idem [simp]: "wk_idem (record_result r k) = wk_idem k"
  by (simp add: record_result_def)

lemma outcome_facts:
  assumes run: "process_message name_of cf (ip_source now) ex lost m k q w = ((Inr (), k', q'), w')"
  shows "\<exists>r. last (wk_results k') = r \<and> rs_message_id r = dl_message_id m \<and> rs_attempt r = dl_receive_count m \<and>
    disposed cf now m lost (rs_outcome r) q q' \<and>
    (rs_outcome r = SUCCEEDED \<longrightarrow> (\<exists>c d. parse_command (dl_body m) (dl_message_id m) = Inr c \<and> ex c w = (Inr d, w'))) \<and>
    (health_ok (wk_health k) \<longrightarrow> health_ok (wk_health k')) \<and>
    hs_processed (wk_health k') = Suc (hs_processed (wk_health k))"
proof -
  have h: "hs_processed (wk_health (record_result r x)) = Suc (hs_processed (wk_health x))"
    "health_ok (wk_health x) \<longrightarrow> health_ok (wk_health (record_result r x))" for r x
    using health_record_ok[of "wk_health x" "rs_outcome r"]
    by (cases "rs_outcome r"; simp add: record_result_def health_record_def Let_def)+
  have same: "wk_health (k\<lparr>wk_idem := s\<rparr>) = wk_health k" for s by simp
  have cl: "wk_health k1 = wk_health k" if "claim_command c k = (b, k1)" for b c k1
    using that by (auto simp: claim_command_def split: if_splits prod.splits)
  have rel: "wk_health (release c k1) = wk_health k1" for c k1 by (simp add: release_def)
  from run show ?thesis
  proof (cases rule: process_message_cases)
    case (unparsed e)
    then show ?thesis using h(1)[of _ k] h(2)[of k] last_result(1)[of _ k] by (simp add: result_of_def disposed_def) blast
  next
    case (duplicate c s)
    then show ?thesis using h(1)[of _ "k\<lparr>wk_idem := s\<rparr>"] h(2)[of "k\<lparr>wk_idem := s\<rparr>"] last_result(1)[of _ "k\<lparr>wk_idem := s\<rparr>"]
      by (simp add: result_of_def disposed_def)
  next
    case (executed c k1 r x code)
    define kx where "kx = (if x = SUCCEEDED \<or> (\<exists>e. r = Inl e \<and> is_refusal e) then k1 else release c k1)"
    have hx: "wk_health kx = wk_health k" using cl[OF executed(2)] rel by (simp add: kx_def)
    have k': "k' = record_result (result_of (Some c) m x code) kx" using executed(8) by (simp add: kx_def)
    show ?thesis unfolding k' last_result(1)
      using h(1)[of "result_of (Some c) m x code" kx] h(2)[of kx "result_of (Some c) m x code"] hx executed(1,3,5,6) by (auto simp: result_of_def)
  qed
qed

text \<open>C15: The outcome a message is recorded with says what became of it: SUCCEEDED (its command was executed
  and returned, its lease held) and DUPLICATE delete it, REJECTED parks it, DEAD_LETTERED parks it and
  only from the configured number of deliveries on, FAILED makes it visible again and only before that
  number or when the lease was lost. Nothing is deleted without being executed or parked.\<close>

theorem outcome_decides_message:
  assumes run: "process_message name_of cf (ip_source now) ex lost m k q w = ((Inr (), k', q'), w')"
  shows "\<exists>r. last (wk_results k') = r \<and> rs_message_id r = dl_message_id m \<and> rs_attempt r = dl_receive_count m \<and>
    disposed cf now m lost (rs_outcome r) q q' \<and>
    (rs_outcome r = SUCCEEDED \<longrightarrow> (\<exists>c d. parse_command (dl_body m) (dl_message_id m) = Inr c \<and> ex c w = (Inr d, w'))) \<and>
    (health_ok (wk_health k) \<longrightarrow> health_ok (wk_health k')) \<and>
    hs_processed (wk_health k') = Suc (hs_processed (wk_health k))"
  by (rule outcome_facts[OF run])

definition demo_config :: worker_config where
  "demo_config = \<lparr>cf_max_messages_per_poll = 10, cf_poll_interval_seconds = 1, cf_retry_delay_seconds = 5,
     cf_max_receive_count = 3, cf_exit_after_idle_polls = 1\<rparr>"

definition demo_message :: delivery where
  "demo_message = \<lparr>dl_message_id = ''M'', dl_body = VMap [(''command'', VStr ''PUBLISH_DATASET'')], dl_receipt_handle = ''rh-1'',
     dl_receive_count = 3\<rparr>"

definition refusing_port :: "command \<Rightarrow> nat \<Rightarrow> doc res \<times> nat" where
  "refusing_port c w = (Inl PortNotConfiguredError, w)"

definition demo_worker :: worker where
  "demo_worker = new_worker \<lparr>id_max = 10, id_keys = []\<rparr>"

theorem outcome_decides_message_witness:
  "\<exists>k' q'. process_message (\<lambda>_. []) demo_config (ip_source 0) refusing_port False demo_message demo_worker new_inprocess (0::nat)
       = ((Inr (), k', q'), 0) \<and> rs_outcome (last (wk_results k')) = DEAD_LETTERED \<and>
     disposed demo_config 0 demo_message False DEAD_LETTERED new_inprocess q'"
proof -
  obtain r k' q' w' where run: "process_message (\<lambda>_. []) demo_config (ip_source 0) refusing_port False demo_message demo_worker new_inprocess (0::nat)
      = ((r, k', q'), w')" by (metis surj_pair)
  have "fst (fst (process_message (\<lambda>_. []) demo_config (ip_source 0) refusing_port False demo_message demo_worker new_inprocess (0::nat))) = Inr () \<and>
      rs_outcome (last (wk_results (fst (snd (fst (process_message (\<lambda>_. []) demo_config (ip_source 0) refusing_port False demo_message demo_worker new_inprocess (0::nat))))))) = DEAD_LETTERED \<and>
      snd (process_message (\<lambda>_. []) demo_config (ip_source 0) refusing_port False demo_message demo_worker new_inprocess (0::nat)) = 0"
    by code_simp
  then have r: "r = Inr ()" "rs_outcome (last (wk_results k')) = DEAD_LETTERED" "w' = 0" unfolding run by simp_all
  show ?thesis using outcome_decides_message[OF run[unfolded r(1)]] r run by auto
qed

section \<open>Stopping\<close>

lemma stopped_batch:
  assumes "\<forall>m\<in>set ms. ob_stopped (ob m)" "process_batch name_of cf src ex ob ms (k, q, w) = (r, (k', q', w'))"
  shows "k' = k \<and> w' = w"
  using assms by (induction ms arbitrary: q) (auto split: prod.splits sum.splits)

text \<open>A graceful stop finishes no work: the module says the worker finishes the in-flight batch within
  the grace period, and \<open>_drain\<close> "finishes work already received", but the stop flag that ends the loop
  is seen at every message of the drained batch too. Whatever the source, the executor and the clock do,
  the drain after a requested stop executes no command, records no result and only hands back the messages
  it has just received - each with one delivery attempt used up.\<close>

theorem graceful_stop_executes_nothing:
  "fst (snd (drain_worker name_of cf src ex True ob (k, q, w))) = k \<and>
   snd (snd (snd (drain_worker name_of cf src ex True ob (k, q, w)))) = w"
proof -
  obtain r q1 where p: "so_poll src q (cf_max_messages_per_poll cf) 0 = (r, q1)"
    by (cases "so_poll src q (cf_max_messages_per_poll cf) 0")
  show ?thesis
  proof (cases r)
    case (Inr ms)
    define ob1 where "ob1 = (\<lambda>m. (ob m)\<lparr>ob_stopped := True\<rparr>)"
    obtain x k' q' w' where b: "process_batch name_of cf src ex ob1 ms (k, q1, w) = (x, (k', q', w'))" by (metis surj_pair)
    have "k' = k \<and> w' = w" by (rule stopped_batch[OF _ b]) (simp add: ob1_def)
    then show ?thesis using p Inr b by (simp add: drain_worker_def ob1_def)
  qed (use p in \<open>simp add: drain_worker_def\<close>)
qed


end
