(* ===== verification/Worker_Machine.thy ===== *)
theory Worker_Machine
  imports Worker_Loop
begin

text \<open>
  The worker over the in-process queue as a state machine: a producer submits at any time, the worker
  receives a batch when it holds none, handles or hands back the first message it holds, and heartbeats
  renew leases in between. What is shown holds in every reachable state, for any order of these steps.
\<close>

record 'w system =
  sy_queue :: inprocess
  sy_worker :: worker
  sy_world :: 'w
  sy_hand :: "delivery list"
  sy_submitted :: "string list"
  sy_log :: "result list"

definition start_system :: "worker \<Rightarrow> 'w \<Rightarrow> 'w system" where
  "start_system k w = \<lparr>sy_queue = new_inprocess, sy_worker = k, sy_world = w, sy_hand = [], sy_submitted = [], sy_log = []\<rparr>"

inductive worker_step ::
  "(exc \<Rightarrow> string) \<Rightarrow> worker_config \<Rightarrow> (command \<Rightarrow> 'w \<Rightarrow> doc res \<times> 'w) \<Rightarrow> 'w system \<Rightarrow> 'w system \<Rightarrow> bool"
  for name_of cf ex where
  Submit: "submit_message body mid fresh (sy_queue s) = (Inr i, q') \<Longrightarrow>
     worker_step name_of cf ex s (s\<lparr>sy_queue := q', sy_submitted := i # sy_submitted s\<rparr>)"
| Receive: "sy_hand s = [] \<Longrightarrow> take_batch (cf_max_messages_per_poll cf) now (sy_queue s) = (ms, q') \<Longrightarrow>
     worker_step name_of cf ex s (s\<lparr>sy_queue := q', sy_hand := ms\<rparr>)"
| Requeue: "sy_hand s = m # ms \<Longrightarrow>
     worker_step name_of cf ex s (s\<lparr>sy_queue := ip_retry_later now m 0 (sy_queue s), sy_hand := ms\<rparr>)"
| Handle: "sy_hand s = m # ms \<Longrightarrow>
     process_message name_of cf (ip_source now) ex lost m (sy_worker s) (sy_queue s) (sy_world s) = ((Inr (), k', q'), w') \<Longrightarrow>
     worker_step name_of cf ex s
       (s\<lparr>sy_worker := k', sy_queue := q', sy_world := w', sy_hand := ms, sy_log := sy_log s @ [last (wk_results k')]\<rparr>)"
| Renew: "m \<in> set (sy_hand s) \<Longrightarrow>
     worker_step name_of cf ex s (s\<lparr>sy_queue := ip_extend_visibility now m timeout (sy_queue s)\<rparr>)"

inductive_cases worker_stepE: "worker_step name_of cf ex s s'"

definition reachable :: "(exc \<Rightarrow> string) \<Rightarrow> worker_config \<Rightarrow> (command \<Rightarrow> 'w \<Rightarrow> doc res \<times> 'w) \<Rightarrow> 'w system \<Rightarrow> 'w system \<Rightarrow> bool" where
  "reachable name_of cf ex = (worker_step name_of cf ex)\<^sup>*\<^sup>*"

text \<open>A refusal is raised only by a command whose domain has an idempotency identity of its own.\<close>

definition refusals_are_durable :: "(command \<Rightarrow> 'w \<Rightarrow> doc res \<times> 'w) \<Rightarrow> bool" where
  "refusals_are_durable ex \<longleftrightarrow>
     (\<forall>c w e. fst (ex c w) = Inl e \<longrightarrow> is_refusal e \<longrightarrow> durable_domain_idempotency c)"

lemma execute_command_refusals:
  assumes "\<forall>w e. fst (pt_validate_catalog P w) = Inl e \<longrightarrow> \<not> is_refusal e"
    "\<forall>d w e. fst (pt_publish P d w) = Inl e \<longrightarrow> \<not> is_refusal e"
    "\<forall>l b w e. fst (pt_ingest P l b w) = Inl e \<longrightarrow> \<not> is_refusal e"
  shows "refusals_are_durable (execute_command P)"
proof -
  have m: "e = MalformedEventError" if "validate_manifest_command P d = Inl e" for d e
    using that by (auto simp: validate_manifest_command_def require_mapping_def bindE_eq_Inl split: pyval.splits option.splits)
  have s: "e = MalformedEventError" if "mapE require_mapping l = Inl e" for l e
    using that by (induction l) (auto simp: require_mapping_def bindE_eq_Inl split: pyval.splits)
  have q: "e = MalformedEventError" if "require_sequence d k = Inl e" for d k e
    using that by (cases "dget d k"; cases "the (dget d k)") (auto simp: require_sequence_def require_field_def)
  have i: "e = MalformedEventError" if "ingest_arguments d = Inl e" for d e
    using that unfolding ingest_arguments_def bindE_eq_Inl
    by (elim disjE exE conjE) (auto dest: s q split: option.splits pyval.splits)
  have "\<not> is_refusal e" if "e = MalformedEventError \<or> e = UnknownCommandError" for e
    using that by (auto simp: is_refusal_def)
  then have nm: "validate_manifest_command P d = Inl e \<Longrightarrow> \<not> is_refusal e" "ingest_arguments d = Inl e \<Longrightarrow> \<not> is_refusal e"
    "\<not> is_refusal UnknownCommandError" for d e
    using m i by blast+
  show ?thesis
    unfolding refusals_are_durable_def
  proof (intro allI impI)
    fix c w e
    assume run: "fst (execute_command P c w) = Inl e" and r: "is_refusal e"
    show "durable_domain_idempotency c"
    proof (rule ccontr)
      assume "\<not> durable_domain_idempotency c"
      then have n: "cm_command c \<noteq> ''APPLY_CORPORATE_ACTION_APPROVAL''" "cm_command c \<noteq> ''MATERIALIZE_FEATURE_OUTPUT''"
        by (simp_all add: durable_domain_idempotency_def)
      consider "cm_command c = ''VALIDATE_CATALOG''" | "cm_command c = ''VALIDATE_DATASET_MANIFEST''"
        | "cm_command c = ''PUBLISH_DATASET''" | "cm_command c = ''INGEST_REALTIME_BARS''"
        | "cm_command c \<notin> set SUPPORTED_COMMANDS" using n by (auto simp: SUPPORTED_COMMANDS_def)
      then show False
        using run r assms nm n
        by cases (auto simp: execute_command_def Let_def SUPPORTED_COMMANDS_def split: sum.splits prod.splits if_splits)
    qed
  qed
qed

section \<open>The invariant\<close>

definition succeeded_id :: "result list \<Rightarrow> string \<Rightarrow> bool" where
  "succeeded_id hist i \<longleftrightarrow> (\<exists>r\<in>set hist. rs_command_id r = i \<and> rs_outcome r = SUCCEEDED)"

definition finished_message :: "result list \<Rightarrow> string \<Rightarrow> bool" where
  "finished_message hist i \<longleftrightarrow> (\<exists>r\<in>set hist. rs_message_id r = i \<and> succeeded_id hist (rs_command_id r))"

definition parked_message :: "inprocess \<Rightarrow> string \<Rightarrow> bool" where
  "parked_message q i \<longleftrightarrow> i \<in> set (map (dl_message_id \<circ> fst) (ip_dead_letters q))"

definition accounted :: "'w system \<Rightarrow> bool" where
  "accounted s \<longleftrightarrow>
     (\<forall>i\<in>set (sy_submitted s). has_key (ip_envelopes (sy_queue s)) i \<or> parked_message (sy_queue s) i \<or> finished_message (sy_log s) i)"

definition keys_succeeded :: "'w system \<Rightarrow> bool" where
  "keys_succeeded s \<longleftrightarrow> idem_ok (wk_idem (sy_worker s)) \<and> (\<forall>i\<in>set (id_keys (wk_idem (sy_worker s))). succeeded_id (sy_log s) i)"

lemma claim_command_keys:
  assumes "idem_ok (wk_idem k)" "claim_command c k = (Inr b, k1)"
  shows "idem_ok (wk_idem k1)" "set (id_keys (wk_idem k1)) \<subseteq> insert (cm_command_id c) (set (id_keys (wk_idem k)))"
    "durable_domain_idempotency c \<Longrightarrow> k1 = k" "\<not> b \<Longrightarrow> cm_command_id c \<in> set (id_keys (wk_idem k))"
proof -
  obtain r s where rs: "claim (cm_command_id c) (wk_idem k) = (r, s)" by (cases "claim (cm_command_id c) (wk_idem k)")
  have ok: "idem_ok s" using claim_ok[OF assms(1), of "cm_command_id c"] rs by simp
  have keys: "set (id_keys s) \<subseteq> insert (cm_command_id c) (set (id_keys (wk_idem k)))"
  proof -
    have ev: "set (evict n (ks @ [x])) \<subseteq> insert x (set ks)" for n ks and x :: string
    proof -
      have "set (evict n (ks @ [x])) \<subseteq> set (ks @ [x])" unfolding evict_eq by (rule set_drop_subset)
      then show ?thesis by simp
    qed
    have rm: "set (remove1 x ks @ [x]) \<subseteq> insert x (set ks)" for ks and x :: string
      using set_remove1_subset[of x ks] by auto
    show ?thesis
      using rs ev[of "id_max (wk_idem k)" "id_keys (wk_idem k)" "cm_command_id c"] rm[of "cm_command_id c" "id_keys (wk_idem k)"]
      by (auto simp: claim_def split: if_splits)
  qed
  show "idem_ok (wk_idem k1)" "set (id_keys (wk_idem k1)) \<subseteq> insert (cm_command_id c) (set (id_keys (wk_idem k)))"
    using assms ok keys rs by (auto simp: claim_command_def split: if_splits)
  show "durable_domain_idempotency c \<Longrightarrow> k1 = k" using assms by (simp add: claim_command_def)
  show "\<not> b \<Longrightarrow> cm_command_id c \<in> set (id_keys (wk_idem k))"
    using assms rs by (auto simp: claim_command_def claim_def split: if_splits)
qed

lemma release_keys:
  assumes "idem_ok (wk_idem k)" "\<not> durable_domain_idempotency c"
  shows "idem_ok (wk_idem (release c k))" "set (id_keys (wk_idem (release c k))) = set (id_keys (wk_idem k)) - {cm_command_id c}"
  using assms forget_ok[OF assms(1), of "cm_command_id c"] by (auto simp: release_def forget_def idem_ok_def)

lemma succeeded_id_append: "succeeded_id (hist @ rs) i \<longleftrightarrow> succeeded_id hist i \<or> succeeded_id rs i"
  by (auto simp: succeeded_id_def)

lemma succeeded_id_single: "succeeded_id [r] i \<longleftrightarrow> rs_command_id r = i \<and> rs_outcome r = SUCCEEDED"
  by (auto simp: succeeded_id_def)

text \<open>After handling a message every remembered key belongs to a command that succeeded.\<close>

lemma handle_keys:
  assumes ref: "refusals_are_durable ex"
    and ok: "idem_ok (wk_idem k)" "\<forall>i\<in>set (id_keys (wk_idem k)). succeeded_id hist i"
    and run: "process_message name_of cf (ip_source now) ex lost m k q w = ((Inr (), k', q'), w')"
  shows "idem_ok (wk_idem k') \<and> (\<forall>i\<in>set (id_keys (wk_idem k')). succeeded_id (hist @ [last (wk_results k')]) i) \<and>
    (rs_outcome (last (wk_results k')) \<in> {SUCCEEDED, DUPLICATE} \<longrightarrow>
       finished_message (hist @ [last (wk_results k')]) (dl_message_id m))"
  using run
proof (cases rule: process_message_cases)
  case (unparsed e)
  then show ?thesis using ok by (simp add: last_result succeeded_id_append result_of_def)
next
  case (duplicate c s)
  have cc: "claim_command c k = (Inr False, k\<lparr>wk_idem := s\<rparr>)" using duplicate(2,3) by (simp add: claim_command_def)
  note ck = claim_command_keys[OF ok(1) cc]
  have "succeeded_id hist (cm_command_id c)" using ck(4) ok(2) by simp
  then show ?thesis using ck(1,2) ok(2) duplicate(4)
    by (auto simp: last_result succeeded_id_append finished_message_def result_of_def)
next
  case (executed c k1 r x code)
  note ck = claim_command_keys[OF ok(1) executed(2)]
  define kx where "kx = (if x = SUCCEEDED \<or> (\<exists>e. r = Inl e \<and> is_refusal e) then k1 else release c k1)"
  have k': "k' = record_result (result_of (Some c) m x code) kx" using executed(8) by (simp add: kx_def)
  let ?r = "result_of (Some c) m x code"
  have id: "rs_command_id ?r = cm_command_id c" "rs_message_id ?r = dl_message_id m" "rs_outcome ?r = x"
    by (simp_all add: result_of_def)
  have keys: "idem_ok (wk_idem kx) \<and> (\<forall>i\<in>set (id_keys (wk_idem kx)). succeeded_id (hist @ [?r]) i)"
  proof (cases "x = SUCCEEDED")
    case True
    then show ?thesis using ck(1,2) ok(2) id by (auto simp: kx_def succeeded_id_append succeeded_id_single)
  next
    case False
    show ?thesis
    proof (cases "durable_domain_idempotency c")
      case True
      then have "kx = k" using ck(3) by (simp add: kx_def release_def)
      then show ?thesis using ok by (simp add: succeeded_id_append)
    next
      case nd: False
      have "\<not> (\<exists>e. r = Inl e \<and> is_refusal e)"
        using ref executed(3) nd unfolding refusals_are_durable_def by (metis fst_conv)
      then have "kx = release c k1" using False by (auto simp: kx_def)
      then show ?thesis using release_keys[OF ck(1) nd] ck(2) ok(2) by (auto simp: succeeded_id_append)
    qed
  qed
  have "finished_message (hist @ [?r]) (dl_message_id m)" if "x = SUCCEEDED"
    using that id by (auto simp: finished_message_def succeeded_id_append succeeded_id_single)
  then show ?thesis using keys executed(4) id unfolding k' last_result(1) record_result_idem by auto
qed

lemma dpop_keeps: "has_key d i \<Longrightarrow> has_key (dpop j d) i \<or> i = j"
  by simp

lemma retry_envelopes: "has_key (ip_envelopes (ip_retry_later now m d q)) i = has_key (ip_envelopes q) i"
  "ip_dead_letters (ip_retry_later now m d q) = ip_dead_letters q"
  by (auto simp: ip_retry_later_def has_key_def split: option.splits)

lemma extend_envelopes: "has_key (ip_envelopes (ip_extend_visibility now m t q)) i = has_key (ip_envelopes q) i"
  "ip_dead_letters (ip_extend_visibility now m t q) = ip_dead_letters q"
  by (auto simp: ip_extend_visibility_def has_key_def split: option.splits)

lemma acknowledge_envelopes: "has_key (ip_envelopes (ip_acknowledge m q)) i \<longleftrightarrow> i \<noteq> dl_message_id m \<and> has_key (ip_envelopes q) i"
  "ip_dead_letters (ip_acknowledge m q) = ip_dead_letters q"
  by (simp_all add: ip_acknowledge_def ip_drop_def)

lemma dead_letter_envelopes:
  "has_key (ip_envelopes (ip_dead_letter m reason q)) i \<longleftrightarrow> i \<noteq> dl_message_id m \<and> has_key (ip_envelopes q) i"
  "ip_dead_letters (ip_dead_letter m reason q) = ip_dead_letters q @ [(m, reason)]"
  by (simp_all add: ip_dead_letter_def ip_drop_def)

lemmas queue_ops_envelopes = retry_envelopes extend_envelopes acknowledge_envelopes dead_letter_envelopes

lemma disposed_accounts:
  assumes d: "disposed cf now m lost (rs_outcome r) q q'" and ok: "ip_ok q"
  shows "ip_ok q' \<and> (\<forall>i. has_key (ip_envelopes q) i \<longrightarrow> has_key (ip_envelopes q') i \<or> parked_message q' i \<or>
      i = dl_message_id m \<and> rs_outcome r \<in> {SUCCEEDED, DUPLICATE}) \<and> (\<forall>i. parked_message q i \<longrightarrow> parked_message q' i)"
  using d ok unfolding disposed_def parked_message_def
  by (cases "rs_outcome r") (auto simp: queue_ops_envelopes ip_poll_ops_ok)

lemma finished_append: "finished_message hist i \<Longrightarrow> finished_message (hist @ rs) i"
  by (auto simp: finished_message_def succeeded_id_append)

lemma worker_step_accounts:
  assumes ref: "refusals_are_durable ex" and step: "worker_step name_of cf ex s s'"
    and inv: "ip_ok (sy_queue s)" "accounted s" "keys_succeeded s"
  shows "ip_ok (sy_queue s') \<and> accounted s' \<and> keys_succeeded s'"
  using step
proof (cases rule: worker_step.cases)
  case (Submit body mid fresh i q')
  have ok: "ip_ok q'" using submit_ok[OF inv(1), of body mid fresh] Submit(2) by simp
  have env: "has_key (ip_envelopes q') j \<longleftrightarrow> j = i \<or> has_key (ip_envelopes (sy_queue s)) j" "ip_dead_letters q' = ip_dead_letters (sy_queue s)" for j
    using Submit(2) by (auto simp: submit_message_def Let_def split: if_splits)
  show ?thesis using ok inv unfolding Submit(1) accounted_def keys_succeeded_def parked_message_def by (auto simp: env)
next
  case (Receive now ms q')
  note t = take_batch_spec[OF inv(1) Receive(3)]
  have env: "has_key (ip_envelopes q') j \<longleftrightarrow> has_key (ip_envelopes (sy_queue s)) j" for j
    unfolding has_key_def t(6) by (auto split: option.splits)
  show ?thesis using inv t(2,4) unfolding Receive(1) accounted_def keys_succeeded_def parked_message_def by (simp add: env)
next
  case (Requeue m ms now)
  show ?thesis using inv ip_poll_ops_ok(2)[OF inv(1)] unfolding Requeue(1) accounted_def keys_succeeded_def parked_message_def
    by (simp add: queue_ops_envelopes)
next
  case (Handle m ms now lost k' q' w')
  let ?r = "last (wk_results k')"
  have dis: "disposed cf now m lost (rs_outcome ?r) (sy_queue s) q'" using outcome_facts[OF Handle(3)] by blast
  note da = disposed_accounts[OF dis inv(1)]
  have hk: "idem_ok (wk_idem k') \<and> (\<forall>i\<in>set (id_keys (wk_idem k')). succeeded_id (sy_log s @ [?r]) i) \<and>
      (rs_outcome ?r \<in> {SUCCEEDED, DUPLICATE} \<longrightarrow> finished_message (sy_log s @ [?r]) (dl_message_id m))"
    by (rule handle_keys[OF ref _ _ Handle(3)]) (use inv(3) in \<open>simp_all add: keys_succeeded_def\<close>)
  have "has_key (ip_envelopes q') i \<or> parked_message q' i \<or> finished_message (sy_log s @ [?r]) i" if "i \<in> set (sy_submitted s)" for i
    using inv(2) that da hk finished_append unfolding accounted_def by blast
  then show ?thesis using da hk unfolding Handle(1) accounted_def keys_succeeded_def by simp
next
  case (Renew m now timeout)
  show ?thesis using inv ip_poll_ops_ok(4)[OF inv(1)] unfolding Renew(1) accounted_def keys_succeeded_def parked_message_def
    by (simp add: queue_ops_envelopes)
qed

lemma reachable_accounts:
  assumes "refusals_are_durable ex" "idem_ok store" "id_keys store = []"
    and "reachable name_of cf ex (start_system (new_worker store) w) s"
  shows "accounted s" "keys_succeeded s"
proof -
  have "ip_ok (sy_queue s) \<and> accounted s \<and> keys_succeeded s"
    using assms(4) unfolding reachable_def
  proof (induction rule: rtranclp_induct)
    case base
    show ?case using assms(2,3) by (simp add: start_system_def accounted_def keys_succeeded_def new_worker_def)
  next
    case (step s1 s2)
    then show ?case using worker_step_accounts[OF assms(1) step(2)] by blast
  qed
  then show "accounted s" "keys_succeeded s" by simp_all
qed

text \<open>C1: No message is lost: in every state the worker can reach, every message a producer submitted is still
  in the queue, or parked as a dead letter, or a command with its command id was executed and returned
  successfully - whatever the interleaving, the failing executions, the lost leases and the evictions of
  the idempotency store.\<close>

theorem no_message_is_lost:
  assumes "refusals_are_durable ex" "idem_ok store" "id_keys store = []"
    and "reachable name_of cf ex (start_system (new_worker store) w) s" "i \<in> set (sy_submitted s)"
  shows "has_key (ip_envelopes (sy_queue s)) i \<or> parked_message (sy_queue s) i \<or>
    (\<exists>r r'. r \<in> set (sy_log s) \<and> r' \<in> set (sy_log s) \<and> rs_message_id r = i \<and> rs_command_id r' = rs_command_id r \<and>
       rs_outcome r' = SUCCEEDED)"
  using reachable_accounts(1)[OF assms(1-4)] assms(5) unfolding accounted_def finished_message_def succeeded_id_def by blast

text \<open>C13: What the worker remembers is true: in every reachable state every key of the idempotency store is the
  command id of a command that was executed and returned successfully. So a message deleted as a
  DUPLICATE repeats a command that was done, never one that failed or was rejected.\<close>

theorem remembered_commands_succeeded:
  assumes "refusals_are_durable ex" "idem_ok store" "id_keys store = []"
    and "reachable name_of cf ex (start_system (new_worker store) w) s" "seen i (wk_idem (sy_worker s))"
  shows "\<exists>r\<in>set (sy_log s). rs_command_id r = i \<and> rs_outcome r = SUCCEEDED"
  using reachable_accounts(2)[OF assms(1-4)] assms(5) unfolding keys_succeeded_def seen_def succeeded_id_def by blast


definition counting_port :: "command \<Rightarrow> nat \<Rightarrow> doc res \<times> nat" where
  "counting_port c w = (Inr [], Suc w)"

definition no_name :: "exc \<Rightarrow> string" where
  "no_name e = []"

definition demo_store :: idem_store where
  "demo_store = \<lparr>id_max = 2, id_keys = []\<rparr>"

definition queued_demo :: "string res \<times> inprocess" where
  "queued_demo = submit_message (VMap [(''command'', VStr ''PUBLISH_DATASET'')]) (Some ''M'') [] new_inprocess"

definition taken_demo :: "delivery list \<times> inprocess" where
  "taken_demo = take_batch (cf_max_messages_per_poll demo_config) 0 (snd queued_demo)"

definition handled_demo :: "(unit res \<times> worker \<times> inprocess) \<times> nat" where
  "handled_demo = process_message no_name demo_config (ip_source 0) counting_port False (hd (fst taken_demo))
     (new_worker demo_store) (snd taken_demo) 0"

lemma demo_facts:
  "fst queued_demo = Inr ''M''" "length (fst taken_demo) = 1" "fst (fst handled_demo) = Inr ()"
  "seen ''M'' (wk_idem (fst (snd (fst handled_demo))))"
  by code_simp+

lemma demo_run:
  obtains s where "reachable no_name demo_config counting_port (start_system (new_worker demo_store) 0) s"
    "sy_submitted s = [''M'']" "seen ''M'' (wk_idem (sy_worker s))"
proof -
  let ?s0 = "start_system (new_worker demo_store) (0::nat)"
  let ?s1 = "?s0\<lparr>sy_queue := snd queued_demo, sy_submitted := ''M'' # sy_submitted ?s0\<rparr>"
  have "submit_message (VMap [(''command'', VStr ''PUBLISH_DATASET'')]) (Some ''M'') [] (sy_queue ?s0) = (Inr ''M'', snd queued_demo)"
    using demo_facts(1) by (simp add: queued_demo_def start_system_def prod_eq_iff)
  then have st1: "worker_step no_name demo_config counting_port ?s0 ?s1" by (rule Submit)
  let ?s2 = "?s1\<lparr>sy_queue := snd taken_demo, sy_hand := fst taken_demo\<rparr>"
  have st2: "worker_step no_name demo_config counting_port ?s1 ?s2"
    by (rule Receive) (simp_all add: start_system_def taken_demo_def)
  obtain m where m: "fst taken_demo = m # []" using demo_facts(2) by (auto simp: length_Suc_conv)
  have run: "process_message no_name demo_config (ip_source 0) counting_port False m (sy_worker ?s2) (sy_queue ?s2) (sy_world ?s2)
      = ((Inr (), fst (snd (fst handled_demo)), snd (snd (fst handled_demo))), snd handled_demo)"
    using demo_facts(3) m by (simp add: handled_demo_def start_system_def prod_eq_iff)
  let ?s3 = "?s2\<lparr>sy_worker := fst (snd (fst handled_demo)), sy_queue := snd (snd (fst handled_demo)), sy_world := snd handled_demo,
      sy_hand := [], sy_log := sy_log ?s2 @ [last (wk_results (fst (snd (fst handled_demo))))]\<rparr>"
  have st3: "worker_step no_name demo_config counting_port ?s2 ?s3" by (rule Handle[OF _ run]) (simp add: m)
  have "reachable no_name demo_config counting_port ?s0 ?s3"
    unfolding reachable_def using st1 st2 st3 by (meson rtranclp.rtrancl_into_rtrancl rtranclp.rtrancl_refl)
  then show thesis by (rule that) (use demo_facts(4) in \<open>simp_all add: start_system_def\<close>)
qed

lemma demo_hypotheses: "refusals_are_durable counting_port" "idem_ok demo_store" "id_keys demo_store = []"
  by (simp_all add: refusals_are_durable_def counting_port_def idem_ok_def demo_store_def)

theorem no_message_is_lost_witness:
  "\<exists>s. sy_submitted s = [''M''] \<and>
     (has_key (ip_envelopes (sy_queue s)) ''M'' \<or> parked_message (sy_queue s) ''M'' \<or>
      (\<exists>r r'. r \<in> set (sy_log (s :: nat system)) \<and> r' \<in> set (sy_log s) \<and> rs_message_id r = ''M'' \<and>
         rs_command_id r' = rs_command_id r \<and> rs_outcome r' = SUCCEEDED)) \<and>
     reachable no_name demo_config counting_port (start_system (new_worker demo_store) 0) s"
proof -
  obtain s where s: "reachable no_name demo_config counting_port (start_system (new_worker demo_store) 0) s" "sy_submitted s = [''M'']"
    by (rule demo_run)
  then have "''M'' \<in> set (sy_submitted s)" by simp
  then show ?thesis using no_message_is_lost[OF demo_hypotheses s(1)] s by blast
qed

theorem remembered_commands_succeeded_witness:
  "\<exists>s. reachable no_name demo_config counting_port (start_system (new_worker demo_store) 0) s \<and>
     (\<exists>r\<in>set (sy_log s). rs_command_id r = ''M'' \<and> rs_outcome r = SUCCEEDED)"
proof -
  obtain s where s: "reachable no_name demo_config counting_port (start_system (new_worker demo_store) 0) s"
      "seen ''M'' (wk_idem (sy_worker s))" by (rule demo_run)
  show ?thesis using remembered_commands_succeeded[OF demo_hypotheses s] s(1) by blast
qed


end
