(* ===== verification/Bar_Tables.thy ===== *)
theory Bar_Tables
  imports Quality_Detectors "HOL-Library.Multiset"
begin

text \<open>
  \<open>market_pipeline_lib/processing.py\<close>, the table operations: sorting, cutting to a period, splitting at
  timestamp boundaries, and the aggregation of 30-minute bars into session bars; and
  \<open>MarketPipelineEngine._candidate_tables\<close>, which splits until every part fits a file.
  A table is the list of its rows. Parameters: the size of the file pyarrow writes for a table
  (\<open>file_size\<close>, it may raise), the bytes a table takes in memory, and numpy's weighted mean.
\<close>

record provider_bar = bar +
  pb_symbol :: string
  pb_vwap :: "fval option"

section \<open>Sorting, cutting, splitting\<close>

definition sort_bar_table :: "'z bar_scheme list \<Rightarrow> 'z bar_scheme list" where
  "sort_bar_table t = sort_key (\<lambda>b. (b_instrument b, b_start b)) t"

definition filter_table_period :: "'z bar_scheme list \<Rightarrow> instant \<Rightarrow> instant \<Rightarrow> 'z bar_scheme list" where
  "filter_table_period t start end = filter (\<lambda>b. start \<le> b_start b \<and> b_start b < end) t"

definition time_sorted :: "'z bar_scheme list \<Rightarrow> 'z bar_scheme list" where
  "time_sorted t = sort_key (\<lambda>b. (b_start b, b_instrument b)) t"

text \<open>\<open>groupby("bar_start_at", sort=True).size()\<close>: the rows per timestamp, in ascending order.\<close>

definition start_counts :: "'z bar_scheme list \<Rightarrow> nat list" where
  "start_counts t = map (\<lambda>s. length (filter (\<lambda>b. b_start b = s) t)) (dedup_sorted (map b_start t))"

fun cut_points :: "nat \<Rightarrow> nat \<Rightarrow> nat \<Rightarrow> nat list \<Rightarrow> nat list" where
  "cut_points m start running [] = []"
| "cut_points m start running (c # cs) =
     (if running \<noteq> 0 \<and> m < running + c then (start + running) # cut_points m (start + running) c cs
      else cut_points m start (running + c) cs)"

fun slices :: "nat \<Rightarrow> nat list \<Rightarrow> 'a list \<Rightarrow> 'a list list" where
  "slices lower [] xs = []"
| "slices lower (u # us) xs = take (u - lower) (drop lower xs) # slices u us xs"

definition split_table_by_time :: "'z bar_scheme list \<Rightarrow> nat \<Rightarrow> 'z bar_scheme list list" where
  "split_table_by_time t max_rows =
     (if length t \<le> max_rows then [sort_bar_table t]
      else map sort_bar_table
             (slices 0 (cut_points max_rows 0 0 (start_counts t) @ [length t]) (time_sorted t)))"

definition estimate_rows_for_size :: "nat \<Rightarrow> int \<Rightarrow> int \<Rightarrow> nat" where
  "estimate_rows_for_size rows nbytes size_mib =
     (if rows = 0 then 1
      else let per_row = max 1 (flt (of_int nbytes / of_nat rows))
           in max 1 (nat \<lfloor>flt (of_int (size_mib * 1024 * 1024) / per_row)\<rfloor>))"

section \<open>What a split satisfies\<close>

text \<open>The slices are the greedy packing of the blocks of equal timestamps.\<close>

fun pack :: "nat \<Rightarrow> 'a list \<Rightarrow> 'a list list \<Rightarrow> 'a list list" where
  "pack m run [] = [run]"
| "pack m run (b # bs) = (if run \<noteq> [] \<and> m < length run + length b then run # pack m b bs else pack m (run @ b) bs)"

lemma slices_pack:
  "drop start xs = run @ concat bs \<Longrightarrow> n = start + length run + length (concat bs) \<Longrightarrow>
   slices start (cut_points m start (length run) (map length bs) @ [n]) xs = pack m run bs"
proof (induction m run bs arbitrary: start rule: pack.induct)
  case (2 m run b bs)
  show ?case
  proof (cases "run \<noteq> [] \<and> m < length run + length b")
    case True
    have "drop (start + length run) xs = b @ concat bs"
      using 2(3) by (metis add.commute append_eq_conv_conj concat.simps(2) drop_drop)
    then show ?thesis using 2(1)[OF True, of "start + length run"] 2(3,4) True by simp
  next
    case False
    then have "length run = 0 \<or> \<not> m < length run + length b" by auto
    then show ?thesis using 2(2)[OF False, of start] 2(3,4) by (auto simp: add.assoc)
  qed
qed simp

lemma concat_pack: "concat (pack m run bs) = run @ concat bs"
  by (induction m run bs rule: pack.induct) auto

lemma pack_nonempty: "[] \<notin> set bs \<Longrightarrow> run \<noteq> [] \<or> bs \<noteq> [] \<Longrightarrow> [] \<notin> set (pack m run bs)"
  by (induction m run bs rule: pack.induct) auto

lemma pack_bounded: "p \<in> set (pack m run bs) \<Longrightarrow> length p \<le> m \<or> p \<in> set bs \<or> p = run"
  by (induction m run bs rule: pack.induct) (auto split: if_splits)

definition apart :: "'z bar_scheme list \<Rightarrow> 'z bar_scheme list \<Rightarrow> bool" where
  "apart p q \<longleftrightarrow> (\<forall>a\<in>set p. \<forall>b\<in>set q. b_start a < b_start b)"

lemma apart_append [simp]: "apart (p @ q) r \<longleftrightarrow> apart p r \<and> apart q r"
  by (auto simp: apart_def)

lemma pack_parts: "p \<in> set (pack m run bs) \<Longrightarrow> x \<in> set p \<Longrightarrow> x \<in> set run \<or> (\<exists>b\<in>set bs. x \<in> set b)"
  by (induction m run bs rule: pack.induct) (auto split: if_splits)

lemma pack_apart: "sorted_wrt apart (run # bs) \<Longrightarrow> sorted_wrt apart (pack m run bs)"
proof (induction m run bs rule: pack.induct)
  case (2 m run b bs)
  show ?case
  proof (cases "run \<noteq> [] \<and> m < length run + length b")
    case True
    have "apart run p" if "p \<in> set (pack m b bs)" for p
      using pack_parts[OF that] 2(3) by (fastforce simp: apart_def)
    then show ?thesis using 2(1)[OF True] 2(3) True by simp
  next
    case False
    then show ?thesis using 2(2)[OF False] 2(3) by auto
  qed
qed simp

text \<open>A sorted list is the concatenation of its blocks of equal keys.\<close>

lemma sorted_head_block:
  "sorted (map f xs) \<Longrightarrow> \<forall>x\<in>set xs. k \<le> f x \<Longrightarrow>
   filter (\<lambda>x. f x = k) xs @ filter (\<lambda>x. f x \<noteq> k) xs = xs"
proof (induction xs)
  case (Cons x xs)
  show ?case
  proof (cases "f x = k")
    case False
    then have "\<forall>y\<in>set xs. f y \<noteq> k" using Cons.prems by fastforce
    then have "filter (\<lambda>x. f x = k) xs = []" "filter (\<lambda>x. f x \<noteq> k) xs = xs" by (auto simp: filter_empty_conv filter_id_conv)
    then show ?thesis using False by simp
  qed (use Cons in auto)
qed simp

lemma sorted_blocks:
  "sorted (map f xs) \<Longrightarrow> sorted_wrt (<) ks \<Longrightarrow> f ` set xs = set ks \<Longrightarrow>
   concat (map (\<lambda>k. filter (\<lambda>x. f x = k) xs) ks) = xs"
proof (induction ks arbitrary: xs)
  case (Cons k ks)
  define rest where "rest = filter (\<lambda>x. f x \<noteq> k) xs"
  have notin: "k \<notin> set ks" using Cons.prems(2) by auto
  have "f ` set rest = set ks" using Cons.prems(3) notin by (auto simp: rest_def)
  moreover have "sorted (map f rest)" unfolding rest_def by (rule sorted_filter[OF Cons.prems(1)])
  ultimately have IH: "concat (map (\<lambda>k. filter (\<lambda>x. f x = k) rest) ks) = rest" using Cons.IH Cons.prems(2) by simp
  have "filter (\<lambda>x. f x = k') xs = filter (\<lambda>x. f x = k') rest" if "k' \<in> set ks" for k'
  proof -
    have "k' \<noteq> k" using that notin by blast
    then have "(\<lambda>x. f x \<noteq> k \<and> f x = k') = (\<lambda>x. f x = k')" by auto
    then show ?thesis by (simp add: rest_def)
  qed
  then have "map (\<lambda>k. filter (\<lambda>x. f x = k) xs) ks = map (\<lambda>k. filter (\<lambda>x. f x = k) rest) ks" by (rule map_cong[OF refl])
  then have "concat (map (\<lambda>k. filter (\<lambda>x. f x = k) xs) ks) = rest" using IH by (rule trans[OF arg_cong[where f = concat]])
  moreover have "k \<le> f x" if "x \<in> set xs" for x
  proof -
    have "f x \<in> set (k # ks)" using that Cons.prems(3) by auto
    then show ?thesis using Cons.prems(2) by auto
  qed
  then have "\<forall>x\<in>set xs. k \<le> f x" by blast
  note sorted_head_block[OF Cons.prems(1) this]
  ultimately show ?case by (simp add: rest_def)
qed simp

definition blocks :: "'z bar_scheme list \<Rightarrow> 'z bar_scheme list list" where
  "blocks t = map (\<lambda>s. filter (\<lambda>b. b_start b = s) (time_sorted t)) (dedup_sorted (map b_start t))"

lemma dedup_sorted_strict: "sorted_wrt (<) (dedup_sorted xs)" "set (dedup_sorted xs) = set xs"
  by (simp_all add: dedup_sorted_def strict_sorted_iff)

lemma mset_time_sorted [simp]: "mset (time_sorted t) = mset t" "set (time_sorted t) = set t" "length (time_sorted t) = length t"
  by (simp_all add: time_sorted_def)

lemma time_sorted_sorted: "sorted (map b_start (time_sorted t))"
proof -
  have "sorted_wrt (\<lambda>x y. b_start x \<le> b_start y) (time_sorted t)"
    unfolding time_sorted_def
    by (rule sorted_wrt_mono_rel[of _ "\<lambda>x y. (b_start x, b_instrument x) \<le> (b_start y, b_instrument y)"])
       (use sorted_sort_key[of "\<lambda>b. (b_start b, b_instrument b)" t] in \<open>auto simp: sorted_wrt_map less_eq_prod_def\<close>)
  then show ?thesis by (simp add: sorted_wrt_map)
qed

lemma concat_blocks: "concat (blocks t) = time_sorted t"
  unfolding blocks_def by (rule sorted_blocks[OF time_sorted_sorted]) (simp_all add: dedup_sorted_strict)

lemma blocks_lengths: "map length (blocks t) = start_counts t"
proof -
  have "length (filter P (time_sorted t)) = length (filter P t)" for P
    by (metis mset_filter mset_time_sorted(1) size_mset)
  then show ?thesis by (simp add: blocks_def start_counts_def)
qed

lemma blocks_nonempty: "[] \<notin> set (blocks t)"
proof
  assume "[] \<in> set (blocks t)"
  then obtain x where "x \<in> set t" "filter (\<lambda>b. b_start b = b_start x) (time_sorted t) = []"
    by (auto simp: blocks_def dedup_sorted_strict eq_commute)
  then show False by (auto simp: filter_empty_conv)
qed

lemma blocks_apart: "sorted_wrt apart (blocks t)"
  unfolding blocks_def sorted_wrt_map
  by (rule sorted_wrt_mono_rel[OF _ dedup_sorted_strict(1)]) (auto simp: apart_def)

lemma split_pack: "\<not> length t \<le> m \<Longrightarrow> split_table_by_time t m = map sort_bar_table (pack m [] (blocks t))"
  using slices_pack[of 0 "time_sorted t" "[]" "blocks t" "length t" m]
  by (simp add: split_table_by_time_def concat_blocks blocks_lengths)

lemma sort_bar_table_facts [simp]:
  "mset (sort_bar_table t) = mset t" "set (sort_bar_table t) = set t" "length (sort_bar_table t) = length t"
  "sort_bar_table t = [] \<longleftrightarrow> t = []"
  by (simp_all add: sort_bar_table_def flip: length_0_conv)

definition one_start :: "'z bar_scheme list \<Rightarrow> bool" where
  "one_start t \<longleftrightarrow> (\<forall>a\<in>set t. \<forall>b\<in>set t. b_start a = b_start b)"

lemma split_facts:
  assumes "t \<noteq> []"
  shows "mset (concat (split_table_by_time t m)) = mset t"
    and "[] \<notin> set (split_table_by_time t m)"
    and "sorted_wrt apart (split_table_by_time t m)"
    and "p \<in> set (split_table_by_time t m) \<Longrightarrow> sort_bar_table p = p \<and> (length p \<le> m \<or> one_start p)"
proof -
  have idem: "sort_bar_table (sort_bar_table x) = sort_bar_table x" for x :: "'a bar_scheme list"
    unfolding sort_bar_table_def by (rule sort_key_id_if_sorted, rule sorted_sort_key)
  have "mset (concat (split_table_by_time t m)) = mset t \<and> [] \<notin> set (split_table_by_time t m) \<and>
      sorted_wrt apart (split_table_by_time t m) \<and>
      (\<forall>p\<in>set (split_table_by_time t m). sort_bar_table p = p \<and> (length p \<le> m \<or> one_start p))"
  proof (cases "length t \<le> m")
    case True
    have "[] \<noteq> sort_bar_table t" using assms sort_bar_table_facts(4)[of t] by metis
    then show ?thesis using True idem[of t] by (simp add: split_table_by_time_def)
  next
    case False
    have ms: "mset (concat (map sort_bar_table ps)) = mset (concat ps)" for ps :: "'a bar_scheme list list"
      by (induction ps) auto
    have bs: "blocks t \<noteq> []" using concat_blocks[of t] assms by (metis concat.simps(1) length_0_conv mset_time_sorted(3))
    define ps where "ps = pack m [] (blocks t)"
    have ne: "[] \<notin> set ps" unfolding ps_def by (rule pack_nonempty[OF blocks_nonempty]) (simp add: bs)
    have ap: "sorted_wrt apart ps" unfolding ps_def by (rule pack_apart) (simp add: blocks_apart apart_def)
    have bd: "length p \<le> m \<or> one_start p" if "p \<in> set ps" for p
      using pack_bounded[OF that[unfolded ps_def]] by (auto simp: blocks_def one_start_def)
    have eq: "split_table_by_time t m = map sort_bar_table ps" unfolding ps_def by (rule split_pack[OF False])
    show ?thesis unfolding eq
    proof (intro conjI ballI)
      show "mset (concat (map sort_bar_table ps)) = mset t"
        using ms[of ps] by (simp add: ps_def concat_pack concat_blocks)
      show "[] \<notin> set (map sort_bar_table ps)" using ne sort_bar_table_facts(4) by (metis (no_types) image_iff image_set)
      have "(\<lambda>p q. apart (sort_bar_table p) (sort_bar_table q)) = (apart :: 'a bar_scheme list \<Rightarrow> _)"
        by (simp add: apart_def fun_eq_iff)
      then show "sorted_wrt apart (map sort_bar_table ps)" using ap by (simp only: sorted_wrt_map)
    next
      fix p assume "p \<in> set (map sort_bar_table ps)"
      then obtain q where q: "q \<in> set ps" "p = sort_bar_table q" by (metis (no_types) image_iff image_set)
      show "sort_bar_table p = p" unfolding q(2) by (rule idem)
      show "length p \<le> m \<or> one_start p" unfolding q(2) using bd[OF q(1)] by (simp add: one_start_def)
    qed
  qed
  then show "mset (concat (split_table_by_time t m)) = mset t" "[] \<notin> set (split_table_by_time t m)"
    "sorted_wrt apart (split_table_by_time t m)"
    "p \<in> set (split_table_by_time t m) \<Longrightarrow> sort_bar_table p = p \<and> (length p \<le> m \<or> one_start p)" by blast+
qed

section \<open>Parts that fit a file\<close>

definition queue_weight :: "'a list list \<Rightarrow> nat" where
  "queue_weight q = sum_list (map (\<lambda>c. max 1 (2 * length c - 1)) q)"

lemma queue_weight_halves:
  assumes "[] \<notin> set hs" and "2 \<le> length hs"
  shows "queue_weight hs < max 1 (2 * length (concat hs) - 1)"
proof -
  have "queue_weight hs + length hs = 2 * length (concat hs)"
    using assms(1)
  proof (induction hs)
    case (Cons a hs)
    then have "1 \<le> length a" by (cases a) auto
    then have "max 1 (2 * length a - 1) + 1 = 2 * length a" by linarith
    then show ?case using Cons by (simp add: queue_weight_def)
  qed (simp add: queue_weight_def)
  then show ?thesis using assms(2) by simp
qed

lemma mset_length: "mset xs = mset ys \<Longrightarrow> length xs = length ys"
  by (metis size_mset)

text \<open>
  The \<open>while queue\<close> loop of \<open>_candidate_tables\<close>. The scratch file has no other effect than its size;
  a part of one row is accepted whatever its size.
\<close>

function candidate_loop ::
  "('z bar_scheme list \<Rightarrow> int res) \<Rightarrow> int \<Rightarrow> 'z bar_scheme list list \<Rightarrow> 'z bar_scheme list list
    \<Rightarrow> 'z bar_scheme list list res" where
  "candidate_loop file_size limit accepted [] = Inr accepted"
| "candidate_loop file_size limit accepted (c # q) =
     (case file_size c of
        Inl e \<Rightarrow> Inl e
      | Inr bytes \<Rightarrow>
          if limit < bytes \<and> 1 < length c then
            (let halves = split_table_by_time c (max 1 (length c div 2)) in
             if length halves = 1 then Inl ValueError else candidate_loop file_size limit accepted (halves @ q))
          else candidate_loop file_size limit (accepted @ [c]) q)"
  by pat_completeness auto
termination
proof (relation "measure (\<lambda>(_, _, _, q). queue_weight q)")
  fix file_size :: "'a bar_scheme list \<Rightarrow> int res" and limit and accepted :: "'a bar_scheme list list"
    and c :: "'a bar_scheme list" and q :: "'a bar_scheme list list" and bytes :: int and halves
  assume *: "limit < bytes \<and> 1 < length c" "halves = split_table_by_time c (max 1 (length c div 2))" "length halves \<noteq> 1"
  then have c: "c \<noteq> []" by auto
  then have "length (concat halves) = length c" using split_facts(1)[OF c] *(2) by (metis mset_length)
  moreover have "halves \<noteq> []" using split_facts(1)[OF c] *(2) c by (metis concat.simps(1) mset_zero_iff mset.simps(1))
  then have "2 \<le> length halves" using *(3) by (cases halves; cases "tl halves") auto
  moreover have "[] \<notin> set halves" using split_facts(2)[OF c] *(2) by simp
  ultimately have "queue_weight halves < max 1 (2 * length c - 1)" using queue_weight_halves by metis
  then show "((file_size, limit, accepted, halves @ q), file_size, limit, accepted, c # q)
      \<in> measure (\<lambda>(_, _, _, q). queue_weight q)" by (simp add: queue_weight_def)
qed (simp_all add: queue_weight_def)

definition MIB :: int where "MIB = 1024 * 1024"

definition candidate_tables ::
  "('z bar_scheme list \<Rightarrow> int res) \<Rightarrow> ('z bar_scheme list \<Rightarrow> int) \<Rightarrow> int \<Rightarrow> int \<Rightarrow> 'z bar_scheme list
    \<Rightarrow> 'z bar_scheme list list res" where
  "candidate_tables file_size nbytes target_size_mib max_size_mib t =
     (if t = [] then Inr []
      else candidate_loop file_size (max_size_mib * MIB) []
             (split_table_by_time t (estimate_rows_for_size (length t) (nbytes t) target_size_mib)))"

definition fits :: "('z bar_scheme list \<Rightarrow> int res) \<Rightarrow> int \<Rightarrow> 'z bar_scheme list \<Rightarrow> bool" where
  "fits file_size limit p \<longleftrightarrow> (case file_size p of Inl _ \<Rightarrow> False | Inr n \<Rightarrow> n \<le> limit \<or> length p \<le> 1)"

lemma apart_mset: "mset xs = mset ys \<Longrightarrow> apart xs zs \<longleftrightarrow> apart ys zs" "mset xs = mset ys \<Longrightarrow> apart zs xs \<longleftrightarrow> apart zs ys"
  by (auto simp: apart_def dest: mset_eq_setD)

lemma apart_concat: "apart (concat ps) r \<longleftrightarrow> (\<forall>p\<in>set ps. apart p r)" "apart r (concat ps) \<longleftrightarrow> (\<forall>p\<in>set ps. apart r p)"
  by (auto simp: apart_def)

lemma candidate_loop_facts:
  assumes "candidate_loop file_size limit accepted q = Inr parts"
    and "\<forall>p\<in>set (accepted @ q). p \<noteq> [] \<and> sort_bar_table p = p" and "sorted_wrt apart (accepted @ q)"
    and "\<forall>p\<in>set accepted. fits file_size limit p"
  shows "mset (concat parts) = mset (concat (accepted @ q)) \<and> sorted_wrt apart parts \<and>
    (\<forall>p\<in>set parts. p \<noteq> [] \<and> sort_bar_table p = p \<and> fits file_size limit p)"
  using assms
proof (induction file_size limit accepted q rule: candidate_loop.induct)
  case (2 file_size limit accepted c q)
  obtain bytes where bytes: "file_size c = Inr bytes" using 2(3) by (auto split: sum.splits)
  show ?case
  proof (cases "limit < bytes \<and> 1 < length c")
    case True
    define halves where "halves = split_table_by_time c (max 1 (length c div 2))"
    have c: "c \<noteq> []" using True by auto
    have h: "mset (concat halves) = mset c" "[] \<notin> set halves" "sorted_wrt apart halves"
      "\<And>p. p \<in> set halves \<Longrightarrow> sort_bar_table p = p"
      unfolding halves_def using split_facts[OF c] by blast+
    have run: "candidate_loop file_size limit accepted (halves @ q) = Inr parts" "length halves \<noteq> 1"
      using 2(3) True bytes by (auto simp: halves_def Let_def split: if_splits)
    have ok: "\<forall>p\<in>set (accepted @ halves @ q). p \<noteq> [] \<and> sort_bar_table p = p"
    proof
      fix p assume "p \<in> set (accepted @ halves @ q)"
      then consider "p \<in> set halves" | "p \<in> set (accepted @ c # q)" by auto
      then show "p \<noteq> [] \<and> sort_bar_table p = p" using h(2,4) 2(4) by cases (blast+)
    qed
    have "apart p c \<longleftrightarrow> (\<forall>x\<in>set halves. apart p x)" "apart c p \<longleftrightarrow> (\<forall>x\<in>set halves. apart x p)" for p
      using apart_mset[OF h(1)] by (simp_all flip: apart_concat)
    then have "sorted_wrt apart (accepted @ halves @ q)"
      using 2(5) h(3) by (auto simp: sorted_wrt_append)
    from 2(1)[OF bytes True halves_def run(2) run(1) ok this 2(6)] show ?thesis using h(1) by simp
  next
    case False
    have run: "candidate_loop file_size limit (accepted @ [c]) q = Inr parts" using 2(3) False bytes by auto
    have "fits file_size limit c" using False bytes by (auto simp: fits_def)
    then have "\<forall>p\<in>set (accepted @ [c]). fits file_size limit p" using 2(6) by auto
    moreover have eq: "(accepted @ [c]) @ q = accepted @ c # q" by simp
    ultimately show ?thesis using 2(2)[OF bytes False run] 2(4,5) unfolding eq by blast
  qed
qed simp

text \<open>C28: Splitting a table for publication loses and invents no row: the parts together are the rows of
  the table, each part is non-empty, sorted, and fits the size limit or is a single row, and the parts
  never overlap in time: every bar of an earlier part starts before every bar of a later one.\<close>

theorem candidates_partition:
  assumes "candidate_tables file_size nbytes target_size_mib max_size_mib t = Inr parts"
  shows "mset (concat parts) = mset t \<and>
    (\<forall>p\<in>set parts. p \<noteq> [] \<and> sort_bar_table p = p \<and> fits file_size (max_size_mib * MIB) p) \<and>
    sorted_wrt (\<lambda>p q. \<forall>a\<in>set p. \<forall>b\<in>set q. b_start a < b_start b) parts"
proof (cases "t = []")
  case False
  define q where "q = split_table_by_time t (estimate_rows_for_size (length t) (nbytes t) target_size_mib)"
  have run: "candidate_loop file_size (max_size_mib * MIB) [] q = Inr parts"
    using assms False by (simp add: candidate_tables_def q_def)
  have q: "mset (concat q) = mset t" "[] \<notin> set q" "sorted_wrt apart q" "\<And>p. p \<in> set q \<Longrightarrow> sort_bar_table p = p"
    unfolding q_def using split_facts[OF False] by blast+
  have "\<forall>p\<in>set ([] @ q). p \<noteq> [] \<and> sort_bar_table p = p" using q(2,4) by auto
  from candidate_loop_facts[OF run this] q(1,3) show ?thesis by (simp add: apart_def[abs_def])
qed (use assms in \<open>simp add: candidate_tables_def\<close>)

lemma candidate_loop_error:
  assumes "candidate_loop file_size limit accepted q = Inl e"
    and "\<And>c. is_ok (file_size c)"
  shows "e = ValueError \<and> (\<exists>c n. one_start c \<and> 1 < length c \<and> file_size c = Inr n \<and> limit < n)"
  using assms
proof (induction file_size limit accepted q rule: candidate_loop.induct)
  case (2 file_size limit accepted c q)
  obtain bytes where bytes: "file_size c = Inr bytes" using 2(4)[of c] by (cases "file_size c") auto
  show ?case
  proof (cases "limit < bytes \<and> 1 < length c")
    case True
    define halves where "halves = split_table_by_time c (max 1 (length c div 2))"
    show ?thesis
    proof (cases "length halves = 1")
      case one: True
      have c: "c \<noteq> []" using True by auto
      obtain h where h: "halves = [h]" using one by (cases halves) auto
      have "mset h = mset c" using split_facts(1)[OF c, of "max 1 (length c div 2)"] h by (simp add: halves_def)
      moreover have "length h \<le> max 1 (length c div 2) \<or> one_start h"
        using split_facts(4)[OF c, of h "max 1 (length c div 2)"] h by (simp add: halves_def)
      ultimately have "one_start c" using True mset_length[of h c] mset_eq_setD[of h c] by (auto simp: one_start_def)
      moreover have "e = ValueError" using 2(3) bytes True one by (simp add: halves_def)
      ultimately show ?thesis using True bytes by blast
    next
      case False
      then show ?thesis using 2(1)[OF bytes True halves_def False] 2(3,4) bytes True by (auto simp: halves_def)
    qed
  qed (use 2 bytes in auto)
qed simp

section \<open>Session bars from 30-minute bars\<close>

text \<open>
  \<open>derive_regular_bars\<close>. Prices are binary64, NaN skipped by \<open>max\<close> and \<open>min\<close> as pandas does; the
  volume is an \<open>int64\<close> sum, which wraps; \<open>source_minutes\<close> is an \<open>int16\<close> column, which refuses what does
  not fit. \<open>mean\<close> is numpy's float arithmetic for \<open>sum(vwap * volume) / weight\<close>. The bars of one
  bucket are taken in time order; bars of one instrument and one start have no order the code fixes.
\<close>

definition wrap64 :: "int \<Rightarrow> int" where
  "wrap64 n = (n + 2 ^ 63) mod 2 ^ 64 - 2 ^ 63"

definition vwap_inputs :: "provider_bar list \<Rightarrow> (fval \<times> int) list" where
  "vwap_inputs bucket =
     concat (map (\<lambda>b. case pb_vwap b of None \<Rightarrow> [] | Some v \<Rightarrow> if v = NaN then [] else [(v, b_volume b)]) bucket)"

definition bucket_vwap :: "((fval \<times> int) list \<Rightarrow> fval) \<Rightarrow> provider_bar list \<Rightarrow> fval option" where
  "bucket_vwap mean bucket =
     (let vs = vwap_inputs bucket in
      if vs \<noteq> [] \<and> 0 < wrap64 (sum_list (map snd vs)) then Some (mean vs) else None)"

definition bucket_trades :: "provider_bar list \<Rightarrow> int option" where
  "bucket_trades bucket =
     (let ns = concat (map (\<lambda>b. case b_trade_count b of None \<Rightarrow> [] | Some n \<Rightarrow> [n]) bucket)
      in if ns = [] then None else Some (sum_list ns))"

definition derived_row :: "((fval \<times> int) list \<Rightarrow> fval) \<Rightarrow> string \<Rightarrow> date \<Rightarrow> provider_bar list \<Rightarrow> provider_bar" where
  "derived_row mean i d bucket =
     \<lparr>b_instrument = i, b_start = b_start (hd bucket), b_session = d, b_open = b_open (hd bucket),
      b_high = fv_max (map b_high bucket), b_low = fv_min (map b_low bucket), b_close = b_close (last bucket),
      b_volume = wrap64 (sum_list (map b_volume bucket)), b_trade_count = bucket_trades bucket,
      b_source_minutes = int (length bucket) * 30, pb_symbol = pb_symbol (hd bucket), pb_vwap = bucket_vwap mean bucket\<rparr>"

definition derived_minutes :: "string \<Rightarrow> int" where
  "derived_minutes resolution = (if resolution = ''1h'' then 60 else if resolution = ''4h'' then 240 else 24 * 60)"

definition bin_of :: "string \<Rightarrow> instant \<Rightarrow> provider_bar \<Rightarrow> int" where
  "bin_of resolution op b =
     (if resolution = ''1d'' then 0 else (b_start b - op) div (derived_minutes resolution * minute_micros))"

definition regular_bars :: "(date, instant \<times> instant) dict \<Rightarrow> string \<Rightarrow> date \<Rightarrow> provider_bar list \<Rightarrow> provider_bar list" where
  "regular_bars bounds i d t =
     (case dget bounds d of
        None \<Rightarrow> []
      | Some (op, cl) \<Rightarrow> filter (\<lambda>b. b_instrument b = i \<and> b_session b = d \<and> op \<le> b_start b \<and> b_start b < cl) t)"

definition session_open :: "(date, instant \<times> instant) dict \<Rightarrow> date \<Rightarrow> instant" where
  "session_open bounds d = (case dget bounds d of None \<Rightarrow> 0 | Some (op, _) \<Rightarrow> op)"

definition bucket_of :: "string \<Rightarrow> instant \<Rightarrow> provider_bar list \<Rightarrow> int \<Rightarrow> provider_bar list" where
  "bucket_of resolution op regular k = sort_key b_start (filter (\<lambda>b. bin_of resolution op b = k) regular)"

definition derived_group ::
  "((fval \<times> int) list \<Rightarrow> fval) \<Rightarrow> (date, instant \<times> instant) dict \<Rightarrow> string \<Rightarrow> provider_bar list \<Rightarrow> string \<times> date
    \<Rightarrow> provider_bar list" where
  "derived_group mean bounds resolution t key =
     (case key of (i, d) \<Rightarrow>
        let op = session_open bounds d; regular = regular_bars bounds i d t
        in map (\<lambda>k. derived_row mean i d (bucket_of resolution op regular k))
             (dedup_sorted (map (bin_of resolution op) regular)))"

definition group_key :: "'z bar_scheme \<Rightarrow> string \<times> date" where
  "group_key b = (b_instrument b, b_session b)"

definition derived_rows where
  "derived_rows mean bounds resolution t =
     concat (map (derived_group mean bounds resolution t) (dedup_sorted (map group_key t)))"

definition derive_regular_bars ::
  "((fval \<times> int) list \<Rightarrow> fval) \<Rightarrow> calendar_env \<Rightarrow> string \<Rightarrow> provider_bar list \<Rightarrow> provider_bar list res" where
  "derive_regular_bars mean C resolution t =
     (if resolution \<notin> {''1h'', ''4h'', ''1d''} then Inl ValueError
      else if t = [] then Inr []
      else let rows = derived_rows mean (session_bounds C (map bar.truncate t)) resolution t
           in if list_all (\<lambda>r. b_source_minutes r \<le> 32767) rows then Inr (sort_bar_table rows) else Inl ValueError)"

lemma sum_list_delta: "distinct ks \<Longrightarrow> sum_list (map (\<lambda>k. if a = k then v else 0) ks) = (if a \<in> set ks then v else (0::int))"
  by (induction ks) auto

lemma sum_list_mset_eq: "mset xs = mset ys \<Longrightarrow> sum_list xs = (sum_list ys :: int)"
  by (metis sum_mset_sum_list)

lemma sum_by_key:
  "distinct ks \<Longrightarrow> f ` set xs \<subseteq> set ks \<Longrightarrow>
   sum_list (map (\<lambda>k. sum_list (map g (filter (\<lambda>x. f x = k) xs))) ks) = (sum_list (map g xs) :: int)"
proof (induction xs)
  case (Cons x xs)
  have "sum_list (map (\<lambda>k. sum_list (map g (filter (\<lambda>x. f x = k) (x # xs)))) ks)
      = sum_list (map (\<lambda>k. (if f x = k then g x else 0) + sum_list (map g (filter (\<lambda>x. f x = k) xs))) ks)"
    by (intro arg_cong[where f = sum_list] map_cong refl) auto
  also have "\<dots> = sum_list (map (\<lambda>k. if f x = k then g x else 0) ks)
      + sum_list (map (\<lambda>k. sum_list (map g (filter (\<lambda>x. f x = k) xs))) ks)"
    by (rule sum_list_addf)
  also have "sum_list (map (\<lambda>k. if f x = k then g x else 0) ks) = g x"
    using Cons.prems by (simp add: sum_list_delta)
  finally show ?case using Cons by simp
qed (simp add: sum_list_0)

lemma wrap64_id: "0 \<le> n \<Longrightarrow> n < 2 ^ 63 \<Longrightarrow> wrap64 n = n"
  by (simp add: wrap64_def)

lemma bucket_nonempty: "k \<in> set (dedup_sorted (map (bin_of r op) regular)) \<Longrightarrow> bucket_of r op regular k \<noteq> []"
proof
  assume "k \<in> set (dedup_sorted (map (bin_of r op) regular))" and e: "bucket_of r op regular k = []"
  then obtain b where "b \<in> set regular" "bin_of r op b = k" by (auto simp: dedup_sorted_strict)
  moreover have "set (bucket_of r op regular k) = {}" unfolding e by simp
  ultimately show False unfolding bucket_of_def by auto
qed

lemma set_bucket: "set (bucket_of r op regular k) = {b \<in> set regular. bin_of r op b = k}"
  by (auto simp: bucket_of_def)

lemma set_regular: "b \<in> set (regular_bars bounds i d t) \<Longrightarrow> b \<in> set t \<and> b_instrument b = i \<and> b_session b = d"
  by (auto simp: regular_bars_def split: option.splits)

lemma bucket_sum: "sum_list (map g (bucket_of r op regular k)) = (sum_list (map g (filter (\<lambda>b. bin_of r op b = k) regular)) :: int)"
  unfolding bucket_of_def by (rule sum_list_mset_eq) simp

definition at_key :: "string \<times> date \<Rightarrow> 'z bar_scheme list \<Rightarrow> 'z bar_scheme list" where
  "at_key key t = filter (\<lambda>b. group_key b = key) t"

lemma derived_group_key: "r \<in> set (derived_group mean bounds res t key) \<Longrightarrow> group_key r = key"
  by (auto simp: derived_group_def derived_row_def group_key_def Let_def split: prod.splits)

lemma filter_concat_group:
  "distinct keys \<Longrightarrow> (\<And>k r. r \<in> set (G k) \<Longrightarrow> h r = k) \<Longrightarrow>
   filter (\<lambda>r. h r = key) (concat (map G keys)) = (if key \<in> set keys then G key else [])"
proof (induction keys)
  case (Cons k keys)
  have "filter (\<lambda>r. h r = key) (G k) = (if k = key then G k else [])"
    using Cons.prems(2) by (auto simp: filter_id_conv filter_empty_conv)
  then show ?case using Cons by auto
qed simp

lemma rows_at_key:
  "at_key key (derived_rows mean bounds res t) = (if key \<in> group_key ` set t then derived_group mean bounds res t key else [])"
  unfolding at_key_def derived_rows_def
  by (subst filter_concat_group) (auto simp: derived_group_key dedup_sorted_strict dedup_sorted_def)

lemma regular_outside: "key \<notin> group_key ` set t \<Longrightarrow> regular_bars bounds (fst key) (snd key) t = []"
  by (cases key) (auto simp: regular_bars_def group_key_def filter_empty_conv image_iff split: option.splits)

lemma derived_group_sums:
  fixes g :: "provider_bar \<Rightarrow> int"
  assumes "\<And>k. k \<in> set (dedup_sorted (map (bin_of res (session_open bounds d)) (regular_bars bounds i d t))) \<Longrightarrow>
    h (derived_row mean i d (bucket_of res (session_open bounds d) (regular_bars bounds i d t) k))
      = sum_list (map g (bucket_of res (session_open bounds d) (regular_bars bounds i d t) k))"
  shows "sum_list (map h (derived_group mean bounds res t (i, d))) = sum_list (map g (regular_bars bounds i d t))"
proof -
  define op regular where "op = session_open bounds d" and "regular = regular_bars bounds i d t"
  define ks where "ks = dedup_sorted (map (bin_of res op) regular)"
  have "sum_list (map h (derived_group mean bounds res t (i, d)))
      = sum_list (map (\<lambda>k. sum_list (map g (bucket_of res op regular k))) ks)"
    using assms
    by (auto simp: derived_group_def Let_def op_def regular_def ks_def intro!: arg_cong[where f = sum_list])
  also have "\<dots> = sum_list (map g regular)"
    unfolding bucket_sum by (rule sum_by_key) (auto simp: ks_def dedup_sorted_def)
  finally show ?thesis by (simp add: regular_def)
qed

lemma at_key_sort: "sum_list (map h (at_key key (sort_bar_table t))) = (sum_list (map h (at_key key t)) :: int)"
  unfolding at_key_def by (rule sum_list_mset_eq) simp


section \<open>Derived bars are consistent\<close>

text \<open>A bar whose four prices are finite, positive and enclosed by low and high.\<close>

definition sound :: "'z bar_scheme \<Rightarrow> bool" where
  "sound b \<longleftrightarrow> (\<exists>op hi lo cl. b_open b = Fin op \<and> b_high b = Fin hi \<and> b_low b = Fin lo \<and> b_close b = Fin cl \<and>
     0 < lo \<and> lo \<le> op \<and> lo \<le> cl \<and> op \<le> hi \<and> cl \<le> hi)"

lemma finite_positive_iff: "finite_positive v \<longleftrightarrow> (\<exists>r. v = Fin r \<and> 0 < r)"
  by (cases v) (auto simp: finite_positive_def)

lemma fv_max_3: "fv_max [Fin a, Fin b, Fin c] = Fin (max a (max b c))"
  by (simp add: Let_def max_def)

lemma fv_min_3: "fv_min [Fin a, Fin b, Fin c] = Fin (min a (min b c))"
  by (simp add: Let_def min_def)

lemma fin_sound:
  assumes "b_open b = Fin op" "b_high b = Fin hi" "b_low b = Fin lo" "b_close b = Fin cl"
  shows "sound b \<longleftrightarrow> 0 < lo \<and> lo \<le> op \<and> lo \<le> cl \<and> op \<le> hi \<and> cl \<le> hi"
    and "valid_prices (bar.truncate b) \<longleftrightarrow> 0 < op \<and> 0 < hi \<and> 0 < lo \<and> 0 < cl"
    and "ohlc_ok (bar.truncate b) \<longleftrightarrow> lo \<le> op \<and> lo \<le> cl \<and> op \<le> hi \<and> cl \<le> hi \<and> lo \<le> hi"
  using assms by (auto simp: sound_def valid_prices_def finite_positive_def ohlc_ok_def bar.truncate_def fv_max_3 fv_min_3
      simp del: fv_max.simps fv_min.simps)

lemma sound_iff: "sound b \<longleftrightarrow> valid_prices (bar.truncate b) \<and> ohlc_ok (bar.truncate b)"
proof (cases "\<exists>op hi lo cl. b_open b = Fin op \<and> b_high b = Fin hi \<and> b_low b = Fin lo \<and> b_close b = Fin cl")
  case True
  then obtain op hi lo cl where f: "b_open b = Fin op" "b_high b = Fin hi" "b_low b = Fin lo" "b_close b = Fin cl" by blast
  show ?thesis unfolding fin_sound[OF f] by linarith
next
  case False
  then have "\<not> sound b" unfolding sound_def by blast
  moreover have "\<not> valid_prices (bar.truncate b)"
    using False by (simp add: valid_prices_def finite_positive_iff bar.truncate_def) metis
  ultimately show ?thesis by simp
qed

lemma fv_max_fins: "rs \<noteq> [] \<Longrightarrow> fv_max (map Fin rs) = Fin (Max (set rs))"
proof (induction rs)
  case (Cons r rs)
  show ?case
  proof (cases "rs = []")
    case False
    then obtain m where m: "fv_max (map Fin rs) = Fin m" "Max (set (r # rs)) = max r m" using Cons by simp
    show ?thesis unfolding m(2) by (simp add: m(1) Let_def max_def)
  qed simp
qed simp

lemma fv_min_fins: "rs \<noteq> [] \<Longrightarrow> fv_min (map Fin rs) = Fin (Min (set rs))"
proof (induction rs)
  case (Cons r rs)
  show ?case
  proof (cases "rs = []")
    case False
    then obtain m where m: "fv_min (map Fin rs) = Fin m" "Min (set (r # rs)) = min r m" using Cons by simp
    show ?thesis unfolding m(2) by (simp add: m(1) Let_def min_def)
  qed simp
qed simp

definition fin_of :: "fval \<Rightarrow> rat" where
  "fin_of v = (case v of Fin r \<Rightarrow> r | _ \<Rightarrow> 0)"

lemma derived_row_sound:
  assumes "bucket \<noteq> []" and "\<forall>b\<in>set bucket. sound b"
  shows "sound (derived_row mean i d bucket)"
proof -
  have hi: "map b_high bucket = map Fin (map (fin_of \<circ> b_high) bucket)"
    and lo: "map b_low bucket = map Fin (map (fin_of \<circ> b_low) bucket)"
    using assms(2) by (auto simp: sound_def fin_of_def)
  have "sound (hd bucket)" "sound (last bucket)" using assms by simp_all
  then obtain o1 h1 l1 c2 h2 l2 where first: "b_open (hd bucket) = Fin o1" "b_high (hd bucket) = Fin h1" "b_low (hd bucket) = Fin l1"
      "l1 \<le> o1" "o1 \<le> h1"
    and final: "b_close (last bucket) = Fin c2" "b_high (last bucket) = Fin h2" "b_low (last bucket) = Fin l2"
      "l2 \<le> c2" "c2 \<le> h2"
    unfolding sound_def by blast
  define H L where "H = Max (set (map (fin_of \<circ> b_high) bucket))" and "L = Min (set (map (fin_of \<circ> b_low) bucket))"
  have "fin_of (b_high x) \<le> H" "L \<le> fin_of (b_low x)" if "x \<in> set bucket" for x
    using that by (auto simp: H_def L_def)
  from this[of "hd bucket"] this[of "last bucket"] have ends: "h1 \<le> H" "h2 \<le> H" "L \<le> l1" "L \<le> l2"
    using assms(1) first final by (auto simp: fin_of_def)
  have "L \<in> set (map (fin_of \<circ> b_low) bucket)" unfolding L_def by (rule Min_in) (use assms(1) in auto)
  then have "0 < L" using assms(2) by (auto simp: sound_def fin_of_def)
  moreover have "b_high (derived_row mean i d bucket) = Fin H" "b_low (derived_row mean i d bucket) = Fin L"
    using fv_max_fins[of "map (fin_of \<circ> b_high) bucket", folded hi H_def] fv_min_fins[of "map (fin_of \<circ> b_low) bucket", folded lo L_def]
      assms(1) by (simp_all add: derived_row_def)
  moreover have "b_open (derived_row mean i d bucket) = Fin o1" "b_close (derived_row mean i d bucket) = Fin c2"
    using first final by (simp_all add: derived_row_def)
  ultimately show ?thesis unfolding sound_def using ends first(4,5) final(4,5)
    by (intro exI[of _ o1] exI[of _ H] exI[of _ L] exI[of _ c2]) auto
qed

lemma derived_group_sound:
  assumes "\<And>b. b \<in> set t \<Longrightarrow> sound b" and "r \<in> set (derived_group mean bounds res t key)"
  shows "sound r"
proof -
  obtain i d where key: "key = (i, d)" by (cases key)
  define op regular where "op = session_open bounds d" and "regular = regular_bars bounds i d t"
  obtain k where k: "k \<in> set (dedup_sorted (map (bin_of res op) regular))"
    and r: "r = derived_row mean i d (bucket_of res op regular k)"
    using assms(2) by (auto simp: derived_group_def Let_def key op_def regular_def)
  show ?thesis unfolding r
    by (rule derived_row_sound[OF bucket_nonempty[OF k]]) (use assms(1) set_regular in \<open>auto simp: set_bucket regular_def\<close>)
qed

text \<open>Within one session the derived bars start strictly one after the other.\<close>

lemma derived_group_distinct: "distinct (map b_start (derived_group mean bounds res t (i, d)))"
proof -
  define op regular where "op = session_open bounds d" and "regular = regular_bars bounds i d t"
  define ks where "ks = dedup_sorted (map (bin_of res op) regular)"
  have bin: "bin_of res op (hd (bucket_of res op regular k)) = k" if "k \<in> set ks" for k
    using hd_in_set[OF bucket_nonempty[OF that[unfolded ks_def]]] by (simp add: set_bucket)
  have "k = k'" if "k \<in> set ks" "k' \<in> set ks"
      "b_start (hd (bucket_of res op regular k)) = b_start (hd (bucket_of res op regular k'))" for k k'
    using bin[OF that(1)] bin[OF that(2)] that(3) unfolding bin_of_def by presburger
  then have "distinct (map (\<lambda>k. b_start (hd (bucket_of res op regular k))) ks)"
    by (auto simp: distinct_map ks_def dedup_sorted_def intro!: inj_onI)
  then show ?thesis by (simp add: derived_group_def Let_def op_def regular_def ks_def derived_row_def comp_def)
qed

text \<open>The aggregation keeps every bar valid: when the prices of all input bars are positive and
  consistent, so are those of every derived bar, and the result is in (instrument, start) order with
  no two bars of one instrument and session starting at the same time.\<close>

theorem derived_bars_consistent:
  assumes run: "derive_regular_bars mean C resolution t = Inr out"
    and clean: "\<And>b. b \<in> set t \<Longrightarrow> valid_prices (bar.truncate b) \<and> ohlc_ok (bar.truncate b)"
  shows "(\<forall>r\<in>set out. valid_prices (bar.truncate r) \<and> ohlc_ok (bar.truncate r)) \<and>
    sorted (map (\<lambda>r. (b_instrument r, b_start r)) out) \<and> distinct (map b_start (at_key (i, d) out))"
proof -
  define rows where "rows = derived_rows mean (session_bounds C (map bar.truncate t)) resolution t"
  have nil: "sort_bar_table [] = ([] :: provider_bar list)" by (simp add: sort_bar_table_def)
  have out: "out = sort_bar_table (if t = [] then [] else rows)"
    using run unfolding derive_regular_bars_def Let_def rows_def[symmetric] by (cases "t = []") (auto simp: nil split: if_splits)
  have row: "sound r" if r: "r \<in> set rows" for r
  proof -
    obtain key where "r \<in> set (derived_group mean (session_bounds C (map bar.truncate t)) resolution t key)"
      using r unfolding rows_def derived_rows_def set_concat set_map by blast
    then show ?thesis using derived_group_sound[of t r] clean unfolding sound_iff by blast
  qed
  have "mset (map b_start (at_key (i, d) out)) = mset (map b_start (at_key (i, d) (if t = [] then [] else rows)))"
    unfolding out at_key_def by simp
  then have "distinct (map b_start (at_key (i, d) out)) = distinct (map b_start (at_key (i, d) (if t = [] then [] else rows)))"
    by (rule mset_eq_imp_distinct_iff)
  moreover have "at_key (i, d) rows = (if (i, d) \<in> group_key ` set t then
      derived_group mean (session_bounds C (map bar.truncate t)) resolution t (i, d) else [])"
    unfolding rows_def by (rule rows_at_key)
  ultimately have "distinct (map b_start (at_key (i, d) out))"
    using derived_group_distinct[of mean "session_bounds C (map bar.truncate t)" resolution t i d]
    by (cases "t = []") (simp_all add: at_key_def)
  moreover have "sound r" if "r \<in> set out" for r
    using that row by (cases "t = []") (simp_all add: out nil)
  moreover have "sorted (map (\<lambda>r. (b_instrument r, b_start r)) out)"
    unfolding out sort_bar_table_def by (rule sorted_sort_key)
  ultimately show ?thesis unfolding sound_iff by blast
qed

section \<open>Witnesses\<close>

definition half_hour :: "int \<Rightarrow> provider_bar" where
  "half_hour k = \<lparr>b_instrument = ''A'', b_start = k * 1800000000, b_session = 719163, b_open = Fin 2, b_high = Fin 3,
     b_low = Fin 1, b_close = Fin 2, b_volume = 10, b_trade_count = Some 1, b_source_minutes = 30,
     pb_symbol = ''A'', pb_vwap = None\<rparr>"

definition one_session :: calendar_env where
  "one_session = \<lparr>session_windows = (\<lambda>_ _. [(0, 5400000000)]), cal_date = (\<lambda>_. 719163), abs_log_return = (\<lambda>_ _. 0)\<rparr>"

definition row_bytes :: "provider_bar list \<Rightarrow> int res" where
  "row_bytes t = Inr (int (length t) * 1048576)"


theorem candidates_partition_witness:
  "\<exists>parts. candidate_tables row_bytes (\<lambda>t. int (length t) * 1048576) 2 1 (map half_hour [2, 1, 0]) = Inr parts \<and> length parts = 3 \<and>
     mset (concat parts) = mset (map half_hour [2, 1, 0])"
proof -
  define parts where "parts = map (\<lambda>k. [half_hour k]) [0, 1, 2]"
  have run: "candidate_tables row_bytes (\<lambda>t. int (length t) * 1048576) 2 1 (map half_hour [2, 1, 0]) = Inr parts"
    unfolding parts_def by code_simp
  have "length parts = 3" by (simp add: parts_def)
  then show ?thesis using run candidates_partition[OF run] by blast
qed

definition three_bars :: "provider_bar list" where
  "three_bars = map half_hour [0, 1, 2]"

lemma three_derived: "\<exists>out. derive_regular_bars (\<lambda>_. NaN) one_session ''1h'' three_bars = Inr out \<and> length out = 2"
proof -
  have b: "session_bounds one_session (map bar.truncate three_bars) = [(719163, (0, 5400000000))]" by code_simp
  have k: "dedup_sorted (map group_key three_bars) = [(''A'', 719163)]" by code_simp
  have n: "length (derived_group (\<lambda>_. NaN) [(719163, (0, 5400000000))] ''1h'' three_bars (''A'', 719163)) = 2"
    "list_all (\<lambda>r. b_source_minutes r \<le> 32767) (derived_group (\<lambda>_. NaN) [(719163, (0, 5400000000))] ''1h'' three_bars (''A'', 719163))"
    by code_simp+
  have "three_bars \<noteq> []" by (simp add: three_bars_def)
  then show ?thesis using n by (simp add: derive_regular_bars_def derived_rows_def b k)
qed


theorem derived_bars_consistent_witness:
  "\<exists>out. derive_regular_bars (\<lambda>_. NaN) one_session ''1h'' three_bars = Inr out \<and> length out = 2 \<and>
     list_all (\<lambda>r. ohlc_ok (bar.truncate r)) out"
proof -
  obtain out where run: "derive_regular_bars (\<lambda>_. NaN) one_session ''1h'' three_bars = Inr out" and "length out = 2"
    using three_derived by blast
  moreover have clean: "valid_prices (bar.truncate b) \<and> ohlc_ok (bar.truncate b)" if b: "b \<in> set three_bars" for b
  proof -
    obtain k where "b = half_hour k" using b by (auto simp: three_bars_def)
    then have "sound b" by (simp add: half_hour_def sound_def)
    then show ?thesis unfolding sound_iff .
  qed
  ultimately show ?thesis using run derived_bars_consistent[OF run clean] by (metis list_all_iff)
qed

end
