(* ===== verification/Object_Store.thy ===== *)
theory Object_Store
  imports Contracts "HOL-Library.Sublist"
begin

text \<open>
  \<open>market_pipeline_lib/storage.py\<close>: the immutable object stores. \<open>LocalObjectStore\<close> over a file system
  that maps resolved paths to contents (no symbolic links); \<open>S3ObjectStore\<close> over a service of which only
  the answers are known. SHA-256 of a content (\<open>sha\<close>), what a file copy leaves (\<open>copy\<close>), base64 and
  the boto3 client are parameters.
\<close>

record receipt =
  rc_storage_provider :: string
  rc_bucket_name :: string
  rc_object_key :: string
  rc_version_id :: string
  rc_content_hash :: string
  rc_byte_size :: int
  rc_local_path :: "string list option"
  rc_etag :: "string option"
  rc_created :: bool

record verification =
  vr_ok :: bool
  vr_content_hash :: string
  vr_byte_size :: int
  vr_message :: string

definition verification_result :: "bool \<Rightarrow> string \<Rightarrow> int \<Rightarrow> string \<Rightarrow> verification" where
  "verification_result ok h n m = \<lparr>vr_ok = ok, vr_content_hash = h, vr_byte_size = n, vr_message = m\<rparr>"

section \<open>Paths below the local root\<close>

type_synonym path = "string list"
type_synonym file_system = "(path, string) dict"

fun split_on :: "char \<Rightarrow> string \<Rightarrow> string list" where
  "split_on c [] = [[]]"
| "split_on c (x # xs) =
     (if x = c then [] # split_on c xs
      else case split_on c xs of [] \<Rightarrow> [[x]] | p # ps \<Rightarrow> (x # p) # ps)"

text \<open>\<open>resolve()\<close> of the parts below a directory: \<open>..\<close> goes up, empty parts and \<open>.\<close> are dropped.\<close>

fun resolve_parts :: "path \<Rightarrow> string list \<Rightarrow> path" where
  "resolve_parts acc [] = acc"
| "resolve_parts acc (p # ps) =
     (if p = [] \<or> p = ''.'' then resolve_parts acc ps
      else if p = ''..'' then resolve_parts (butlast acc) ps
      else resolve_parts (acc @ [p]) ps)"

definition path_for :: "path \<Rightarrow> string \<Rightarrow> path res" where
  "path_for base key =
     (let normalized = dropWhile (\<lambda>c. c = CHR ''/'') (replace_char (CHR 92) (CHR ''/'') key);
          candidate = resolve_parts base (split_on (CHR ''/'') normalized)
      in if prefix base candidate then Inr candidate else Inl ValueError)"

definition is_dir :: "file_system \<Rightarrow> path \<Rightarrow> bool" where
  "is_dir fs p \<longleftrightarrow> list_ex (\<lambda>(q, _). strict_prefix p q) fs"

definition file_above :: "file_system \<Rightarrow> path \<Rightarrow> bool" where
  "file_above fs p \<longleftrightarrow> list_ex (\<lambda>(q, _). strict_prefix q p) fs"

section \<open>The local store\<close>

record local_store =
  ls_root :: path
  ls_bucket_name :: string

definition LOCAL_BUCKET_NAME :: string where "LOCAL_BUCKET_NAME = ''local''"

definition mk_local_store :: "path \<Rightarrow> string \<Rightarrow> local_store res" where
  "mk_local_store base bucket =
     (if blank bucket then Inl ValueError else Inr \<lparr>ls_root = base, ls_bucket_name = bucket\<rparr>)"

definition local_owns_receipt :: "local_store \<Rightarrow> string \<Rightarrow> string \<Rightarrow> bool" where
  "local_owns_receipt L provider bucket \<longleftrightarrow> provider = ''LOCAL'' \<and> bucket = ls_bucket_name L"

definition local_exists :: "local_store \<Rightarrow> file_system \<Rightarrow> string \<Rightarrow> bool res" where
  "local_exists L fs key = bindE (path_for (ls_root L) key) (\<lambda>p. Inr (has_key fs p))"

definition local_verify :: "(string \<Rightarrow> string) \<Rightarrow> local_store \<Rightarrow> file_system \<Rightarrow> string \<Rightarrow> string \<Rightarrow> verification res" where
  "local_verify sha L fs key expected =
     bindE (path_for (ls_root L) key) (\<lambda>p.
       case dget fs p of
         None \<Rightarrow> Inr (verification_result False [] 0 ''object missing'')
       | Some content \<Rightarrow>
           let actual = sha content in
           Inr (verification_result (actual = expected) actual (int (length content))
             (if actual = expected then [] else ''sha256 mismatch'')))"

definition local_verify_version ::
  "(string \<Rightarrow> string) \<Rightarrow> local_store \<Rightarrow> file_system \<Rightarrow> string \<Rightarrow> string \<Rightarrow> string \<Rightarrow> int \<Rightarrow> verification res" where
  "local_verify_version sha L fs key version expected bytes =
     bindE (path_for (ls_root L) key) (\<lambda>p.
       case dget fs p of
         None \<Rightarrow> Inr (verification_result False [] 0 ''object missing'')
       | Some content \<Rightarrow>
           let actual = sha content; n = int (length content) in
           if actual \<noteq> version then Inr (verification_result False actual n ''version mismatch'')
           else if actual \<noteq> expected then Inr (verification_result False actual n ''sha256 mismatch'')
           else if n \<noteq> bytes then Inr (verification_result False actual n ''byte size mismatch'')
           else Inr (verification_result True actual n []))"

definition local_open :: "local_store \<Rightarrow> file_system \<Rightarrow> string \<Rightarrow> string res" where
  "local_open L fs key =
     bindE (path_for (ls_root L) key) (\<lambda>p.
       case dget fs p of None \<Rightarrow> Inl (OtherError ''FileNotFoundError'') | Some content \<Rightarrow> Inr content)"

definition local_open_version :: "(string \<Rightarrow> string) \<Rightarrow> local_store \<Rightarrow> file_system \<Rightarrow> string \<Rightarrow> string \<Rightarrow> string res" where
  "local_open_version sha L fs key version =
     bindE (local_open L fs key) (\<lambda>content.
       if sha content = version then Inr content else Inl (OtherError ''FileNotFoundError''))"

text \<open>\<open>source\<close> is the content of the source file, \<open>None\<close> when there is no such file.\<close>

definition local_receipt :: "(string \<Rightarrow> string) \<Rightarrow> local_store \<Rightarrow> string \<Rightarrow> string \<Rightarrow> path \<Rightarrow> bool \<Rightarrow> receipt" where
  "local_receipt sha L key content p existed =
     \<lparr>rc_storage_provider = ''LOCAL'', rc_bucket_name = ls_bucket_name L, rc_object_key = key,
      rc_version_id = sha content, rc_content_hash = sha content, rc_byte_size = int (length content),
      rc_local_path = Some p, rc_etag = None, rc_created = (\<not> existed)\<rparr>"

definition local_put ::
  "(string \<Rightarrow> string) \<Rightarrow> (string \<Rightarrow> string) \<Rightarrow> local_store \<Rightarrow> string option \<Rightarrow> string \<Rightarrow> file_system
    \<Rightarrow> receipt res \<times> file_system" where
  "local_put sha copy L source key fs =
     (case source of
        None \<Rightarrow> (Inl (OtherError ''FileNotFoundError''), fs)
      | Some content \<Rightarrow>
          (case path_for (ls_root L) key of
             Inl e \<Rightarrow> (Inl e, fs)
           | Inr p \<Rightarrow>
               if file_above fs p then (Inl (OtherError ''OSError''), fs)
               else if has_key fs p \<or> is_dir fs p then
                 (case local_verify sha L fs key (sha content) of
                    Inl e \<Rightarrow> (Inl e, fs)
                  | Inr v \<Rightarrow> if vr_ok v then (Inr (local_receipt sha L key content p True), fs)
                             else (Inl (OtherError ''FileExistsError''), fs))
               else if sha (copy content) \<noteq> sha content then (Inl (OtherError ''OSError''), fs)
               else (Inr (local_receipt sha L key content p False), dset p (copy content) fs)))"

definition local_delete :: "(string \<Rightarrow> string) \<Rightarrow> local_store \<Rightarrow> receipt \<Rightarrow> file_system \<Rightarrow> unit res \<times> file_system" where
  "local_delete sha L r fs =
     (if \<not> rc_created r then (Inr (), fs)
      else case path_for (ls_root L) (rc_object_key r) of
          Inl e \<Rightarrow> (Inl e, fs)
        | Inr p \<Rightarrow>
            (case dget fs p of
               Some content \<Rightarrow> if sha content = rc_version_id r then (Inr (), dpop p fs) else (Inr (), fs)
             | None \<Rightarrow> (Inr (), fs)))"

section \<open>The contract of an object store\<close>

text \<open>
  What the publication relies on: a successful \<open>put\<close> leaves the bytes it names under the key, \<open>verify\<close>
  sees them, and no \<open>put\<close>, successful or not, changes an object that is already there.
\<close>

locale object_store =
  fixes put :: "string option \<Rightarrow> string \<Rightarrow> 's \<Rightarrow> receipt res \<times> 's"
    and verify :: "'s \<Rightarrow> string \<Rightarrow> string \<Rightarrow> verification res"
    and stored :: "'s \<Rightarrow> string \<Rightarrow> string option"
  assumes put_keeps: "put source key s = (r, s') \<Longrightarrow> stored s k = Some h \<Longrightarrow> stored s' k = Some h"
    and put_stores: "put source key s = (Inr rc, s') \<Longrightarrow> stored s' key = Some (rc_content_hash rc)"
    and verify_stored: "stored s key = Some h \<Longrightarrow> \<exists>v. verify s key h = Inr v \<and> vr_ok v"
begin

fun put_all :: "(string option \<times> string) list \<Rightarrow> 's \<Rightarrow> receipt res list \<times> 's" where
  "put_all [] s = ([], s)"
| "put_all ((source, key) # rest) s = (case put source key s of (r, s1) \<Rightarrow> case put_all rest s1 of (rs, s2) \<Rightarrow> (r # rs, s2))"

lemma put_all_keeps: "put_all ws s = (rs, s') \<Longrightarrow> stored s k = Some h \<Longrightarrow> stored s' k = Some h"
proof (induction ws arbitrary: s rs)
  case (Cons w ws)
  obtain source key where w: "w = (source, key)" by (cases w)
  obtain r s1 where put: "put source key s = (r, s1)" by (cases "put source key s")
  obtain rs' where "put_all ws s1 = (rs', s')" using Cons.prems(1) put by (auto simp: w split: prod.splits)
  then show ?case using Cons.IH put_keeps[OF put Cons.prems(2)] by blast
qed simp

lemma receipt_stays_valid:
  assumes "put source key s = (Inr rc, s1)" and "put_all ws s1 = (rs, s2)"
  shows "\<exists>v. verify s2 key (rc_content_hash rc) = Inr v \<and> vr_ok v"
  using verify_stored[OF put_all_keeps[OF assms(2) put_stores[OF assms(1)]]] .

end

definition local_stored :: "(string \<Rightarrow> string) \<Rightarrow> local_store \<Rightarrow> file_system \<Rightarrow> string \<Rightarrow> string option" where
  "local_stored sha L fs key =
     (case path_for (ls_root L) key of Inl _ \<Rightarrow> None | Inr p \<Rightarrow> map_option sha (dget fs p))"

lemma local_put_cases:
  assumes "local_put sha copy L source key fs = (r, fs')"
  obtains (failed) e where "r = Inl e" "fs' = fs"
  | (existed) content p old where "source = Some content" "path_for (ls_root L) key = Inr p" "dget fs p = Some old"
      "sha old = sha content" "r = Inr (local_receipt sha L key content p True)" "fs' = fs"
  | (created) content p where "source = Some content" "path_for (ls_root L) key = Inr p" "dget fs p = None"
      "sha (copy content) = sha content" "r = Inr (local_receipt sha L key content p False)" "fs' = dset p (copy content) fs"
proof (cases source)
  case None
  then show ?thesis using assms by (auto simp: local_put_def intro: failed)
next
  case source: (Some content)
  show ?thesis
  proof (cases "path_for (ls_root L) key")
    case (Inl e)
    then show ?thesis using assms source by (auto simp: local_put_def intro: failed)
  next
    case p: (Inr p)
    consider "file_above fs p" | "\<not> file_above fs p" "is_dir fs p" "dget fs p = None"
      | old where "\<not> file_above fs p" "dget fs p = Some old" | "\<not> file_above fs p" "\<not> is_dir fs p" "dget fs p = None"
      by (cases "dget fs p") auto
    then show ?thesis
    proof cases
      case 1
      then show ?thesis using assms source p by (auto simp: local_put_def intro: failed)
    next
      case 2
      then show ?thesis using assms source p
        by (auto simp: local_put_def local_verify_def verification_result_def intro: failed)
    next
      case 3
      then show ?thesis using assms source p
        by (cases "sha old = sha content")
           (auto simp: local_put_def local_verify_def verification_result_def has_key_def Let_def
             intro: failed existed[OF source p 3(2)])
    next
      case 4
      then show ?thesis using assms source p
        by (cases "sha (copy content) = sha content")
           (auto simp: local_put_def has_key_def intro: failed created[OF source p 4(3)])
    qed
  qed
qed

interpretation local_objects: object_store "local_put sha copy L" "local_verify sha L" "local_stored sha L" for sha copy L
proof
  fix source key fs r fs' k h
  assume put: "local_put sha copy L source key fs = (r, fs')" and old: "local_stored sha L fs k = Some h"
  from put show "local_stored sha L fs' k = Some h"
    by (cases rule: local_put_cases) (use old in \<open>auto simp: local_stored_def split: sum.splits\<close>)
next
  fix source key fs rc fs'
  assume "local_put sha copy L source key fs = (Inr rc, fs')"
  then show "local_stored sha L fs' key = Some (rc_content_hash rc)"
    by (cases rule: local_put_cases) (auto simp: local_stored_def local_receipt_def)
next
  fix fs key h
  assume "local_stored sha L fs key = Some h"
  then show "\<exists>v. local_verify sha L fs key h = Inr v \<and> vr_ok v"
    by (auto simp: local_stored_def local_verify_def verification_result_def split: sum.splits)
qed


text \<open>C21: An object of the local store is immutable and stays inside the root: once \<open>put\<close> returned a
  receipt, the object verifies against it after any further sequence of puts, successful or failed, and
  the path of the key lies below the root.\<close>

theorem local_object_immutable:
  assumes "local_put sha copy L source key fs = (Inr rc, fs1)"
    and "object_store.put_all (local_put sha copy L) ws fs1 = (rs, fs2)"
  shows "(\<exists>v. local_verify sha L fs2 key (rc_content_hash rc) = Inr v \<and> vr_ok v) \<and>
    (\<exists>p. path_for (ls_root L) key = Inr p \<and> prefix (ls_root L) p)"
proof -
  have "\<exists>p. path_for (ls_root L) key = Inr p" using assms(1) by (cases rule: local_put_cases) auto
  then show ?thesis using local_objects.receipt_stays_valid[OF assms]
    by (auto simp: path_for_def Let_def split: if_splits)
qed

text \<open>Deleting through a receipt takes back exactly what its \<open>put\<close> created: after put and delete every
  path holds what it held before, also when the object had already been there.\<close>

theorem delete_undoes_put:
  assumes "local_put sha copy L source key fs = (Inr rc, fs1)"
  shows "\<exists>fs2. local_delete sha L rc fs1 = (Inr (), fs2) \<and> (\<forall>p. dget fs2 p = dget fs p)"
  using assms
  by (cases rule: local_put_cases) (auto simp: local_delete_def local_receipt_def delete_conv' update_conv')

definition demo_store :: local_store where
  "demo_store = \<lparr>ls_root = [''srv''], ls_bucket_name = LOCAL_BUCKET_NAME\<rparr>"

lemma demo_put:
  "fst (local_put id id demo_store (Some ''x'') ''a/b'' []) =
     Inr \<lparr>rc_storage_provider = ''LOCAL'', rc_bucket_name = ''local'', rc_object_key = ''a/b'', rc_version_id = ''x'',
       rc_content_hash = ''x'', rc_byte_size = 1, rc_local_path = Some [''srv'', ''a'', ''b''], rc_etag = None, rc_created = True\<rparr>"
  by code_simp

theorem local_object_immutable_witness:
  "\<exists>rc fs1. local_put id id demo_store (Some ''x'') ''a/b'' [] = (Inr rc, fs1) \<and>
     (\<exists>rs fs2 v. object_store.put_all (local_put id id demo_store) [(Some ''y'', ''a/b'')] fs1 = (rs, fs2) \<and>
        local_verify id demo_store fs2 ''a/b'' (rc_content_hash rc) = Inr v \<and> vr_ok v)"
proof -
  obtain rc fs1 where put: "local_put id id demo_store (Some ''x'') ''a/b'' [] = (Inr rc, fs1)"
    using demo_put by (metis surj_pair fst_conv)
  obtain rs fs2 where more: "object_store.put_all (local_put id id demo_store) [(Some ''y'', ''a/b'')] fs1 = (rs, fs2)"
    by (metis surj_pair)
  show ?thesis using put more local_object_immutable[OF put more] by blast
qed

theorem delete_undoes_put_witness:
  "\<exists>rc fs1 fs2. local_put id id demo_store (Some ''x'') ''a/b'' [] = (Inr rc, fs1) \<and>
     local_delete id demo_store rc fs1 = (Inr (), fs2) \<and> (\<forall>p. dget fs2 p = dget [] p)"
proof -
  obtain rc fs1 where put: "local_put id id demo_store (Some ''x'') ''a/b'' [] = (Inr rc, fs1)"
    using demo_put by (metis surj_pair fst_conv)
  show ?thesis using put delete_undoes_put[OF put] by blast
qed

section \<open>The S3 store\<close>

text \<open>
  A service error carries the code and the HTTP status of the boto3 exception (both may be absent). The
  client's calls are functions of the service state; \<open>cl_sleep\<close> is the injected clock. A HEAD answer
  keeps the fields the code reads; \<open>so_hash\<close> and friends are what a PUT request asks to be stored.
\<close>

record s3_error =
  se_code :: string
  se_status :: "int option"

record s3_head =
  hd_metadata :: "(string, string) dict option"
  hd_length :: int
  hd_encryption :: "string option"
  hd_checksum :: "string option"
  hd_etag :: "string option"
  hd_version :: "string option"

record s3_object =
  so_hash :: string
  so_bytes :: int
  so_checksum :: string

datatype s3_failure = Service s3_error | Raised exc

record 's s3_client =
  cl_head :: "string \<Rightarrow> string option \<Rightarrow> 's \<Rightarrow> (s3_failure + s3_head) \<times> 's"
  cl_put :: "string \<Rightarrow> s3_object \<Rightarrow> 's \<Rightarrow> (s3_failure + string option) \<times> 's"
  cl_get :: "string \<Rightarrow> string option \<Rightarrow> 's \<Rightarrow> (s3_failure + string) \<times> 's"
  cl_delete :: "string \<Rightarrow> string \<Rightarrow> string \<Rightarrow> 's \<Rightarrow> (s3_failure + unit) \<times> 's"
  cl_sleep :: "rat \<Rightarrow> 's \<Rightarrow> 's"

record s3_store =
  s3_bucket :: string
  s3_prefix :: string
  s3_max_attempts :: nat
  s3_retry_delay :: rat

definition SSE_ALGORITHM :: string where "SSE_ALGORITHM = ''AES256''"

definition S3_RECEIPT_PROVIDERS :: "string list" where "S3_RECEIPT_PROVIDERS = [''S3'', ''S3_COMPATIBLE'']"

definition strip_slashes :: "string \<Rightarrow> string" where
  "strip_slashes s = rev (dropWhile (\<lambda>c. c = CHR ''/'') (rev (dropWhile (\<lambda>c. c = CHR ''/'') s)))"

definition mk_s3_store :: "string \<Rightarrow> string \<Rightarrow> int \<Rightarrow> rat \<Rightarrow> s3_store res" where
  "mk_s3_store bucket pre max_attempts delay =
     (if bucket = [] \<or> max_attempts < 1 \<or> delay < 0 then Inl ValueError
      else Inr \<lparr>s3_bucket = bucket, s3_prefix = strip_slashes pre, s3_max_attempts = nat max_attempts,
                s3_retry_delay = delay\<rparr>)"

definition s3_key :: "s3_store \<Rightarrow> string \<Rightarrow> string" where
  "s3_key S okey =
     (let normalized = dropWhile (\<lambda>c. c = CHR ''/'') okey in
      if s3_prefix S \<noteq> [] \<and> prefix (s3_prefix S @ ''/'') normalized then normalized
      else join ''/'' (filter (\<lambda>p. p \<noteq> []) [s3_prefix S, normalized]))"

definition s3_owns_receipt :: "s3_store \<Rightarrow> string \<Rightarrow> string \<Rightarrow> bool" where
  "s3_owns_receipt S provider bucket \<longleftrightarrow> provider \<in> set S3_RECEIPT_PROVIDERS \<and> bucket = s3_bucket S"

text \<open>\<open>str(metadata.get(k) or "")\<close>; contradictory claims read as none.\<close>

definition metadata_sha256 :: "(string, string) dict option \<Rightarrow> string" where
  "metadata_sha256 m =
     (case m of None \<Rightarrow> []
      | Some d \<Rightarrow>
          let get = (\<lambda>k. case dget d k of None \<Rightarrow> [] | Some v \<Rightarrow> v); a = get ''sha256''; l = get ''content-sha256'' in
          if a \<noteq> [] \<and> l \<noteq> [] \<and> a \<noteq> l then [] else if a \<noteq> [] then a else l)"

definition error_details :: "s3_failure \<Rightarrow> string \<times> int option" where
  "error_details e = (case e of Service s \<Rightarrow> (se_code s, se_status s) | Raised _ \<Rightarrow> ([], None))"

definition is_missing :: "s3_failure \<Rightarrow> bool" where
  "is_missing e = (case error_details e of (code, status) \<Rightarrow> status = Some 404 \<or> code \<in> {''404'', ''NoSuchKey'', ''NotFound''})"

definition is_precondition_failed :: "s3_failure \<Rightarrow> bool" where
  "is_precondition_failed e =
     (case error_details e of (code, status) \<Rightarrow> status = Some 412 \<or> code \<in> {''412'', ''PreconditionFailed''})"

definition is_retryable :: "s3_failure \<Rightarrow> bool" where
  "is_retryable e =
     (case error_details e of (code, status) \<Rightarrow>
        status \<in> Some ` {429, 500, 502, 503, 504} \<or>
        code \<in> {''429'', ''500'', ''502'', ''503'', ''504'', ''InternalError'', ''RequestTimeout'', ''RequestTimeoutException'',
                ''ServiceUnavailable'', ''SlowDown'', ''Throttling'', ''ThrottlingException''})"

definition retry_delay :: "s3_store \<Rightarrow> 's s3_client \<Rightarrow> nat \<Rightarrow> 's \<Rightarrow> 's" where
  "retry_delay S C attempt s =
     (let delay = s3_retry_delay S * 2 ^ (attempt - 1) in if 0 < delay then cl_sleep C delay s else s)"

text \<open>Attempt \<open>attempt\<close> with \<open>left\<close> attempts left, this one included.\<close>

fun retry_from ::
  "s3_store \<Rightarrow> 's s3_client \<Rightarrow> ('s \<Rightarrow> (s3_failure + 'v) \<times> 's) \<Rightarrow> nat \<Rightarrow> nat \<Rightarrow> 's \<Rightarrow> (s3_failure + 'v) \<times> 's" where
  "retry_from S C operation attempt 0 s = (Inl (Raised AssertionError), s)"
| "retry_from S C operation attempt (Suc left) s =
     (case operation s of
        (Inr v, s1) \<Rightarrow> (Inr v, s1)
      | (Inl e, s1) \<Rightarrow>
          if left = 0 \<or> \<not> is_retryable e then (Inl e, s1)
          else retry_from S C operation (Suc attempt) left (retry_delay S C attempt s1))"

definition call_with_retries where
  "call_with_retries S C operation s = retry_from S C operation 1 (s3_max_attempts S) s"

definition s3_head_of where
  "s3_head_of S C key version s = call_with_retries S C (cl_head C key version) s"

definition strip_quotes :: "string \<Rightarrow> string" where
  "strip_quotes s = rev (dropWhile (\<lambda>c. c = CHR 34) (rev (dropWhile (\<lambda>c. c = CHR 34) s)))"

definition or_none :: "string option \<Rightarrow> string option" where
  "or_none v = (if v = Some [] then None else v)"

definition receipt_from_head :: "s3_store \<Rightarrow> string \<Rightarrow> s3_object \<Rightarrow> s3_head \<Rightarrow> bool \<Rightarrow> bool \<Rightarrow> s3_failure + receipt" where
  "receipt_from_head S key o' h conflict created =
     (let actual = metadata_sha256 (hd_metadata h);
          etag = or_none (Some (strip_quotes (case hd_etag h of None \<Rightarrow> [] | Some e \<Rightarrow> e)));
          version = (case or_none (hd_version h) of Some v \<Rightarrow> Some v | None \<Rightarrow> etag)
      in if actual \<noteq> so_hash o' \<or> hd_length h \<noteq> so_bytes o'
         then Inl (Raised (if conflict then OtherError ''FileExistsError'' else RuntimeError))
         else if hd_encryption h \<noteq> Some SSE_ALGORITHM then Inl (Raised RuntimeError)
         else if hd_checksum h \<noteq> None \<and> hd_checksum h \<noteq> Some (so_checksum o') then Inl (Raised RuntimeError)
         else case version of
             None \<Rightarrow> Inl (Raised RuntimeError)
           | Some v \<Rightarrow> Inr
               \<lparr>rc_storage_provider = ''S3_COMPATIBLE'', rc_bucket_name = s3_bucket S, rc_object_key = key,
                rc_version_id = v, rc_content_hash = actual, rc_byte_size = hd_length h, rc_local_path = None,
                rc_etag = etag, rc_created = created\<rparr>)"

text \<open>The HEAD of what is there, turned into a receipt that does not own it.\<close>

definition reconcile where
  "reconcile S C key o' s =
     (case s3_head_of S C key None s of
        (Inl e, s1) \<Rightarrow> (Inl e, s1)
      | (Inr h, s1) \<Rightarrow> (receipt_from_head S key o' h True False, s1))"

definition confirm where
  "confirm S C key o' version s =
     (case s3_head_of S C key (or_none version) s of
        (Inl e, s1) \<Rightarrow> (Inl e, s1)
      | (Inr h, s1) \<Rightarrow> (receipt_from_head S key o' h False True, s1))"

fun put_from ::
  "s3_store \<Rightarrow> 's s3_client \<Rightarrow> string \<Rightarrow> s3_object \<Rightarrow> nat \<Rightarrow> nat \<Rightarrow> 's \<Rightarrow> (s3_failure + receipt) \<times> 's" where
  "put_from S C key o' attempt 0 s = confirm S C key o' None s"
| "put_from S C key o' attempt (Suc left) s =
     (case cl_put C key o' s of
        (Inr version, s1) \<Rightarrow> confirm S C key o' version s1
      | (Inl e, s1) \<Rightarrow>
          if is_precondition_failed e then reconcile S C key o' s1
          else if left = 0 \<or> \<not> is_retryable e then (Inl e, s1)
          else put_from S C key o' (Suc attempt) left (retry_delay S C attempt s1))"

definition s3_put ::
  "s3_store \<Rightarrow> 's s3_client \<Rightarrow> s3_object option \<Rightarrow> string \<Rightarrow> 's \<Rightarrow> (s3_failure + receipt) \<times> 's" where
  "s3_put S C source okey s =
     (case source of
        None \<Rightarrow> (Inl (Raised (OtherError ''FileNotFoundError'')), s)
      | Some o' \<Rightarrow>
          let key = s3_key S okey in
          case s3_head_of S C key None s of
            (Inr h, s1) \<Rightarrow> (receipt_from_head S key o' h True False, s1)
          | (Inl e, s1) \<Rightarrow> if is_missing e then put_from S C key o' 1 (s3_max_attempts S) s1 else (Inl e, s1))"

definition s3_exists where
  "s3_exists S C okey s =
     (case s3_head_of S C (s3_key S okey) None s of
        (Inr _, s1) \<Rightarrow> (Inr True, s1) | (Inl e, s1) \<Rightarrow> (if is_missing e then Inr False else Inl e, s1))"

definition s3_open where
  "s3_open S C okey s = call_with_retries S C (cl_get C (s3_key S okey) None) s"

definition s3_open_version where
  "s3_open_version S C okey version s = call_with_retries S C (cl_get C (s3_key S okey) (Some version)) s"

definition s3_delete :: "s3_store \<Rightarrow> 's s3_client \<Rightarrow> receipt \<Rightarrow> 's \<Rightarrow> (s3_failure + unit) \<times> 's" where
  "s3_delete S C r s =
     (if \<not> rc_created r then (Inr (), s)
      else if rc_version_id r = [] \<or> Some (rc_version_id r) = rc_etag r then (Inl (Raised RuntimeError), s)
      else call_with_retries S C (cl_delete C (rc_bucket_name r) (rc_object_key r) (rc_version_id r)) s)"

definition s3_verify where
  "s3_verify S C okey expected s =
     (case s3_head_of S C (s3_key S okey) None s of
        (Inl e, s1) \<Rightarrow>
          (if is_missing e then Inr (verification_result False [] 0 ''object missing'') else Inl e, s1)
      | (Inr h, s1) \<Rightarrow>
          let actual = metadata_sha256 (hd_metadata h) in
          (Inr (verification_result (actual = expected) actual (hd_length h)
             (if actual = expected then [] else ''sha256 metadata mismatch'')), s1))"

definition s3_verify_version where
  "s3_verify_version base64_of_hex S C okey version expected bytes s =
     (case s3_head_of S C (s3_key S okey) (or_none (Some version)) s of
        (Inl e, s1) \<Rightarrow>
          (if is_missing e then Inr (verification_result False [] 0 ''object version missing'') else Inl e, s1)
      | (Inr h, s1) \<Rightarrow>
          let actual = metadata_sha256 (hd_metadata h); n = hd_length h;
              claimed = (case hd_version h of None \<Rightarrow> [] | Some v \<Rightarrow> v) in
          (if claimed \<noteq> version then Inr (verification_result False actual n ''version mismatch'')
           else if actual \<noteq> expected then Inr (verification_result False actual n ''sha256 metadata mismatch'')
           else if n \<noteq> bytes then Inr (verification_result False actual n ''byte size mismatch'')
           else if hd_encryption h \<noteq> Some SSE_ALGORITHM then Inr (verification_result False actual n ''SSE-S3 mismatch'')
           else case base64_of_hex expected of
               None \<Rightarrow> Inl (Raised ValueError)
             | Some checksum \<Rightarrow>
                 if hd_checksum h \<noteq> None \<and> hd_checksum h \<noteq> Some checksum
                 then Inr (verification_result False actual n ''ChecksumSHA256 mismatch'')
                 else Inr (verification_result True actual n []), s1))"

section \<open>A receipt of the S3 store is true\<close>

text \<open>
  What S3 documents, over \<open>stored\<close>, the object a key holds: calls and waiting only ever add objects (every
  writer uses a conditional PUT and nobody deletes), a HEAD that answers describes the object the key
  holds, and a PUT that answers has stored the object; a PUT whose answer was lost may have stored it.
\<close>

definition s3_grows :: "('s \<Rightarrow> string \<Rightarrow> s3_object option) \<Rightarrow> 's \<Rightarrow> 's \<Rightarrow> bool" where
  "s3_grows stored s s' \<longleftrightarrow> (\<forall>k o'. stored s k = Some o' \<longrightarrow> stored s' k = Some o')"

definition describes :: "s3_head \<Rightarrow> s3_object option \<Rightarrow> bool" where
  "describes h held \<longleftrightarrow>
     (metadata_sha256 (hd_metadata h) \<noteq> [] \<longrightarrow>
      (\<exists>o'. held = Some o' \<and> so_hash o' = metadata_sha256 (hd_metadata h) \<and> so_bytes o' = hd_length h))"

definition s3_contract :: "('s \<Rightarrow> string \<Rightarrow> s3_object option) \<Rightarrow> 's s3_client \<Rightarrow> bool" where
  "s3_contract stored C \<longleftrightarrow>
     (\<forall>key v s r s'. cl_head C key v s = (r, s') \<longrightarrow>
        s3_grows stored s s' \<and> (\<forall>h. r = Inr h \<longrightarrow> describes h (stored s' key))) \<and>
     (\<forall>key o' s r s'. cl_put C key o' s = (r, s') \<longrightarrow>
        s3_grows stored s s' \<and> (\<forall>v. r = Inr v \<longrightarrow> stored s' key = Some o')) \<and>
     (\<forall>d s. s3_grows stored s (cl_sleep C d s))"

lemma grows_refl [simp]: "s3_grows stored s s"
  by (simp add: s3_grows_def)

lemma grows_trans: "s3_grows stored s s' \<Longrightarrow> s3_grows stored s' s'' \<Longrightarrow> s3_grows stored s s''"
  by (simp add: s3_grows_def)

lemma delay_grows: "s3_contract stored C \<Longrightarrow> s3_grows stored s (retry_delay S C n s)"
  by (simp add: retry_delay_def s3_contract_def Let_def)

lemma retry_from_last:
  assumes "s3_contract stored C"
    and step: "\<And>s r s'. operation s = (r, s') \<Longrightarrow> s3_grows stored s s' \<and> (\<forall>v. r = Inr v \<longrightarrow> Q v s')"
  shows "retry_from S C operation n left s = (r, s') \<Longrightarrow> s3_grows stored s s' \<and> (\<forall>v. r = Inr v \<longrightarrow> Q v s')"
proof (induction left arbitrary: n s)
  case (Suc left)
  obtain x s1 where op: "operation s = (x, s1)" by (cases "operation s")
  show ?case
  proof (cases "\<exists>e. x = Inl e \<and> left \<noteq> 0 \<and> is_retryable e")
    case True
    then have "retry_from S C operation (Suc n) left (retry_delay S C n s1) = (r, s')" using Suc.prems op by auto
    from Suc.IH[OF this] show ?thesis
      using step[OF op] delay_grows[OF assms(1), of s1 S n] by (meson grows_trans)
  next
    case False
    then have "r = x" "s' = s1" using Suc.prems op by (auto split: sum.splits if_splits)
    then show ?thesis using step[OF op] by simp
  qed
qed auto

lemma head_facts:
  assumes "s3_contract stored C" and "s3_head_of S C key v s = (r, s')"
  shows "s3_grows stored s s'" and "r = Inr h \<Longrightarrow> describes h (stored s' key)"
  using retry_from_last[OF assms(1), of "cl_head C key v" "\<lambda>h s. describes h (stored s key)" S 1 "s3_max_attempts S" s r s'] assms
  by (auto simp: s3_head_of_def call_with_retries_def s3_contract_def)

definition true_receipt :: "('s \<Rightarrow> string \<Rightarrow> s3_object option) \<Rightarrow> string \<Rightarrow> s3_object \<Rightarrow> receipt \<Rightarrow> 's \<Rightarrow> bool" where
  "true_receipt stored key o' rc s \<longleftrightarrow>
     rc_object_key rc = key \<and> rc_content_hash rc = so_hash o' \<and> rc_byte_size rc = so_bytes o' \<and>
     (\<exists>held. stored s key = Some held \<and> so_hash held = so_hash o' \<and> so_bytes held = so_bytes o')"

lemma receipt_true:
  assumes "receipt_from_head S key o' h conflict created = Inr rc" and "describes h (stored s key)" and "so_hash o' \<noteq> []"
  shows "true_receipt stored key o' rc s \<and> rc_created rc = created"
  using assms by (auto simp: receipt_from_head_def Let_def describes_def true_receipt_def split: if_splits option.splits)

lemma receipt_case:
  "describes h (stored s key) \<Longrightarrow> so_hash o' \<noteq> [] \<Longrightarrow>
   \<forall>rc. receipt_from_head S key o' h conflict created = Inr rc \<longrightarrow> true_receipt stored key o' rc s \<and> rc_created rc = created"
  by (intro allI impI receipt_true)

lemma reconcile_true:
  assumes "s3_contract stored C" and "so_hash o' \<noteq> []"
  shows "reconcile S C key o' s = (r, s') \<Longrightarrow>
    s3_grows stored s s' \<and> (\<forall>rc. r = Inr rc \<longrightarrow> true_receipt stored key o' rc s' \<and> \<not> rc_created rc)"
  and "confirm S C key o' version s = (r, s') \<Longrightarrow>
    s3_grows stored s s' \<and> (\<forall>rc. r = Inr rc \<longrightarrow> true_receipt stored key o' rc s' \<and> rc_created rc)"
proof -
  assume run: "reconcile S C key o' s = (r, s')"
  obtain x s1 where head: "s3_head_of S C key None s = (x, s1)" by (cases "s3_head_of S C key None s")
  show "s3_grows stored s s' \<and> (\<forall>rc. r = Inr rc \<longrightarrow> true_receipt stored key o' rc s' \<and> \<not> rc_created rc)"
  proof (cases x)
    case (Inr h)
    then have r: "r = receipt_from_head S key o' h True False" "s' = s1" using run head by (auto simp: reconcile_def)
    show ?thesis unfolding r
      using head_facts(1)[OF assms(1) head] receipt_case[where stored = stored, OF head_facts(2)[OF assms(1) head Inr] assms(2)] by blast
  qed (use run head head_facts[OF assms(1) head] in \<open>auto simp: reconcile_def\<close>)
next
  assume run: "confirm S C key o' version s = (r, s')"
  obtain x s1 where head: "s3_head_of S C key (or_none version) s = (x, s1)" by (cases "s3_head_of S C key (or_none version) s")
  show "s3_grows stored s s' \<and> (\<forall>rc. r = Inr rc \<longrightarrow> true_receipt stored key o' rc s' \<and> rc_created rc)"
  proof (cases x)
    case (Inr h)
    then have r: "r = receipt_from_head S key o' h False True" "s' = s1" using run head by (auto simp: confirm_def)
    show ?thesis unfolding r
      using head_facts(1)[OF assms(1) head] receipt_case[where stored = stored, OF head_facts(2)[OF assms(1) head Inr] assms(2)] by blast
  qed (use run head head_facts[OF assms(1) head] in \<open>auto simp: confirm_def\<close>)
qed

lemma put_from_true:
  assumes c: "s3_contract stored C" and h: "so_hash o' \<noteq> []"
  shows "put_from S C key o' n left s = (r, s') \<Longrightarrow>
    s3_grows stored s s' \<and> (\<forall>rc. r = Inr rc \<longrightarrow> true_receipt stored key o' rc s')"
proof (induction left arbitrary: n s)
  case 0
  then show ?case using reconcile_true(2)[OF c h] by simp
next
  case (Suc left)
  obtain x s1 where put: "cl_put C key o' s = (x, s1)" by (cases "cl_put C key o' s")
  have g: "s3_grows stored s s1" using c put unfolding s3_contract_def by blast
  show ?case
  proof (cases x)
    case (Inr version)
    then have "confirm S C key o' version s1 = (r, s')" using Suc.prems put by simp
    from reconcile_true(2)[OF c h this] show ?thesis by (blast intro: grows_trans[OF g])
  next
    case x: (Inl e)
    consider "is_precondition_failed e" | "\<not> is_precondition_failed e" "left = 0 \<or> \<not> is_retryable e"
      | "\<not> is_precondition_failed e" "\<not> (left = 0 \<or> \<not> is_retryable e)" by blast
    then show ?thesis
    proof cases
      case 1
      then have "reconcile S C key o' s1 = (r, s')" using Suc.prems put x by simp
      from reconcile_true(1)[OF c h this] show ?thesis by (blast intro: grows_trans[OF g])
    next
      case 2
      then have "r = Inl e" "s' = s1" using Suc.prems put x by auto
      then show ?thesis using g by simp
    next
      case 3
      then have "put_from S C key o' (Suc n) left (retry_delay S C n s1) = (r, s')" using Suc.prems put x by simp
      from Suc.IH[OF this] show ?thesis by (blast intro: grows_trans[OF grows_trans[OF g delay_grows[OF c, of s1 S n]]])
    qed
  qed
qed

text \<open>C20: A receipt of the S3 store is true however the upload went (first try, retries after lost answers, a
  race with another writer): when \<open>put\<close> returns one, the key holds an object of exactly the source's
  hash and size, the receipt names that key, hash and size, and no object that was there before changed.\<close>

theorem s3_receipt_is_true:
  assumes c: "s3_contract stored C" and h: "so_hash o' \<noteq> []" and run: "s3_put S C (Some o') okey s = (r, s')"
  shows "s3_grows stored s s' \<and> (\<forall>rc. r = Inr rc \<longrightarrow> true_receipt stored (s3_key S okey) o' rc s')"
proof -
  define key where "key = s3_key S okey"
  obtain x s1 where head: "s3_head_of S C key None s = (x, s1)" by (cases "s3_head_of S C key None s")
  note facts = head_facts[OF c head]
  show ?thesis
  proof (cases x)
    case (Inr h')
    then have r: "r = receipt_from_head S key o' h' True False" "s' = s1" using run head by (auto simp: s3_put_def key_def Let_def)
    show ?thesis unfolding r using facts(1) receipt_case[where stored = stored, OF facts(2)[OF Inr] h] unfolding key_def by blast
  next
    case x: (Inl e)
    show ?thesis
    proof (cases "is_missing e")
      case True
      then have "put_from S C key o' 1 (s3_max_attempts S) s1 = (r, s')" using run head x by (auto simp: s3_put_def key_def Let_def)
      from put_from_true[OF c h this] show ?thesis unfolding key_def by (blast intro: grows_trans[OF facts(1)])
    next
      case False
      then have "r = Inl e" "s' = s1" using run head x by (auto simp: s3_put_def key_def Let_def)
      then show ?thesis using facts(1) by simp
    qed
  qed
qed

text \<open>A service that stores the first PUT of a key and loses the answer.\<close>

type_synonym lossy = "(string, s3_object) dict"

definition missing_error :: s3_failure where
  "missing_error = Service \<lparr>se_code = ''NoSuchKey'', se_status = Some 404\<rparr>"

definition lossy_client :: "lossy s3_client" where
  "lossy_client =
     \<lparr>cl_head = (\<lambda>key _ s. (case dget s key of None \<Rightarrow> Inl missing_error
         | Some o' \<Rightarrow> Inr \<lparr>hd_metadata = Some [(''sha256'', so_hash o')], hd_length = so_bytes o', hd_encryption = Some SSE_ALGORITHM,
             hd_checksum = None, hd_etag = None, hd_version = Some ''1''\<rparr>, s)),
      cl_put = (\<lambda>key o' s. if has_key s key then (Inl (Service \<lparr>se_code = ''PreconditionFailed'', se_status = Some 412\<rparr>), s)
         else (Inl (Service \<lparr>se_code = ''SlowDown'', se_status = Some 503\<rparr>), dset key o' s)),
      cl_get = (\<lambda>_ _ s. (Inl missing_error, s)), cl_delete = (\<lambda>_ _ _ s. (Inr (), s)), cl_sleep = (\<lambda>_ s. s)\<rparr>"

definition demo_s3 :: s3_store where
  "demo_s3 = \<lparr>s3_bucket = ''b'', s3_prefix = [], s3_max_attempts = 3, s3_retry_delay = 1 / 10\<rparr>"

definition demo_object :: s3_object where
  "demo_object = \<lparr>so_hash = ''h'', so_bytes = 1, so_checksum = ''c''\<rparr>"

theorem s3_receipt_is_true_witness:
  "\<exists>rc s'. s3_put demo_s3 lossy_client (Some demo_object) ''k'' [] = (Inr rc, s') \<and> \<not> rc_created rc \<and>
     true_receipt dget ''k'' demo_object rc s'"
proof -
  have "s3_contract dget lossy_client"
    by (auto simp: s3_contract_def lossy_client_def s3_grows_def describes_def metadata_sha256_def Let_def has_key_def update_conv'
        split: option.splits if_splits)
  moreover have "so_hash demo_object \<noteq> []" by (simp add: demo_object_def)
  moreover obtain rc s' where run: "s3_put demo_s3 lossy_client (Some demo_object) ''k'' [] = (Inr rc, s')" and nc: "\<not> rc_created rc"
  proof -
    have "case s3_put demo_s3 lossy_client (Some demo_object) ''k'' [] of (Inl _, _) \<Rightarrow> False | (Inr rc, _) \<Rightarrow> \<not> rc_created rc"
      by code_simp
    then show thesis using that by (auto split: prod.splits sum.splits)
  qed
  moreover have "s3_key demo_s3 ''k'' = ''k''" by code_simp
  ultimately show ?thesis using s3_receipt_is_true[of dget lossy_client demo_object demo_s3 "''k''" "[]" "Inr rc" s'] by auto
qed

end
