(* ===== verification/Engine_Publication.thy ===== *)
theory Engine_Publication
  imports Bar_Tables Object_Store Quality_Recording Watermarks
begin

text \<open>
  \<open>market_pipeline_lib/engine.py\<close>, the publication of a dataset revision: revision numbers, the
  writing of objects, the one catalog transaction and the watermark it projects, and the pipeline run it
  is attributed to. The catalog is the local catalog, the object store any store with \<open>put\<close> and
  \<open>verify\<close>, the watermark repository any \<open>advance\<close>. Parameters: pyarrow's file bytes and memory
  sizes, SHA-256, \<open>json.dumps\<close>, the message texts, the trading calendar.
\<close>

record ('s, 'w) world =
  ew_env :: env
  ew_str :: "pyobj \<Rightarrow> string"
  ew_remark :: "string \<Rightarrow> instant \<Rightarrow> instant \<Rightarrow> string"
  ew_calendar :: calendar_env
  ew_say :: say
  ew_text :: "exc \<Rightarrow> string"
  ew_sha :: "string \<Rightarrow> string"
  ew_json :: "pyval \<Rightarrow> string"
  ew_parquet :: "provider_bar list \<Rightarrow> string res"
  ew_nbytes :: "provider_bar list \<Rightarrow> int"
  ew_put :: "string option \<Rightarrow> string \<Rightarrow> 's \<Rightarrow> receipt res \<times> 's"
  ew_verify :: "'s \<Rightarrow> string \<Rightarrow> string \<Rightarrow> verification res"
  ew_advance :: "('w \<Rightarrow> stream_watermark \<Rightarrow> stream_watermark \<times> 'w) option"

record pipeline_config =
  pc_shard_count :: int
  pc_target_size_mib :: int
  pc_max_size_mib :: int
  pc_revision :: "int option"
  pc_resume :: bool
  pc_dry_run :: bool

record ('s, 'w) engine =
  en_catalog :: local_catalog
  en_objects :: 's
  en_watermarks :: 'w
  en_run :: "string option"

definition SCHEMA_VERSION :: string where "SCHEMA_VERSION = ''market-bars-v2''"

text \<open>\<open>known_calendar\<close>: whether the calendar library knows the configured name.\<close>

definition validate_config :: "bool \<Rightarrow> pipeline_config \<Rightarrow> unit res" where
  "validate_config known_calendar cf =
     (if pc_shard_count cf \<le> 0 \<or> pc_target_size_mib cf \<le> 0 \<or> pc_max_size_mib cf < pc_target_size_mib cf
         \<or> (case pc_revision cf of None \<Rightarrow> False | Some r \<Rightarrow> r \<le> 0)
      then Inl ValueError else guardE known_calendar RuntimeError)"

definition feed_id_of :: "env \<Rightarrow> string \<Rightarrow> string" where
  "feed_id_of E code = deterministic_uuid E [''feed'', PROVIDER_CODE, code]"

definition offset_text :: "instant \<Rightarrow> string" where
  "offset_text t = iso_body t @ ''+00:00''"

section \<open>Provider metadata and runs\<close>

definition provider_row :: "env \<Rightarrow> instant \<Rightarrow> doc" where
  "provider_row E now =
     [(''id'', VStr (deterministic_uuid E [''provider'', PROVIDER_CODE])), (''code'', VStr PROVIDER_CODE),
      (''display_name'', VStr ''Alpaca''), (''rights_version'', VStr ''UNVERIFIED''),
      (''status'', VStr ''REVIEW_REQUIRED''), (''created_at'', VStr (offset_text now))]"

definition feed_row :: "env \<Rightarrow> instant \<Rightarrow> string \<times> string \<times> string \<Rightarrow> doc" where
  "feed_row E now m =
     (case m of (code, resolution, version) \<Rightarrow>
        [(''id'', VStr (feed_id_of E code)), (''provider_id'', VStr (deterministic_uuid E [''provider'', PROVIDER_CODE])),
         (''code'', VStr code), (''data_kind'', VStr ''BARS''), (''resolution'', VStr resolution),
         (''timezone_name'', VStr ''America/New_York''), (''feed_version'', VStr version),
         (''created_at'', VStr (offset_text now)), (''retired_at'', VNone)])"

definition ensure_provider_metadata :: "env \<Rightarrow> (pyobj \<Rightarrow> string) \<Rightarrow> instant \<Rightarrow> local_catalog \<Rightarrow> unit res \<times> local_catalog" where
  "ensure_provider_metadata E f now c =
     run_ops E f (Upsert ''market_data.providers'' (as_record_of (provider_row E now))
       # map (\<lambda>m. Upsert ''market_data.feeds'' (as_record_of (feed_row E now m))) FEED_METADATA) c"

definition run_row :: "('s, 'w) world \<Rightarrow> string \<Rightarrow> string \<Rightarrow> instant \<Rightarrow> doc" where
  "run_row W code key now =
     [(''id'', VStr (deterministic_uuid (ew_env W) [''pipeline-run'', code, key])), (''pipeline_code'', VStr code),
      (''pipeline_version'', VStr SCHEMA_VERSION), (''idempotency_key'', VStr key), (''status'', VStr ''RUNNING''),
      (''input_hash'', VStr (ew_sha W key)), (''output_hash'', VNone), (''started_at'', VStr (offset_text now)),
      (''completed_at'', VNone), (''failure_code'', VNone)]"

definition run_record :: "('s, 'w) world \<Rightarrow> string \<Rightarrow> string \<Rightarrow> instant \<Rightarrow> local_catalog \<Rightarrow> doc res \<times> local_catalog" where
  "run_record W code key now c =
     (let E = ew_env W; f = ew_str W; row = run_row W code key now in
      case bindE (pipeline_run E f c (deterministic_uuid E [''pipeline-run'', code, key])) (\<lambda>existing.
             case existing of
               None \<Rightarrow> Inr None
             | Some r \<Rightarrow> bindE (item_is r ''status'' ''SUCCEEDED'') (\<lambda>b. Inr (if b then Some r else None))) of
        Inl e \<Rightarrow> (Inl e, c)
      | Inr (Some r) \<Rightarrow> (Inr (dset ''_reused'' (VBool True) r), c)
      | Inr None \<Rightarrow>
          (case begin_pipeline_run E f (as_record_of row) c of (Inl e, c1) \<Rightarrow> (Inl e, c1) | (Inr _, c1) \<Rightarrow> (Inr row, c1)))"

definition text_item :: "(pyobj \<Rightarrow> string) \<Rightarrow> doc \<Rightarrow> string \<Rightarrow> string" where
  "text_item f r k = py_str f (dget_none r k)"

definition start_run :: "('s, 'w) world \<Rightarrow> string \<Rightarrow> string \<Rightarrow> instant \<Rightarrow> ('s, 'w) engine \<Rightarrow> doc res \<times> ('s, 'w) engine" where
  "start_run W code key now s =
     (case run_record W code key now (en_catalog s) of
        (Inl e, c) \<Rightarrow> (Inl e, s\<lparr>en_catalog := c\<rparr>)
      | (Inr r, c) \<Rightarrow> (Inr r, s\<lparr>en_catalog := c, en_run := Some (text_item (ew_str W) r ''id'')\<rparr>))"

definition active_run_id :: "string option \<Rightarrow> string res" where
  "active_run_id run = (case run of None \<Rightarrow> Inl RuntimeError | Some r \<Rightarrow> Inr r)"

section \<open>Revisions\<close>

definition doc_int :: "doc \<Rightarrow> string \<Rightarrow> int res" where
  "doc_int r k = bindE (get_item r k) (\<lambda>v. issue_int (OVal v))"

definition next_revision ::
  "('s, 'w) world \<Rightarrow> pipeline_config \<Rightarrow> local_catalog \<Rightarrow> dataset_contract \<Rightarrow> int \<Rightarrow> (int \<times> doc option) res" where
  "next_revision W cf c contract year =
     bindE (latest_available_manifest (ew_env W) (ew_str W) c (feed_id_of (ew_env W) (dc_feed_code contract))
              (dc_data_layer contract) (dc_resolution contract) year None) (\<lambda>latest.
       case (pc_revision cf, latest) of
         (Some r, None) \<Rightarrow> Inr (r, None)
       | (Some r, Some m) \<Rightarrow>
           bindE (doc_int m ''revision_number'') (\<lambda>n. if r < n then Inl ValueError else Inr (r, Some m))
       | (None, None) \<Rightarrow> Inr (1, None)
       | (None, Some m) \<Rightarrow> bindE (doc_int m ''revision_number'') (\<lambda>n. Inr (n + 1, Some m)))"

section \<open>Writing objects\<close>

record group =
  gr_granularity :: string
  gr_partition_start :: date
  gr_partition_end :: date
  gr_shard_key :: string
  gr_schema :: "schema_field list"
  gr_rows :: "provider_bar list"
  gr_source_ids :: "string list"

record new_object =
  no_storage :: doc
  no_relation :: doc
  no_source_ids :: "string list"

definition bar_duration :: "string \<Rightarrow> int res" where
  "bar_duration resolution =
     (case dget [(''1m'', 1), (''30m'', 30), (''1h'', 60), (''4h'', 240), (''1d'', 1440)] resolution of
        None \<Rightarrow> Inl KeyError | Some m \<Rightarrow> Inr (m * minute_micros))"

definition first_start :: "provider_bar list \<Rightarrow> instant" where
  "first_start rows = fold min (map b_start (tl rows)) (b_start (hd rows))"

definition latest_start :: "provider_bar list \<Rightarrow> instant" where
  "latest_start rows = fold max (map b_start (tl rows)) (b_start (hd rows))"

definition table_period_end :: "dataset_contract \<Rightarrow> provider_bar list \<Rightarrow> instant res" where
  "table_period_end contract rows =
     (if \<not> has_source_minutes contract
      then bindE (bar_duration (dc_resolution contract)) (\<lambda>d. Inr (latest_start rows + d))
      else let ms = map b_source_minutes (filter (\<lambda>b. b_start b = latest_start rows) rows)
           in Inr (latest_start rows + fold max (tl ms) (hd ms) * minute_micros))"

definition storage_row :: "receipt \<Rightarrow> string \<Rightarrow> provider_bar list \<Rightarrow> instant \<Rightarrow> instant \<Rightarrow> doc" where
  "storage_row rc object_id rows period_end now =
     [(''id'', VStr object_id), (''status'', VStr ''AVAILABLE''), (''storage_provider'', VStr (rc_storage_provider rc)),
      (''bucket_name'', VStr (rc_bucket_name rc)), (''object_key'', VStr (rc_object_key rc)),
      (''provider_version_id'', VStr (rc_version_id rc)), (''content_hash'', VStr (rc_content_hash rc)),
      (''byte_size'', VInt (rc_byte_size rc)), (''file_format'', VStr ''PARQUET''),
      (''compression_codec'', VStr ''UNCOMPRESSED''), (''media_type'', VStr ''application/vnd.apache.parquet''),
      (''schema_version'', VStr SCHEMA_VERSION), (''row_count'', VInt (int (length rows))),
      (''period_start'', VStr (iso_utc (first_start rows))), (''period_end'', VStr (iso_utc period_end)),
      (''encryption_key_ref'', VNone), (''retention_policy_version'', VStr ''UNSPECIFIED''), (''retention_until'', VNone),
      (''legal_hold'', VBool False), (''created_at'', VStr (offset_text now)), (''verified_at'', VStr (offset_text now)),
      (''quarantined_at'', VNone), (''superseded_at'', VNone), (''deleted_at'', VNone)]"

definition list_min :: "'a::linorder list \<Rightarrow> 'a" where "list_min xs = fold min (tl xs) (hd xs)"
definition list_max :: "'a::linorder list \<Rightarrow> 'a" where "list_max xs = fold max (tl xs) (hd xs)"

definition relation_row :: "env \<Rightarrow> string \<Rightarrow> group \<Rightarrow> int \<Rightarrow> string \<Rightarrow> provider_bar list \<Rightarrow> instant \<Rightarrow> doc" where
  "relation_row E manifest_id g part object_id rows period_end =
     [(''id'', VStr (deterministic_uuid E [''dataset-object'', manifest_id, object_id])),
      (''dataset_manifest_id'', VStr manifest_id), (''object_id'', VStr object_id), (''object_kind'', VStr ''MARKET_BARS''),
      (''partition_granularity'', VStr (gr_granularity g)),
      (''partition_start'', VStr (isoformat_date (gr_partition_start g))),
      (''partition_end'', VStr (isoformat_date (gr_partition_end g))),
      (''period_start'', VStr (iso_utc (first_start rows))), (''period_end'', VStr (iso_utc period_end)),
      (''shard_key'', VStr (gr_shard_key g)), (''part_number'', VInt part), (''row_count'', VInt (int (length rows))),
      (''min_instrument_id'', VStr (list_min (map b_instrument rows))),
      (''max_instrument_id'', VStr (list_max (map b_instrument rows)))]"

definition new_object_of :: "env \<Rightarrow> string \<Rightarrow> group \<Rightarrow> int \<Rightarrow> receipt \<Rightarrow> string \<Rightarrow> provider_bar list \<Rightarrow> instant \<Rightarrow> instant \<Rightarrow> new_object" where
  "new_object_of E manifest_id g part rc key rows period_end now =
     (let object_id = deterministic_uuid E [''storage-object'', rc_content_hash rc, key] in
      \<lparr>no_storage = storage_row rc object_id rows period_end now,
       no_relation = relation_row E manifest_id g part object_id rows period_end, no_source_ids = gr_source_ids g\<rparr>)"

text \<open>One part: every failure is caught by the caller and becomes an incident.\<close>

definition publish_part ::
  "('s, 'w) world \<Rightarrow> dataset_contract \<Rightarrow> string \<Rightarrow> int \<Rightarrow> string \<Rightarrow> instant \<Rightarrow> group \<Rightarrow> int \<Rightarrow> provider_bar list \<Rightarrow> 's
    \<Rightarrow> new_object res \<times> 's" where
  "publish_part W contract dataset_id revision manifest_id now g part rows s =
     (case bindE (object_key contract dataset_id revision (gr_granularity g) (gr_partition_start g) (gr_partition_end g)
              (gr_shard_key g) part) (\<lambda>key. bindE (ew_parquet W rows) (\<lambda>content. Inr (key, content))) of
        Inl e \<Rightarrow> (Inl e, s)
      | Inr (key, content) \<Rightarrow>
          (case ew_put W (Some content) key s of
             (Inl e, s1) \<Rightarrow> (Inl e, s1)
           | (Inr rc, s1) \<Rightarrow>
               (bindE (ew_verify W s1 key (rc_content_hash rc)) (\<lambda>v.
                bindE (guardE (vr_ok v) (OtherError ''OSError'')) (\<lambda>_.
                bindE (table_period_end contract rows) (\<lambda>period_end.
                  Inr (new_object_of (ew_env W) manifest_id g part rc key rows period_end now)))), s1)))"

record 's writing =
  wg_counters :: "(string \<times> string \<times> string, int) dict"
  wg_store :: 's
  wg_objects :: "new_object list"
  wg_incidents :: "obj_record list"

definition partition_entries :: "group \<Rightarrow> obj_record \<Rightarrow> obj_record" where
  "partition_entries g issue =
     dset ''partition_end'' (OVal (VStr (isoformat_date (gr_partition_end g))))
       (dset ''partition_start'' (OVal (VStr (isoformat_date (gr_partition_start g))))
         (dset ''shard_key'' (OVal (VStr (gr_shard_key g))) issue))"

definition publish_failed :: "('s, 'w) world \<Rightarrow> group \<Rightarrow> exc \<Rightarrow> obj_record" where
  "publish_failed W g e =
     partition_entries g (as_record_of [(''severity'', VStr ''ERROR''), (''code'', VStr ''OBJECT_PUBLISH_FAILED''),
       (''message'', VStr (ew_text W e))])"

fun publish_parts ::
  "('s, 'w) world \<Rightarrow> dataset_contract \<Rightarrow> string \<Rightarrow> int \<Rightarrow> string \<Rightarrow> instant \<Rightarrow> group \<Rightarrow> provider_bar list list \<Rightarrow> 's writing
    \<Rightarrow> 's writing" where
  "publish_parts W contract dataset_id revision manifest_id now g [] st = st"
| "publish_parts W contract dataset_id revision manifest_id now g (rows # rest) st =
     (let key = (gr_granularity g, isoformat_date (gr_partition_start g), gr_shard_key g);
          part = (case dget (wg_counters st) key of None \<Rightarrow> 1 | Some n \<Rightarrow> n + 1);
          st1 = st\<lparr>wg_counters := dset key part (wg_counters st)\<rparr>
      in case publish_part W contract dataset_id revision manifest_id now g part rows (wg_store st) of
           (Inl e, s) \<Rightarrow> publish_parts W contract dataset_id revision manifest_id now g rest
                            (st1\<lparr>wg_store := s, wg_incidents := wg_incidents st @ [publish_failed W g e]\<rparr>)
         | (Inr o', s) \<Rightarrow> publish_parts W contract dataset_id revision manifest_id now g rest
                            (st1\<lparr>wg_store := s, wg_objects := wg_objects st @ [o']\<rparr>))"

definition is_error :: "obj_record \<Rightarrow> bool res" where
  "is_error issue = bindE (issue_item issue ''severity'') (\<lambda>v. Inr (v = OVal (VStr ''ERROR'')))"

definition file_size_of :: "('s, 'w) world \<Rightarrow> provider_bar list \<Rightarrow> int res" where
  "file_size_of W rows = bindE (ew_parquet W rows) (\<lambda>content. Inr (int (length content)))"

definition write_group ::
  "('s, 'w) world \<Rightarrow> pipeline_config \<Rightarrow> dataset_contract \<Rightarrow> int \<Rightarrow> int \<Rightarrow> string \<Rightarrow> instant \<Rightarrow> group \<Rightarrow> 's writing
    \<Rightarrow> unit res \<times> 's writing" where
  "write_group W cf contract year revision manifest_id now g st =
     (case quality_issues (ew_env W) (ew_calendar W) (ew_say W) (gr_schema g) (map bar.truncate (gr_rows g)) contract
             (Some (gr_partition_start g, gr_partition_end g)) of
        Inl e \<Rightarrow> (Inl e, st)
      | Inr issues \<Rightarrow>
          let st1 = st\<lparr>wg_incidents := wg_incidents st @ map (partition_entries g \<circ> as_record_of) issues\<rparr> in
          if list_ex (\<lambda>i. dget i ''severity'' = Some (VStr ''ERROR'')) issues then (Inr (), st1)
          else case candidate_tables (file_size_of W) (ew_nbytes W) (pc_target_size_mib cf) (pc_max_size_mib cf)
                      (sort_bar_table (gr_rows g)) of
              Inl e \<Rightarrow> (Inl e, st1)
            | Inr parts \<Rightarrow>
                (Inr (), publish_parts W contract (logical_dataset_id (ew_env W) contract year) revision manifest_id now g
                           parts st1))"

fun write_new_objects ::
  "('s, 'w) world \<Rightarrow> pipeline_config \<Rightarrow> dataset_contract \<Rightarrow> int \<Rightarrow> int \<Rightarrow> string \<Rightarrow> instant \<Rightarrow> group list \<Rightarrow> 's writing
    \<Rightarrow> unit res \<times> 's writing" where
  "write_new_objects W cf contract year revision manifest_id now [] st = (Inr (), st)"
| "write_new_objects W cf contract year revision manifest_id now (g # gs) st =
     (case write_group W cf contract year revision manifest_id now g st of
        (Inl e, st1) \<Rightarrow> (Inl e, st1)
      | (Inr _, st1) \<Rightarrow> write_new_objects W cf contract year revision manifest_id now gs st1)"

section \<open>Collection failures and canonical objects\<close>

text \<open>\<open>_parse_iso\<close>: a datetime stays, anything else is read as ISO-8601 text.\<close>

definition parse_iso :: "env \<Rightarrow> (pyobj \<Rightarrow> string) \<Rightarrow> pyobj \<Rightarrow> moment res" where
  "parse_iso E f v =
     (case v of
        OAware t \<Rightarrow> Inr (Aware t)
      | ONaive t \<Rightarrow> Inr (Naive t)
      | x \<Rightarrow> (case fromisoformat E (replace_Z (object_text f x)) of
                IsoAware t \<Rightarrow> Inr (Aware t) | IsoNaive t \<Rightarrow> Inr (Naive t) | IsoInvalid \<Rightarrow> Inl ValueError))"

definition iso_or :: "env \<Rightarrow> (pyobj \<Rightarrow> string) \<Rightarrow> pyobj \<Rightarrow> pyobj \<Rightarrow> moment res" where
  "iso_or E f v fallback = (if truthy v then parse_iso E f v else parse_iso E f fallback)"

text \<open>\<open>max\<close> and \<open>min\<close> of two datetimes: naive and aware ones do not compare.\<close>

definition moment_pick :: "(instant \<Rightarrow> instant \<Rightarrow> instant) \<Rightarrow> moment \<Rightarrow> moment \<Rightarrow> moment res" where
  "moment_pick pick a b =
     (case (a, b) of
        (Aware x, Aware y) \<Rightarrow> Inr (Aware (pick x y)) | (Naive x, Naive y) \<Rightarrow> Inr (Naive (pick x y)) | _ \<Rightarrow> Inl TypeError)"

definition collection_failure_incident ::
  "env \<Rightarrow> (pyobj \<Rightarrow> string) \<Rightarrow> obj_record \<Rightarrow> doc \<Rightarrow> moment \<Rightarrow> quality_incident res" where
  "collection_failure_incident E f issue manifest detected_at =
     (let reason = issue_get issue ''manifest_wide_reason'' in
      if \<not> truthy reason then Inl (if has_key issue ''code'' then ValueError else KeyError)
      else
        bindE (get_item manifest ''period_start'') (\<lambda>ms.
        bindE (get_item manifest ''period_end'') (\<lambda>me.
        bindE (iso_or E f (issue_get issue ''period_start'') (OVal ms)) (\<lambda>lower.
        bindE (iso_or E f (issue_get issue ''period_end'') (OVal me)) (\<lambda>upper.
        bindE (issue_item issue ''code'') (\<lambda>code.
        bindE (issue_item issue ''severity'') (\<lambda>severity.
        bindE (bindE (parse_iso E f (OVal ms)) (moment_pick max lower)) (\<lambda>start.
        bindE (bindE (parse_iso E f (OVal me)) (moment_pick min upper)) (\<lambda>end.
        bindE (manifest_wide E start end (object_text f reason) None 0) (\<lambda>scope.
          mk_incident (object_text f code) (object_text f severity) scope detected_at
            (case dget issue ''message'' of None \<Rightarrow> [] | Some m \<Rightarrow> object_text f m)
            QUALITY_POLICY_VERSION INCIDENT_STATUS_ACTIVE None))))))))))"

definition canonical_object :: "new_object \<Rightarrow> doc res" where
  "canonical_object o' =
     (let r = no_relation o'; s = no_storage o'; pick = (\<lambda>(d, k). bindE (get_item d k) (\<lambda>v. Inr (k, v))) in
      mapE pick [(s, ''content_hash''), (r, ''object_kind''), (r, ''partition_granularity''), (r, ''partition_start''),
        (r, ''partition_end''), (r, ''period_start''), (r, ''period_end''), (r, ''shard_key''), (r, ''part_number''),
        (r, ''row_count''), (s, ''schema_version'')])"

definition HASHED_KEYS :: "string list" where
  "HASHED_KEYS =
     [''content_hash'', ''object_kind'', ''partition_granularity'', ''partition_start'', ''partition_end'',
      ''period_start'', ''period_end'', ''shard_key'', ''part_number'', ''row_count'', ''schema_version'']"

text \<open>\<open>json\<close> is \<open>json.dumps\<close> with sorted keys and compact separators, \<open>sha\<close> the hex digest of a text.\<close>

definition canonical_dataset_hash :: "(pyval \<Rightarrow> string) \<Rightarrow> (string \<Rightarrow> string) \<Rightarrow> doc list \<Rightarrow> string" where
  "canonical_dataset_hash json sha objects =
     (let rows = map (\<lambda>item. VMap (map (\<lambda>k. (k, dget_none item k)) HASHED_KEYS)) objects
      in sha (json (VList (sort_key json rows))))"

section \<open>Carrying the previous revision forward\<close>

definition slice_date :: "env \<Rightarrow> (pyobj \<Rightarrow> string) \<Rightarrow> pyval \<Rightarrow> date res" where
  "slice_date E f v =
     (case date_fromisoformat E (take 10 (py_str f v)) of None \<Rightarrow> Inl ValueError | Some d \<Rightarrow> Inr d)"

definition overlaps :: "env \<Rightarrow> (pyobj \<Rightarrow> string) \<Rightarrow> pyval \<Rightarrow> pyval \<Rightarrow> date \<Rightarrow> date \<Rightarrow> bool res" where
  "overlaps E f left_start left_end right_start right_end =
     bindE (slice_date E f left_start) (\<lambda>s. bindE (slice_date E f left_end) (\<lambda>e.
       Inr (s < right_end \<and> right_start < e)))"

fun anyE :: "('a \<Rightarrow> bool res) \<Rightarrow> 'a list \<Rightarrow> bool res" where
  "anyE P [] = Inr False"
| "anyE P (x # xs) = bindE (P x) (\<lambda>b. if b then Inr True else anyE P xs)"

definition replaced :: "env \<Rightarrow> (pyobj \<Rightarrow> string) \<Rightarrow> (date \<times> date) list \<Rightarrow> doc \<Rightarrow> bool res" where
  "replaced E f periods old =
     anyE (\<lambda>(start, end).
       bindE (get_item old ''partition_start'') (\<lambda>ps. bindE (get_item old ''partition_end'') (\<lambda>pe.
         overlaps E f ps pe start end))) periods"

definition carry :: "env \<Rightarrow> (pyobj \<Rightarrow> string) \<Rightarrow> string \<Rightarrow> doc \<Rightarrow> new_object res" where
  "carry E f manifest_id old =
     bindE (get_item old ''object_id'') (\<lambda>object_id.
     bindE (get_item old ''storage'') (\<lambda>stored.
       let relation = dset ''dataset_manifest_id'' (VStr manifest_id)
             (dset ''id'' (VStr (deterministic_uuid E [''dataset-object'', manifest_id, py_str f object_id]))
               (dpop ''storage'' old))
       in Inr \<lparr>no_storage = (case stored of VMap s \<Rightarrow> s | _ \<Rightarrow> []), no_relation = relation, no_source_ids = []\<rparr>))"

fun retained_objects :: "env \<Rightarrow> (pyobj \<Rightarrow> string) \<Rightarrow> string \<Rightarrow> (date \<times> date) list \<Rightarrow> doc list \<Rightarrow> new_object list res" where
  "retained_objects E f manifest_id periods [] = Inr []"
| "retained_objects E f manifest_id periods (old # rest) =
     bindE (replaced E f periods old) (\<lambda>gone.
     bindE (if gone then Inr [] else bindE (carry E f manifest_id old) (\<lambda>o'. Inr [o'])) (\<lambda>kept.
     bindE (retained_objects E f manifest_id periods rest) (\<lambda>ks. Inr (kept @ ks))))"

section \<open>The transaction of a publication\<close>

text \<open>\<open>item in new_objects\<close>: dataclass equality of the dictionaries.\<close>

definition same_object :: "new_object \<Rightarrow> new_object \<Rightarrow> bool" where
  "same_object a b \<longleftrightarrow>
     py_eq (VMap (no_storage a)) (VMap (no_storage b)) \<and> py_eq (VMap (no_relation a)) (VMap (no_relation b)) \<and>
     no_source_ids a = no_source_ids b"

definition dropped :: "'a res \<times> 's \<Rightarrow> unit res \<times> 's" where
  "dropped p = (case p of (Inl e, s) \<Rightarrow> (Inl e, s) | (Inr _, s) \<Rightarrow> (Inr (), s))"

definition object_lineage_row :: "string \<Rightarrow> string \<Rightarrow> string \<Rightarrow> string \<Rightarrow> instant \<Rightarrow> doc" where
  "object_lineage_row derived source run relation_type now =
     [(''derived_dataset_object_id'', VStr derived), (''source_dataset_object_id'', VStr source),
      (''pipeline_run_id'', VStr run), (''relation_type'', VStr relation_type), (''created_at'', VStr (offset_text now))]"

fun record_sources ::
  "('s, 'w) world \<Rightarrow> string option \<Rightarrow> string \<Rightarrow> string \<Rightarrow> instant \<Rightarrow> string list \<Rightarrow> local_catalog \<Rightarrow> unit res \<times> local_catalog" where
  "record_sources W run derived relation_type now [] c = (Inr (), c)"
| "record_sources W run derived relation_type now (source # rest) c =
     (case active_run_id run of
        Inl e \<Rightarrow> (Inl e, c)
      | Inr r \<Rightarrow> andthen (run_op (ew_env W) (ew_str W)
            (ObjectLineage (as_record_of (object_lineage_row derived source r relation_type now))) c)
          (record_sources W run derived relation_type now rest))"

definition record_output ::
  "('s, 'w) world \<Rightarrow> string option \<Rightarrow> string \<Rightarrow> string \<Rightarrow> local_catalog \<Rightarrow> unit res \<times> local_catalog" where
  "record_output W run manifest_id relation_id c =
     (case active_run_id run of
        Inl e \<Rightarrow> (Inl e, c) | Inr r \<Rightarrow> run_op (ew_env W) (ew_str W) (Output r manifest_id relation_id) c)"

definition stage_item ::
  "('s, 'w) world \<Rightarrow> string option \<Rightarrow> string \<Rightarrow> string \<Rightarrow> instant \<Rightarrow> new_object list \<Rightarrow> new_object \<Rightarrow> local_catalog
    \<Rightarrow> unit res \<times> local_catalog" where
  "stage_item W run manifest_id relation_type now news item c =
     (let relation_id = text_item (ew_str W) (no_relation item) ''id'' in
      andthen (run_op (ew_env W) (ew_str W)
          (Stage (as_record_of (no_storage item)) (as_record_of (no_relation item))) c) (\<lambda>c1.
      andthen (if supports ''PIPELINE_RUN_OUTPUTS'' \<and> list_ex (same_object item) news
               then record_output W run manifest_id relation_id c1 else (Inr (), c1))
        (record_sources W run relation_id relation_type now (no_source_ids item))))"

fun stage_items ::
  "('s, 'w) world \<Rightarrow> string option \<Rightarrow> string \<Rightarrow> string \<Rightarrow> instant \<Rightarrow> new_object list \<Rightarrow> new_object list \<Rightarrow> local_catalog
    \<Rightarrow> unit res \<times> local_catalog" where
  "stage_items W run manifest_id relation_type now news [] c = (Inr (), c)"
| "stage_items W run manifest_id relation_type now news (item # rest) c =
     andthen (stage_item W run manifest_id relation_type now news item c)
       (stage_items W run manifest_id relation_type now news rest)"

definition record_incidents ::
  "('s, 'w) world \<Rightarrow> string \<Rightarrow> doc \<Rightarrow> obj_record list \<Rightarrow> instant \<Rightarrow> local_catalog \<Rightarrow> unit res \<times> local_catalog" where
  "record_incidents W manifest_id building incidents now c =
     (let E = ew_env W; f = ew_str W; rec = catalog_record E f in
      andthen (dropped (record_issue_incidents E f (ew_remark W) rec
          (filter (\<lambda>i. truthy (issue_get i ''shard_key'')) incidents) (Some manifest_id) (Aware now) c)) (\<lambda>c1.
      case mapE (\<lambda>i. collection_failure_incident E f i building (Aware now))
             (filter (\<lambda>i. \<not> truthy (issue_get i ''shard_key'')) incidents) of
        Inl e \<Rightarrow> (Inl e, c1)
      | Inr qs \<Rightarrow> dropped (record_quality_incidents E rec qs (Some manifest_id) c1)))"

definition superseded :: "doc \<Rightarrow> doc" where
  "superseded previous =
     dset ''available_at'' (dget_none previous ''available_at'') (dset ''status'' (VStr ''SUPERSEDED'') previous)"

definition publication_body ::
  "('s, 'w) world \<Rightarrow> string option \<Rightarrow> string \<Rightarrow> string \<Rightarrow> instant \<Rightarrow> doc \<Rightarrow> doc \<Rightarrow> doc option \<Rightarrow> bool \<Rightarrow> new_object list
    \<Rightarrow> new_object list \<Rightarrow> obj_record list \<Rightarrow> string option \<Rightarrow> local_catalog \<Rightarrow> unit res \<times> local_catalog" where
  "publication_body W run manifest_id relation_type now building manifest previous available news items incidents source c =
     (let E = ew_env W; f = ew_str W in
      andthen (publish_manifest E f (as_record_of building) c) (\<lambda>c1.
      andthen (stage_items W run manifest_id relation_type now news items c1) (\<lambda>c2.
      andthen (record_incidents W manifest_id building incidents now c2) (\<lambda>c3.
      andthen (publish_manifest E f (as_record_of manifest) c3) (\<lambda>c4.
      andthen (case previous of
                 Some p \<Rightarrow> if available then publish_manifest E f (as_record_of (superseded p)) c4 else (Inr (), c4)
               | None \<Rightarrow> (Inr (), c4)) (\<lambda>c5.
        case source of
          Some src \<Rightarrow>
            if src = [] then (Inr (), c5)
            else run_op E f (DatasetLineage (as_record_of [(''derived_manifest_id'', VStr manifest_id),
                   (''source_manifest_id'', VStr src), (''relation_type'', VStr relation_type)])) c5
        | None \<Rightarrow> (Inr (), c5)))))))"

section \<open>Publishing a dataset\<close>

record publication =
  pb_manifest :: doc
  pb_new_object_count :: nat
  pb_retained_object_count :: nat
  pb_incident_count :: nat

definition building_row ::
  "('s, 'w) world \<Rightarrow> dataset_contract \<Rightarrow> string \<Rightarrow> int \<Rightarrow> doc option \<Rightarrow> instant \<Rightarrow> instant \<Rightarrow> instant \<Rightarrow> doc res" where
  "building_row W contract manifest_id revision previous lower upper now =
     bindE (case previous of None \<Rightarrow> Inr VNone | Some p \<Rightarrow> get_item p ''id'') (\<lambda>supersedes.
       Inr [(''id'', VStr manifest_id), (''feed_id'', VStr (feed_id_of (ew_env W) (dc_feed_code contract))),
            (''instrument_id'', VNone), (''data_layer'', VStr (dc_data_layer contract)),
            (''resolution'', VStr (dc_resolution contract)), (''revision_number'', VInt revision),
            (''status'', VStr ''BUILDING''), (''period_start'', VStr (iso_utc lower)), (''period_end'', VStr (iso_utc upper)),
            (''schema_version'', VStr SCHEMA_VERSION), (''dataset_hash'', VStr (ew_sha W ''BUILDING'')),
            (''supersedes_manifest_id'', supersedes), (''created_at'', VStr (offset_text now)), (''available_at'', VNone)])"

definition period_text :: "string \<Rightarrow> new_object \<Rightarrow> string res" where
  "period_text k o' = bindE (get_item (no_relation o') k) (\<lambda>v. case v of VStr s \<Rightarrow> Inr s | _ \<Rightarrow> Inl TypeError)"

definition observed_bounds :: "doc \<Rightarrow> new_object list \<Rightarrow> (pyval \<times> pyval) res" where
  "observed_bounds building items =
     bindE (mapE (period_text ''period_start'') items) (\<lambda>starts.
     bindE (mapE (period_text ''period_end'') items) (\<lambda>ends.
       Inr (if items = [] then (dget_none building ''period_start'', dget_none building ''period_start'')
            else (VStr (list_min starts), VStr (list_max ends)))))"

definition manifest_row :: "('s, 'w) world \<Rightarrow> doc \<Rightarrow> bool \<Rightarrow> pyval \<Rightarrow> pyval \<Rightarrow> doc list \<Rightarrow> instant \<Rightarrow> doc" where
  "manifest_row W building available from_seen upto_seen canonical now =
     dset ''available_at'' (if available then VStr (offset_text now) else VNone)
       (dset ''dataset_hash'' (VStr (canonical_dataset_hash (ew_json W) (ew_sha W) canonical))
         (dset ''period_end'' upto_seen (dset ''period_start'' from_seen
           (dset ''status'' (VStr (if available then ''AVAILABLE'' else ''QUARANTINED'')) building))))"

record plan =
  pl_manifest_id :: string
  pl_building :: doc
  pl_manifest :: doc
  pl_previous :: "doc option"
  pl_available :: bool
  pl_new :: "new_object list"
  pl_retained :: "new_object list"
  pl_incidents :: "obj_record list"
  pl_observed_end :: pyval

text \<open>Everything \<open>publish_dataset\<close> does before its transaction: the revision and the BUILDING row,
  the writing of the objects, and what the transaction will commit.\<close>

definition opening_of ::
  "('s, 'w) world \<Rightarrow> pipeline_config \<Rightarrow> dataset_contract \<Rightarrow> int \<Rightarrow> instant \<Rightarrow> local_catalog \<Rightarrow> (int \<times> doc option \<times> string \<times> doc) res" where
  "opening_of W cf contract year now c =
     (let E = ew_env W in
      bindE (next_revision W cf c contract year) (\<lambda>(revision, previous).
      let manifest_id = deterministic_uuid E [''manifest'', logical_code contract, int_str year, int_str revision] in
      bindE (mk_date year 1 1) (\<lambda>d.
      bindE (partition_bounds E (DDate d) ''YEAR'') (\<lambda>(year_start, _).
      bindE (partition_utc_bounds E (DDate year_start) ''YEAR'') (\<lambda>(lower, upper).
      bindE (building_row W contract manifest_id revision previous lower upper now) (\<lambda>building.
        Inr (revision, previous, manifest_id, building)))))))"

definition carried :: "('s, 'w) world \<Rightarrow> local_catalog \<Rightarrow> string \<Rightarrow> (date \<times> date) list \<Rightarrow> doc option \<Rightarrow> new_object list res" where
  "carried W c manifest_id replace_periods previous =
     (let E = ew_env W; f = ew_str W in
      case previous of
        None \<Rightarrow> Inr []
      | Some p \<Rightarrow>
          bindE (get_item p ''id'') (\<lambda>pid.
          bindE (objects_for_manifest E f c (py_str f pid)) (retained_objects E f manifest_id replace_periods)))"

definition plan_of ::
  "('s, 'w) world \<Rightarrow> doc option \<Rightarrow> string \<Rightarrow> doc \<Rightarrow> new_object list \<Rightarrow> new_object list \<Rightarrow> obj_record list \<Rightarrow> instant \<Rightarrow> plan res" where
  "plan_of W previous manifest_id building news retained incidents now =
     bindE (filterE is_error incidents) (\<lambda>errors.
     let items = retained @ news; available = (items \<noteq> [] \<and> errors = []) in
     bindE (mapE canonical_object items) (\<lambda>canonical.
     bindE (observed_bounds building items) (\<lambda>(from_seen, upto_seen).
       Inr \<lparr>pl_manifest_id = manifest_id, pl_building = building,
            pl_manifest = manifest_row W building available from_seen upto_seen canonical now,
            pl_previous = previous, pl_available = available, pl_new = news,
            pl_retained = retained, pl_incidents = incidents, pl_observed_end = upto_seen\<rparr>)))"

definition prepare_publication ::
  "('s, 'w) world \<Rightarrow> pipeline_config \<Rightarrow> dataset_contract \<Rightarrow> int \<Rightarrow> group list \<Rightarrow> (date \<times> date) list \<Rightarrow> obj_record list \<Rightarrow> instant
    \<Rightarrow> local_catalog \<Rightarrow> 's \<Rightarrow> plan res \<times> 's" where
  "prepare_publication W cf contract year groups replace_periods additional now c s =
     (case opening_of W cf contract year now c of
        Inl e \<Rightarrow> (Inl e, s)
      | Inr (revision, previous, manifest_id, building) \<Rightarrow>
          (case write_new_objects W cf contract year revision manifest_id now groups
                  \<lparr>wg_counters = [], wg_store = s, wg_objects = [], wg_incidents = []\<rparr> of
             (Inl e, st) \<Rightarrow> (Inl e, wg_store st)
           | (Inr _, st) \<Rightarrow>
               (bindE (carried W c manifest_id replace_periods previous) (\<lambda>retained.
                  plan_of W previous manifest_id building (wg_objects st) retained (wg_incidents st @ additional) now),
                wg_store st)))"

definition commit_publication ::
  "('s, 'w) world \<Rightarrow> string option \<Rightarrow> string \<Rightarrow> string option \<Rightarrow> instant \<Rightarrow> plan \<Rightarrow> local_catalog \<Rightarrow> unit res \<times> local_catalog" where
  "commit_publication W run relation_type source now p c =
     transaction (ew_env W) (ew_str W)
       (publication_body W run (pl_manifest_id p) relation_type now (pl_building p) (pl_manifest p) (pl_previous p)
          (pl_available p) (pl_new p) (pl_retained p @ pl_new p) (pl_incidents p) source) c"

text \<open>The watermark moves only after an AVAILABLE manifest is committed.\<close>

definition project_watermark ::
  "('s, 'w) world \<Rightarrow> string \<Rightarrow> instant \<Rightarrow> plan \<Rightarrow> 'w \<Rightarrow> unit res \<times> 'w" where
  "project_watermark W feed_id now p w =
     (case ew_advance W of
        None \<Rightarrow> (Inr (), w)
      | Some advance \<Rightarrow>
          if \<not> pl_available p then (Inr (), w)
          else (case parse_iso (ew_env W) (ew_str W) (OVal (pl_observed_end p)) of
                  Inl e \<Rightarrow> (Inl e, w)
                | Inr (Naive _) \<Rightarrow> (Inl WatermarkError, w)
                | Inr (Aware t) \<Rightarrow>
                    (case mk_watermark feed_id \<lparr>sp_source_event_at = t, sp_sequence = None\<rparr> now (Some now) of
                       Inl e \<Rightarrow> (Inl e, w)
                     | Inr wm \<Rightarrow> (Inr (), snd (advance w wm)))))"

definition publish_dataset ::
  "('s, 'w) world \<Rightarrow> pipeline_config \<Rightarrow> dataset_contract \<Rightarrow> int \<Rightarrow> group list \<Rightarrow> (date \<times> date) list \<Rightarrow> string option \<Rightarrow> string
    \<Rightarrow> obj_record list \<Rightarrow> instant \<Rightarrow> ('s, 'w) engine \<Rightarrow> publication res \<times> ('s, 'w) engine" where
  "publish_dataset W cf contract year groups replace_periods source relation_type additional now s =
     (case prepare_publication W cf contract year groups replace_periods additional now (en_catalog s) (en_objects s) of
        (Inl e, store) \<Rightarrow> (Inl e, s\<lparr>en_objects := store\<rparr>)
      | (Inr p, store) \<Rightarrow>
          (case commit_publication W (en_run s) relation_type source now p (en_catalog s) of
             (Inl e, c) \<Rightarrow> (Inl e, s\<lparr>en_objects := store, en_catalog := c\<rparr>)
           | (Inr _, c) \<Rightarrow>
               (case project_watermark W (feed_id_of (ew_env W) (dc_feed_code contract)) now p (en_watermarks s) of
                  (Inl e, w) \<Rightarrow> (Inl e, s\<lparr>en_objects := store, en_catalog := c, en_watermarks := w\<rparr>)
                | (Inr _, w) \<Rightarrow>
                    (Inr \<lparr>pb_manifest = pl_manifest p, pb_new_object_count = length (pl_new p),
                          pb_retained_object_count = length (pl_retained p), pb_incident_count = length (pl_incidents p)\<rparr>,
                     s\<lparr>en_objects := store, en_catalog := c, en_watermarks := w\<rparr>))))"

section \<open>What a publication does to the manifests\<close>

lemma publish_manifest_view:
  assumes laws: "codec_laws E" and ok: "table_ok f c MANIFESTS" and snap: "lc_snapshot c \<noteq> None" and j: "json_record r"
    and run: "publish_manifest E f r c = (Inr (), c')"
  obtains canonical k d where "normalise_record E f MANIFESTS r = Inr canonical" "row_id f canonical = Inr k"
    "table_view f c MANIFESTS = Inr d" "table_view f c' MANIFESTS = Inr (dset k (json_row canonical) d)"
    "table_ok f c' MANIFESTS" "lc_snapshot c' \<noteq> None"
proof -
  obtain canonical where n: "normalise_record E f MANIFESTS r = Inr canonical"
    using run by (cases "normalise_record E f MANIFESTS r") (auto simp: publish_manifest_def)
  obtain key where k: "availability_key f canonical = Inr key"
    using run n snap by (cases "availability_key f canonical") (auto simp: publish_manifest_def)
  define c1 where "c1 = c\<lparr>lc_touched := List.insert key (lc_touched c)\<rparr>"
  have run1: "upsert E f MANIFESTS (as_record_of canonical) c1 = (Inr (), c')"
    using run n k snap by (auto simp: publish_manifest_def c1_def)
  have ok1: "table_ok f c1 MANIFESTS" and view1: "table_view f c1 MANIFESTS = table_view f c MANIFESTS"
    and snap1: "lc_snapshot c1 = lc_snapshot c"
    using ok by (auto simp: c1_def table_ok_def table_view_def)
  have again: "normalise_record E f MANIFESTS (as_record_of canonical) = Inr canonical" by (rule renormalise[OF laws n j])
  from upsert_cases[OF ok1 manifests_table, of E "as_record_of canonical"]
  have i: "has_key canonical ''id''" and d: "list_all (\<lambda>(_, v). dumpable v) canonical"
    using run1 again by auto
  obtain i d0 where up: "row_id f canonical = Inr i" "table_view f c1 MANIFESTS = Inr d0" "table_ok f c' MANIFESTS"
      "table_view f c' MANIFESTS = Inr (dset i (json_row canonical) d0)" "same_elsewhere MANIFESTS c1 c'"
    using upsert_by_id[OF ok1 manifests_table again i d] run1 by auto
  then show ?thesis using that[OF n, of i d0] view1 snap1 snap by (simp add: same_elsewhere_def)
qed

lemma andthen_split:
  assumes "andthen p g = (r, s')"
  obtains (stopped) e where "p = (Inl e, s')" "r = Inl e" | (went_on) u s where "p = (Inr u, s)" "g s = (r, s')"
  using assms by (cases p; cases "fst p") (auto simp: andthen_def)

lemma kept_andthen:
  "andthen p g = (r, c') \<Longrightarrow> (\<And>x c1. p = (x, c1) \<Longrightarrow> manifests_kept c c1) \<Longrightarrow>
   (\<And>c1 x c2. g c1 = (x, c2) \<Longrightarrow> manifests_kept c1 c2) \<Longrightarrow> manifests_kept c c'"
  by (erule andthen_split) (auto intro: manifests_kept_trans)

lemma lineage_kept:
  "record_object_lineage E f r c = (x, c') \<Longrightarrow> manifests_kept c c'"
  "record_dataset_lineage E f r c = (x, c') \<Longrightarrow> manifests_kept c c'"
  unfolding record_object_lineage_def record_dataset_lineage_def by (rule append_keeps_manifests, assumption, simp)+

lemma record_sources_kept: "record_sources W run d t now srcs c = (r, c') \<Longrightarrow> manifests_kept c c'"
proof (induction srcs arbitrary: c r c')
  case (Cons src srcs)
  show ?case
  proof (cases run)
    case (Some i)
    show ?thesis using Cons.prems unfolding Some record_sources.simps active_run_id_def option.case sum.case
      by (rule kept_andthen) (use Cons.IH Some in \<open>auto dest: lineage_kept\<close>)
  qed (use Cons.prems in \<open>simp add: active_run_id_def\<close>)
qed simp

lemma record_output_kept: "record_output W run m rel c = (r, c') \<Longrightarrow> manifests_kept c c'"
  by (auto simp: record_output_def output_keeps_manifests split: sum.splits)

lemma stage_item_kept: "stage_item W run m t now news item c = (r, c') \<Longrightarrow> manifests_kept c c'"
  unfolding stage_item_def Let_def
  by (erule kept_andthen)
     (auto elim!: kept_andthen dest: stage_keeps_manifests record_output_kept record_sources_kept split: if_splits)

lemma stage_items_kept: "stage_items W run m t now news items c = (r, c') \<Longrightarrow> manifests_kept c c'"
proof (induction items arbitrary: c r c')
  case (Cons item items)
  show ?case using Cons.prems unfolding stage_items.simps
    by (rule kept_andthen) (use Cons.IH in \<open>auto dest: stage_item_kept\<close>)
qed simp

lemma record_from_kept: "record_from E (catalog_record E f) m seen n qs c = (r, c') \<Longrightarrow> manifests_kept c c'"
proof (induction qs arbitrary: seen n c)
  case (Cons q qs)
  show ?case
  proof (cases "row_id_of E q m \<in> set seen")
    case False
    obtain x c1 where x: "catalog_record E f (to_db_row E q m) c = (x, c1)" by (cases "catalog_record E f (to_db_row E q m) c")
    have "manifests_kept c c1" using x unfolding catalog_record_def record_quality_incident_def
      by (rule upsert_keeps_manifests) simp
    then show ?thesis using Cons x False by (auto simp: Let_def intro: manifests_kept_trans split: sum.splits)
  qed (use Cons in \<open>auto simp: Let_def\<close>)
qed simp

lemma record_incidents_kept: "record_incidents W m building incidents now c = (r, c') \<Longrightarrow> manifests_kept c c'"
  unfolding record_incidents_def Let_def
  by (erule kept_andthen)
     (auto simp: dropped_def record_issue_incidents_def record_quality_incidents_def dest: record_from_kept
       split: sum.splits prod.splits)

text \<open>The manifest rows a publication leaves: its own under its id, then the previous one superseded.\<close>

definition final_row :: "env \<Rightarrow> (pyobj \<Rightarrow> string) \<Rightarrow> doc \<Rightarrow> (string \<times> doc) option" where
  "final_row E f r =
     (case normalise_record E f MANIFESTS (as_record_of r) of
        Inl _ \<Rightarrow> None
      | Inr c \<Rightarrow> (case row_id f c of Inl _ \<Rightarrow> None | Inr k \<Rightarrow> Some (k, json_row c)))"

definition put_row :: "(string \<times> doc) option \<Rightarrow> (string, doc) dict \<Rightarrow> (string, doc) dict" where
  "put_row kr d = (case kr of None \<Rightarrow> d | Some (k, r) \<Rightarrow> dset k r d)"

lemma json_as_record [simp]: "json_record (as_record_of d)"
  by (auto simp: json_record_def as_record_of_def list_all_iff)

lemma publish_step:
  assumes "codec_laws E" and "table_ok f c MANIFESTS" and "lc_snapshot c \<noteq> None" and "table_view f c MANIFESTS = Inr d"
    and "publish_manifest E f (as_record_of r) c = (Inr (), c')"
  shows "table_view f c' MANIFESTS = Inr (put_row (final_row E f r) d) \<and> table_ok f c' MANIFESTS \<and> lc_snapshot c' \<noteq> None \<and>
    final_row E f r \<noteq> None"
  using assms(4) by (rule_tac publish_manifest_view[OF assms(1-3) json_as_record assms(5)]) (auto simp: final_row_def put_row_def)

lemma body_view:
  assumes laws: "codec_laws (ew_env W)" and ok: "table_ok (ew_str W) c MANIFESTS" and snap: "lc_snapshot c \<noteq> None"
    and d: "table_view (ew_str W) c MANIFESTS = Inr d"
    and run: "publication_body W run m t now building manifest previous available news items incidents source c = (Inr (), c')"
  shows "table_view (ew_str W) c' MANIFESTS = Inr (
      (case previous of Some p \<Rightarrow> if available then put_row (final_row (ew_env W) (ew_str W) (superseded p)) else id | None \<Rightarrow> id)
        (put_row (final_row (ew_env W) (ew_str W) manifest) (put_row (final_row (ew_env W) (ew_str W) building) d))) \<and>
    table_ok (ew_str W) c' MANIFESTS \<and> final_row (ew_env W) (ew_str W) manifest \<noteq> None \<and>
    (\<forall>p. previous = Some p \<and> available \<longrightarrow> final_row (ew_env W) (ew_str W) (superseded p) \<noteq> None)"
proof -
  define E f where "E = ew_env W" and "f = ew_str W"
  from run obtain c1 c2 c3 c4 c5 where
      s1: "publish_manifest E f (as_record_of building) c = (Inr (), c1)"
    and s2: "stage_items W run m t now news items c1 = (Inr (), c2)"
    and s3: "record_incidents W m building incidents now c2 = (Inr (), c3)"
    and s4: "publish_manifest E f (as_record_of manifest) c3 = (Inr (), c4)"
    and s5: "(case previous of Some p \<Rightarrow> if available then publish_manifest E f (as_record_of (superseded p)) c4 else (Inr (), c4)
               | None \<Rightarrow> (Inr (), c4)) = (Inr (), c5)"
    and s6: "(case source of Some src \<Rightarrow> if src = [] then (Inr (), c5)
            else run_op E f (DatasetLineage (as_record_of [(''derived_manifest_id'', VStr m),
                   (''source_manifest_id'', VStr src), (''relation_type'', VStr t)])) c5
        | None \<Rightarrow> (Inr (), c5)) = (Inr (), c')"
    unfolding publication_body_def Let_def E_def[symmetric] f_def[symmetric] by (auto elim!: andthen_split)
  note p1 = publish_step[OF laws ok snap d, folded E_def f_def, OF s1]
  have k: "manifests_kept c1 c3" using stage_items_kept[OF s2] record_incidents_kept[OF s3] by (rule manifests_kept_trans)
  have v3: "table_view f c3 MANIFESTS = Inr (put_row (final_row E f building) d)" "table_ok f c3 MANIFESTS" "lc_snapshot c3 \<noteq> None"
    using p1 kept_view[OF k, of f] kept_ok[OF k, of f] k by (auto simp: manifests_kept_def)
  note p4 = publish_step[OF laws[folded E_def] v3(2,3,1) s4]
  have k6: "manifests_kept c5 c'"
    using s6 by (auto split: option.splits if_splits dest: lineage_kept)
  show ?thesis
  proof (cases "\<exists>p. previous = Some p \<and> available")
    case True
    then obtain p where p: "previous = Some p" "available" by blast
    then have "publish_manifest E f (as_record_of (superseded p)) c4 = (Inr (), c5)" using s5 by simp
    from publish_step[OF laws[folded E_def] _ _ _ this] p4
    have "table_view f c5 MANIFESTS = Inr (put_row (final_row E f (superseded p)) (put_row (final_row E f manifest) (put_row (final_row E f building) d)))"
      "table_ok f c5 MANIFESTS" "final_row E f (superseded p) \<noteq> None" by auto
    then show ?thesis using p p4 kept_view[OF k6, of f] kept_ok[OF k6, of f] by (simp add: E_def f_def)
  next
    case False
    then have "c5 = c4" using s5 by (auto split: option.splits)
    then show ?thesis using False p4 kept_view[OF k6, of f] kept_ok[OF k6, of f] by (auto simp: E_def f_def split: option.splits)
  qed
qed

section \<open>Switching revisions\<close>

definition manifest_at :: "(pyobj \<Rightarrow> string) \<Rightarrow> local_catalog \<Rightarrow> string \<Rightarrow> doc option" where
  "manifest_at f c k = (case table_view f c MANIFESTS of Inl _ \<Rightarrow> None | Inr d \<Rightarrow> dget d k)"

definition has_status :: "string \<Rightarrow> doc \<Rightarrow> bool" where
  "has_status st r \<longleftrightarrow> dget r ''status'' = Some (VStr st)"

lemma published_columns:
  "case table_for MANIFESTS of Inl _ \<Rightarrow> False
   | Inr tb \<Rightarrow> column_type tb ''id'' = TUuid \<and> column_type tb ''status'' = TEnum DATASET_STATUS_LABELS \<and>
       list_all (\<lambda>k. k \<in> set (column_names tb)) [''id'', ''status'']"
  by code_simp

lemma canonical_manifest_cell:
  assumes n: "normalise_record E f MANIFESTS r = Inr c" and v: "dget r k = Some v" and k: "k = ''id'' \<or> k = ''status''"
  shows "\<exists>w. dget c k = Some w \<and> to_canonical E f (if k = ''id'' then TUuid else TEnum DATASET_STATUS_LABELS) v = Inr w"
proof -
  obtain tb where tb: "table_for MANIFESTS = Inr tb" "column_type tb ''id'' = TUuid"
      "column_type tb ''status'' = TEnum DATASET_STATUS_LABELS" "''id'' \<in> set (column_names tb)" "''status'' \<in> set (column_names tb)"
    using published_columns by (auto split: sum.splits)
  obtain t where t: "table_for MANIFESTS = Inr t" and cells: "\<And>cl. cl \<in> set (tb_columns t) \<Longrightarrow> has_key r (cl_name cl) \<Longrightarrow>
       \<exists>v w. dget r (cl_name cl) = Some v \<and> to_canonical E f (cl_type cl) v = Inr w \<and> dget c (cl_name cl) = Some w"
    using normalise_facts[OF n] by metis
  have "k \<in> set (column_names t)" using k tb t by auto
  then obtain cl where cl: "cl \<in> set (tb_columns t)" "cl_name cl = k" by (auto simp: column_names_def)
  have "cl_type cl = (if k = ''id'' then TUuid else TEnum DATASET_STATUS_LABELS)"
    using column_type_of[OF table_columns_distinct[OF t] cl(1)] cl(2) tb t k by auto
  then show ?thesis using cells[OF cl(1)] v cl(2) by (auto simp: has_key_def)
qed

lemma final_row_facts:
  assumes "final_row E f r = Some (k, row)"
  shows "dget r ''id'' = Some (VStr i) \<Longrightarrow> uuid_parse E i = Some k"
    and "dget r ''status'' = Some (VStr st) \<Longrightarrow> has_status st row"
proof -
  obtain c where n: "normalise_record E f MANIFESTS (as_record_of r) = Inr c" and k: "row_id f c = Inr k" and row: "row = json_row c"
    using assms by (auto simp: final_row_def split: sum.splits)
  show "uuid_parse E i = Some k" if "dget r ''id'' = Some (VStr i)"
    using canonical_manifest_cell[OF n, of "''id''" "OVal (VStr i)"] that k
    by (auto simp: dget_as_record to_canonical_def canonical_uuid_def row_id_def get_item_def py_str_def split: option.splits)
  show "has_status st row" if "dget r ''status'' = Some (VStr st)"
    using canonical_manifest_cell[OF n, of "''status''" "OVal (VStr st)"] that
    by (auto simp: dget_as_record to_canonical_def canonical_text_def has_status_def row dget_json_row[OF normalised_keys[OF n]])
qed

lemma publish_dataset_cases:
  assumes "publish_dataset W cf contract year groups periods source rel additional now s = (Inr pub, s')"
  obtains p store c w where
    "prepare_publication W cf contract year groups periods additional now (en_catalog s) (en_objects s) = (Inr p, store)"
    "commit_publication W (en_run s) rel source now p (en_catalog s) = (Inr (), c)"
    "project_watermark W (feed_id_of (ew_env W) (dc_feed_code contract)) now p (en_watermarks s) = (Inr (), w)"
    "pub = \<lparr>pb_manifest = pl_manifest p, pb_new_object_count = length (pl_new p),
            pb_retained_object_count = length (pl_retained p), pb_incident_count = length (pl_incidents p)\<rparr>"
    "s' = s\<lparr>en_objects := store, en_catalog := c, en_watermarks := w\<rparr>"
  using assms unfolding publish_dataset_def by (auto split: prod.splits sum.splits)

lemma opening_rows:
  assumes "opening_of W cf contract year now c = Inr (revision, previous, manifest_id, building)"
  shows "next_revision W cf c contract year = Inr (revision, previous)"
    and "manifest_id = deterministic_uuid (ew_env W) [''manifest'', logical_code contract, int_str year, int_str revision]"
    and "dget building ''id'' = Some (VStr manifest_id)" and "dget building ''status'' = Some (VStr ''BUILDING'')"
  using assms by (auto simp: opening_of_def building_row_def Let_def split: prod.splits)

lemma plan_of_rows:
  assumes "plan_of W previous manifest_id building news retained incidents now = Inr p"
  shows "pl_previous p = previous" and "pl_manifest_id p = manifest_id" and "pl_building p = building"
    and "pl_new p = news" and "pl_retained p = retained" and "pl_incidents p = incidents"
    and "dget (pl_manifest p) ''status'' = Some (VStr (if pl_available p then ''AVAILABLE'' else ''QUARANTINED''))"
    and "dget (pl_manifest p) ''id'' = dget building ''id''"
  using assms by (auto simp: plan_of_def manifest_row_def Let_def split: prod.splits)

lemma prepared_cases:
  assumes "prepare_publication W cf contract year groups periods additional now c s = (Inr p, store)"
  obtains revision previous manifest_id building st retained where
    "opening_of W cf contract year now c = Inr (revision, previous, manifest_id, building)"
    "write_new_objects W cf contract year revision manifest_id now groups
       \<lparr>wg_counters = [], wg_store = s, wg_objects = [], wg_incidents = []\<rparr> = (Inr (), st)"
    "carried W c manifest_id periods previous = Inr retained"
    "plan_of W previous manifest_id building (wg_objects st) retained (wg_incidents st @ additional) now = Inr p"
    "store = wg_store st"
  using assms unfolding prepare_publication_def by (auto split: sum.splits prod.splits)

lemma prepared_rows:
  assumes "prepare_publication W cf contract year groups periods additional now c s = (Inr p, store)"
  obtains revision where "next_revision W cf c contract year = Inr (revision, pl_previous p)"
    "pl_manifest_id p = deterministic_uuid (ew_env W) [''manifest'', logical_code contract, int_str year, int_str revision]"
    "dget (pl_building p) ''id'' = Some (VStr (pl_manifest_id p))" "dget (pl_building p) ''status'' = Some (VStr ''BUILDING'')"
    "dget (pl_manifest p) ''id'' = Some (VStr (pl_manifest_id p))"
    "dget (pl_manifest p) ''status'' = Some (VStr (if pl_available p then ''AVAILABLE'' else ''QUARANTINED''))"
  by (rule prepared_cases[OF assms]) (simp add: that opening_rows plan_of_rows)

lemma publication_effect:
  assumes laws: "codec_laws (ew_env W)" and ok: "table_ok (ew_str W) (en_catalog s) MANIFESTS"
    and idle: "lc_snapshot (en_catalog s) = None"
    and run: "publish_dataset W cf contract year groups periods source rel additional now s = (Inr pub, s')"
  obtains p store d km rm where
    "prepare_publication W cf contract year groups periods additional now (en_catalog s) (en_objects s) = (Inr p, store)"
    "pb_manifest pub = pl_manifest p" "final_row (ew_env W) (ew_str W) (pl_manifest p) = Some (km, rm)"
    "uuid_parse (ew_env W) (pl_manifest_id p) = Some km"
    "\<And>k. manifest_at (ew_str W) (en_catalog s) k = dget d k"
    "\<And>k. manifest_at (ew_str W) (en_catalog s') k =
       dget ((case pl_previous p of Some q \<Rightarrow> if pl_available p then put_row (final_row (ew_env W) (ew_str W) (superseded q)) else id
              | None \<Rightarrow> id) (put_row (Some (km, rm)) d)) k"
    "\<And>q. pl_available p \<Longrightarrow> pl_previous p = Some q \<Longrightarrow> final_row (ew_env W) (ew_str W) (superseded q) \<noteq> None"
    "table_ok (ew_str W) (en_catalog s') MANIFESTS" "lc_snapshot (en_catalog s') = None"
proof -
  define E f where "E = ew_env W" and "f = ew_str W"
  obtain p store c w where prep: "prepare_publication W cf contract year groups periods additional now (en_catalog s) (en_objects s) = (Inr p, store)"
    and commit: "commit_publication W (en_run s) rel source now p (en_catalog s) = (Inr (), c)"
    and pub: "pb_manifest pub = pl_manifest p" and s': "en_catalog s' = c"
    by (rule publish_dataset_cases[OF run]) auto
  obtain x c1 where body_x: "publication_body W (en_run s) (pl_manifest_id p) rel now (pl_building p) (pl_manifest p) (pl_previous p)
          (pl_available p) (pl_new p) (pl_retained p @ pl_new p) (pl_incidents p) source (begun (en_catalog s)) = (Inr x, c1)"
    and c: "c = c1\<lparr>lc_snapshot := None, lc_touched := []\<rparr>"
    by (rule transaction_outcome[OF commit[unfolded commit_publication_def] idle]) (simp, rule that)
  have "x = ()" by simp
  note body = body_x[unfolded this]
  obtain q where q: "path_of MANIFESTS = Inr q" using id_table_path[OF manifests_table(1)] by blast
  obtain d where d: "table_view f (en_catalog s) MANIFESTS = Inr d" using table_view_ok[OF ok manifests_table(1) q] f_def by metis
  have b: "table_ok f (begun (en_catalog s)) MANIFESTS" "table_view f (begun (en_catalog s)) MANIFESTS = Inr d"
    "lc_snapshot (begun (en_catalog s)) \<noteq> None"
    using ok d by (auto simp: begun_def table_ok_def table_view_def f_def)
  note view = body_view[OF laws b(1)[unfolded f_def] b(3) b(2)[unfolded f_def] body]
  obtain revision where rows: "dget (pl_building p) ''id'' = Some (VStr (pl_manifest_id p))"
      "dget (pl_manifest p) ''id'' = Some (VStr (pl_manifest_id p))"
    using prepared_rows[OF prep] by metis
  obtain km rm where fin: "final_row E f (pl_manifest p) = Some (km, rm)" using view by (auto simp: E_def f_def)
  note km = final_row_facts(1)[OF fin rows(2)]
  have build: "put_row (Some (km, rm)) (put_row (final_row E f (pl_building p)) x) = put_row (Some (km, rm)) x" for x
    using final_row_facts(1)[of E f "pl_building p", OF _ rows(1)] km
    by (auto simp: put_row_def split: option.splits)
  have v: "table_view f c MANIFESTS = Inr ((case pl_previous p of Some q \<Rightarrow> if pl_available p then put_row (final_row E f (superseded q)) else id
              | None \<Rightarrow> id) (put_row (Some (km, rm)) d))"
    using view[folded E_def f_def] fin build by (simp add: c table_view_def)
  have "\<And>q. pl_available p \<Longrightarrow> pl_previous p = Some q \<Longrightarrow> final_row E f (superseded q) \<noteq> None"
    using view unfolding E_def f_def by blast
  moreover have "table_ok f c MANIFESTS" using view by (simp add: f_def c table_ok_def)
  moreover have "lc_snapshot c = None" by (simp add: c)
  ultimately show ?thesis
    using that[OF prep pub fin[unfolded E_def f_def] km[unfolded E_def], of d] d v[unfolded E_def f_def] by (auto simp: manifest_at_def s' E_def f_def)
qed

lemma publication_rows:
  assumes "codec_laws (ew_env W)" and "table_ok (ew_str W) (en_catalog s) MANIFESTS" and "lc_snapshot (en_catalog s) = None"
    and run: "publish_dataset W cf contract year groups periods source rel additional now s = (Inr pub, s')"
    and rev: "next_revision W cf (en_catalog s) contract year = Inr (revision, Some previous)"
    and new: "uuid_parse (ew_env W)
       (deterministic_uuid (ew_env W) [''manifest'', logical_code contract, int_str year, int_str revision]) = Some km"
    and old: "dget previous ''id'' = Some (VStr pid)" "uuid_parse (ew_env W) pid = Some kp"
    and status: "has_status st (pb_manifest pub)"
  obtains available d rm sm where "st = (if available then ''AVAILABLE'' else ''QUARANTINED'')" "has_status st rm"
    "available \<Longrightarrow> has_status ''SUPERSEDED'' sm"
    "\<And>k. manifest_at (ew_str W) (en_catalog s) k = dget d k"
    "\<And>k. manifest_at (ew_str W) (en_catalog s') k = dget ((if available then dset kp sm else id) (dset km rm d)) k"
proof -
  obtain p store d km' rm where eff:
    "prepare_publication W cf contract year groups periods additional now (en_catalog s) (en_objects s) = (Inr p, store)"
    "pb_manifest pub = pl_manifest p" "final_row (ew_env W) (ew_str W) (pl_manifest p) = Some (km', rm)"
    "uuid_parse (ew_env W) (pl_manifest_id p) = Some km'"
    "\<And>k. manifest_at (ew_str W) (en_catalog s) k = dget d k"
    "\<And>k. manifest_at (ew_str W) (en_catalog s') k =
       dget ((case pl_previous p of Some q \<Rightarrow> if pl_available p then put_row (final_row (ew_env W) (ew_str W) (superseded q)) else id
              | None \<Rightarrow> id) (put_row (Some (km', rm)) d)) k"
    "\<And>q. pl_available p \<Longrightarrow> pl_previous p = Some q \<Longrightarrow> final_row (ew_env W) (ew_str W) (superseded q) \<noteq> None"
    "table_ok (ew_str W) (en_catalog s') MANIFESTS" "lc_snapshot (en_catalog s') = None"
    by (rule publication_effect[OF assms(1-3) run], rule that)
  obtain rev' where rows: "next_revision W cf (en_catalog s) contract year = Inr (rev', pl_previous p)"
    "pl_manifest_id p = deterministic_uuid (ew_env W) [''manifest'', logical_code contract, int_str year, int_str rev']"
    "dget (pl_manifest p) ''status'' = Some (VStr (if pl_available p then ''AVAILABLE'' else ''QUARANTINED''))"
    using prepared_rows[OF eff(1)] by metis
  have pv: "pl_previous p = Some previous" and km: "km' = km" using rows(1,2) rev new eff(4) by auto
  have st: "st = (if pl_available p then ''AVAILABLE'' else ''QUARANTINED'')" using status rows(3) eff(2) by (simp add: has_status_def)
  have rm: "has_status st rm" using final_row_facts(2)[OF eff(3) rows(3)] st by simp
  show ?thesis
  proof (cases "pl_available p")
    case False
    have "st = (if False then ''AVAILABLE'' else ''QUARANTINED'')" using st False by simp
    from that[OF this rm, of "[]" d] show ?thesis using eff(5,6) pv km False by (simp add: put_row_def)
  next
    case True
    obtain k row where row: "final_row (ew_env W) (ew_str W) (superseded previous) = Some (k, row)"
      using eff(7)[OF True pv] by auto
    have "dget (superseded previous) ''id'' = Some (VStr pid)" "dget (superseded previous) ''status'' = Some (VStr ''SUPERSEDED'')"
      using old by (simp_all add: superseded_def)
    then have sm: "k = kp" "has_status ''SUPERSEDED'' row" using final_row_facts[OF row] old(2) by auto
    have "st = (if True then ''AVAILABLE'' else ''QUARANTINED'')" using st True by simp
    from that[OF this rm, of row d] show ?thesis using eff(5,6) pv km True row sm by (simp add: put_row_def)
  qed
qed

text \<open>C5: A successful publication switches the dataset to the new revision and touches no other manifest:
  the row under the new manifest's id is AVAILABLE or QUARANTINED as the result says; when it is
  AVAILABLE, the revision it follows is SUPERSEDED; when it is QUARANTINED, that revision stays exactly as
  it was; every other manifest is unchanged.\<close>

theorem publication_switches_revision:
  assumes "codec_laws (ew_env W)" and "table_ok (ew_str W) (en_catalog s) MANIFESTS" and "lc_snapshot (en_catalog s) = None"
    and "publish_dataset W cf contract year groups periods source rel additional now s = (Inr pub, s')"
    and "next_revision W cf (en_catalog s) contract year = Inr (revision, Some previous)"
    and "uuid_parse (ew_env W)
       (deterministic_uuid (ew_env W) [''manifest'', logical_code contract, int_str year, int_str revision]) = Some km"
    and "dget previous ''id'' = Some (VStr pid)" "uuid_parse (ew_env W) pid = Some kp"
    and "has_status st (pb_manifest pub)" and other: "kp \<noteq> km"
  shows "(\<exists>row. manifest_at (ew_str W) (en_catalog s') km = Some row \<and> has_status st row) \<and>
    (st = ''AVAILABLE'' \<and> (\<exists>row. manifest_at (ew_str W) (en_catalog s') kp = Some row \<and> has_status ''SUPERSEDED'' row) \<or>
     st = ''QUARANTINED'' \<and> manifest_at (ew_str W) (en_catalog s') kp = manifest_at (ew_str W) (en_catalog s) kp) \<and>
    (\<forall>k. k \<noteq> km \<and> k \<noteq> kp \<longrightarrow> manifest_at (ew_str W) (en_catalog s') k = manifest_at (ew_str W) (en_catalog s) k)"
  by (rule publication_rows[OF assms(1-9)]) (use other in \<open>auto split: if_splits\<close>)

text \<open>C31: Publishing again under the number of the latest AVAILABLE revision leaves the dataset without an
  AVAILABLE manifest. A configured revision is refused only when it is smaller than the latest one; with
  the same number the new manifest has the previous one's id, so the row just made AVAILABLE is the row
  that is then marked SUPERSEDED.\<close>

theorem same_revision_erases_dataset:
  assumes "codec_laws (ew_env W)" and "table_ok (ew_str W) (en_catalog s) MANIFESTS" and "lc_snapshot (en_catalog s) = None"
    and "publish_dataset W cf contract year groups periods source rel additional now s = (Inr pub, s')"
    and "next_revision W cf (en_catalog s) contract year = Inr (revision, Some previous)"
    and "uuid_parse (ew_env W)
       (deterministic_uuid (ew_env W) [''manifest'', logical_code contract, int_str year, int_str revision]) = Some km"
    and "dget previous ''id'' = Some (VStr pid)" "uuid_parse (ew_env W) pid = Some km"
    and "has_status ''AVAILABLE'' (pb_manifest pub)"
  shows "\<exists>row. manifest_at (ew_str W) (en_catalog s') km = Some row \<and> has_status ''SUPERSEDED'' row"
  by (rule publication_rows[OF assms]) (auto split: if_splits)

section \<open>What the next revision keeps\<close>

lemma retained_objects_spec:
  "retained_objects E f m periods olds = Inr ks \<Longrightarrow>
   list_all (\<lambda>old. is_ok (replaced E f periods old)) olds \<and>
   list_all2 (\<lambda>old k. carry E f m old = Inr k) (filter (\<lambda>old. replaced E f periods old = Inr False) olds) ks"
proof (induction olds arbitrary: ks)
  case (Cons old olds)
  then obtain gone ks' where g: "replaced E f periods old = Inr gone" "retained_objects E f m periods olds = Inr ks'"
    by auto
  show ?case
  proof (cases gone)
    case False
    then obtain k where "carry E f m old = Inr k" "ks = k # ks'" using Cons.prems g by auto
    then show ?thesis using Cons.IH[OF g(2)] g(1) False by simp
  qed (use Cons g in auto)
qed simp

definition same_but_owner :: "doc \<Rightarrow> new_object \<Rightarrow> bool" where
  "same_but_owner old k \<longleftrightarrow>
     no_storage k = (case dget old ''storage'' of Some (VMap s) \<Rightarrow> s | _ \<Rightarrow> []) \<and> no_source_ids k = [] \<and>
     (\<forall>n. n \<noteq> ''id'' \<and> n \<noteq> ''dataset_manifest_id'' \<and> n \<noteq> ''storage'' \<longrightarrow> dget (no_relation k) n = dget old n)"

lemma carry_same: "carry E f m old = Inr k \<Longrightarrow> same_but_owner old k \<and> dget (no_relation k) ''dataset_manifest_id'' = Some (VStr m)"
  by (auto simp: carry_def same_but_owner_def get_item_def Let_def update_conv' delete_conv' split: option.splits pyval.splits)

lemma publication_retains:
  assumes prep: "prepare_publication W cf contract year groups periods additional now c s = (Inr p, store)"
    and prev: "pl_previous p = Some previous" "dget previous ''id'' = Some (VStr pid)"
    and olds: "objects_for_manifest (ew_env W) (ew_str W) c pid = Inr olds"
  shows "retained_objects (ew_env W) (ew_str W) (pl_manifest_id p) periods olds = Inr (pl_retained p)"
  by (rule prepared_cases[OF prep])
     (use prev olds in \<open>auto simp: plan_of_rows carried_def get_item_def py_str_def Let_def\<close>)

text \<open>C19: The next revision carries forward every object of the previous one whose partition meets none of
  the replaced periods, in order, with the same stored object and the same relation apart from its id and
  the manifest it belongs to, and carries no other.\<close>

theorem unreplaced_objects_are_carried:
  assumes "prepare_publication W cf contract year groups periods additional now c s = (Inr p, store)"
    and "pl_previous p = Some previous" and "dget previous ''id'' = Some (VStr pid)"
    and "objects_for_manifest (ew_env W) (ew_str W) c pid = Inr olds"
  shows "list_all2 same_but_owner (filter (\<lambda>old. replaced (ew_env W) (ew_str W) periods old \<noteq> Inr True) olds) (pl_retained p) \<and>
    list_all (\<lambda>k. dget (no_relation k) ''dataset_manifest_id'' = Some (VStr (pl_manifest_id p))) (pl_retained p)"
proof -
  note spec = retained_objects_spec[OF publication_retains[OF assms]]
  have ok: "\<forall>old\<in>set olds. \<exists>b. replaced (ew_env W) (ew_str W) periods old = Inr b"
  proof
    fix old assume "old \<in> set olds"
    then have "is_ok (replaced (ew_env W) (ew_str W) periods old)" using spec by (simp add: list_all_iff)
    then show "\<exists>b. replaced (ew_env W) (ew_str W) periods old = Inr b" by (cases "replaced (ew_env W) (ew_str W) periods old") auto
  qed
  have "filter (\<lambda>old. replaced (ew_env W) (ew_str W) periods old = Inr False) olds =
      filter (\<lambda>old. replaced (ew_env W) (ew_str W) periods old \<noteq> Inr True) olds"
    by (rule filter_cong) (use ok in auto)
  with spec have l: "list_all2 (\<lambda>old k. carry (ew_env W) (ew_str W) (pl_manifest_id p) old = Inr k)
      (filter (\<lambda>old. replaced (ew_env W) (ew_str W) periods old \<noteq> Inr True) olds) (pl_retained p)" by simp
  show ?thesis
  proof
    show "list_all2 same_but_owner (filter (\<lambda>old. replaced (ew_env W) (ew_str W) periods old \<noteq> Inr True) olds) (pl_retained p)"
      by (rule list_all2_mono[OF l]) (blast dest: carry_same)
    show "list_all (\<lambda>k. dget (no_relation k) ''dataset_manifest_id'' = Some (VStr (pl_manifest_id p))) (pl_retained p)"
      using l by (fastforce simp: list_all_length list_all2_conv_all_nth dest: carry_same)
  qed
qed

lemma overlapping_is_replaced:
  assumes "(d, e) \<in> set periods" and "dget old ''partition_start'' = Some v" "slice_date E f v = Inr a"
    and "dget old ''partition_end'' = Some w" "slice_date E f w = Inr b" and "a < e" "d < b"
  shows "replaced E f periods old = Inr True"
  using assms(1) unfolding replaced_def
proof (induction periods)
  case (Cons x xs)
  then show ?case using assms(2-) by (cases x) (auto simp: get_item_def overlaps_def)
qed simp

text \<open>C33: A day update drops the whole year of an annual dataset. A backfill publishes objects whose
  partition is the calendar year; an incremental publication replaces single days; since an old object is
  kept only when its partition meets no replaced period, nothing of the previous revision is carried, and
  the new revision holds the updated days alone.\<close>

theorem day_update_drops_the_year:
  assumes "prepare_publication W cf contract year groups periods additional now c s = (Inr p, store)"
    and "pl_previous p = Some previous" and "dget previous ''id'' = Some (VStr pid)"
    and "objects_for_manifest (ew_env W) (ew_str W) c pid = Inr olds"
    and annual: "list_all (\<lambda>old. dget old ''partition_start'' = Some first \<and> dget old ''partition_end'' = Some after) olds"
    and bounds: "slice_date (ew_env W) (ew_str W) first = Inr (ymd2ord year 1 1)"
      "slice_date (ew_env W) (ew_str W) after = Inr (ymd2ord (year + 1) 1 1)"
    and day: "(day, day + 1) \<in> set periods" "ymd2ord year 1 1 \<le> day" "day < ymd2ord (year + 1) 1 1"
  shows "pl_retained p = []"
proof -
  have "\<forall>old\<in>set olds. replaced (ew_env W) (ew_str W) periods old = Inr True"
  proof
    fix old assume "old \<in> set olds"
    then have "dget old ''partition_start'' = Some first" "dget old ''partition_end'' = Some after"
      using annual by (auto simp: list_all_iff)
    from overlapping_is_replaced[OF day(1) this(1) bounds(1) this(2) bounds(2)] day(2,3)
    show "replaced (ew_env W) (ew_str W) periods old = Inr True" by simp
  qed
  then have "filter (\<lambda>old. replaced (ew_env W) (ew_str W) periods old = Inr False) olds = []" by (auto simp: filter_empty_conv)
  then show ?thesis using retained_objects_spec[OF publication_retains[OF assms(1-4)]] by simp
qed

section \<open>A concrete publication\<close>

definition year_env :: env where
  "year_env = demo_env\<lparr>fromisoformat := (\<lambda>_. IsoAware 0), date_fromisoformat := dget [(''1970-01-01'', 719163), (''1971-01-01'', 719528)],
     uuid_parse := (\<lambda>s. if s = [] then None else Some s)\<rparr>"

lemma year_env_laws: "codec_laws year_env"
proof -
  have "isoformat_date 719163 = ''1970-01-01''" "isoformat_date 719528 = ''1971-01-01''" by code_simp+
  then show ?thesis by (auto simp: codec_laws_def year_env_def)
qed

definition year_world :: "(unit, unit) world" where
  "year_world = \<lparr>ew_env = year_env, ew_str = no_str, ew_remark = (\<lambda>_ _ _. []), ew_calendar = quiet_calendar,
     ew_say = plain_say, ew_text = (\<lambda>_. ''failed''), ew_sha = (\<lambda>_. ''h''), ew_json = (\<lambda>_. []),
     ew_parquet = (\<lambda>_. Inl (OtherError ''ArrowInvalid'')), ew_nbytes = (\<lambda>_. 0),
     ew_put = (\<lambda>_ _ s. (Inl (OtherError ''OSError''), s)), ew_verify = (\<lambda>_ _ _. Inl (OtherError ''OSError'')), ew_advance = None\<rparr>"

definition year_contract :: dataset_contract where
  "year_contract = mk_contract ''raw'' ''RAW'' ''30m'' RAW_FEED"

definition year_config :: "int option \<Rightarrow> pipeline_config" where
  "year_config r = \<lparr>pc_shard_count = 1, pc_target_size_mib = 1, pc_max_size_mib = 1, pc_revision = r, pc_resume = False, pc_dry_run = False\<rparr>"

definition first_id :: string where
  "first_id = deterministic_uuid year_env [''manifest'', logical_code year_contract, int_str 1970, int_str 1]"

definition first_manifest :: doc where
  "first_manifest =
     [(''data_layer'', VStr ''RAW''), (''feed_id'', VStr (feed_id_of year_env RAW_FEED)), (''id'', VStr first_id),
      (''period_start'', VStr ''1970-01-01T00:00:00Z''), (''resolution'', VStr ''30m''), (''revision_number'', VInt 1),
      (''status'', VStr ''AVAILABLE'')]"

definition year_engine :: "(unit, unit) engine" where
  "year_engine = \<lparr>en_catalog = new_catalog\<lparr>lc_files :=
       [(''dataset-manifests.jsonl'', [first_manifest]),
        (''storage-objects.jsonl'', [[(''content_hash'', VStr ''h''), (''id'', VStr ''S''), (''schema_version'', VStr SCHEMA_VERSION)]]),
        (''dataset-objects.jsonl'',
          [[(''dataset_manifest_id'', VStr first_id), (''id'', VStr ''R''), (''object_id'', VStr ''S''), (''object_kind'', VStr ''MARKET_BARS''),
            (''part_number'', VInt 1), (''partition_end'', VStr ''1971-01-01''), (''partition_granularity'', VStr ''YEAR''),
            (''partition_start'', VStr ''1970-01-01''), (''period_end'', VStr ''1970-01-02T00:00:00Z''),
            (''period_start'', VStr ''1970-01-01T00:00:00Z''), (''row_count'', VInt 1), (''shard_key'', VStr ''0000-of-0001'')]])]\<rparr>,
     en_objects = (), en_watermarks = (), en_run = None\<rparr>"

definition year_id :: "int \<Rightarrow> string" where
  "year_id n = deterministic_uuid year_env [''manifest'', logical_code year_contract, int_str 1970, int_str n]"

definition year_building :: "int \<Rightarrow> doc" where
  "year_building n =
     [(''id'', VStr (year_id n)), (''feed_id'', VStr (feed_id_of year_env RAW_FEED)),
      (''instrument_id'', VNone), (''data_layer'', VStr ''RAW''), (''resolution'', VStr ''30m''), (''revision_number'', VInt n),
      (''status'', VStr ''BUILDING''), (''period_start'', VStr ''1970-01-01T00:00:00Z''), (''period_end'', VStr ''1971-01-01T00:00:00Z''),
      (''schema_version'', VStr SCHEMA_VERSION), (''dataset_hash'', VStr ''h''),
      (''supersedes_manifest_id'', VStr first_id), (''created_at'', VStr ''1970-01-01T00:00:00+00:00''), (''available_at'', VNone)]"

definition year_kept :: "int \<Rightarrow> new_object" where
  "year_kept n =
     \<lparr>no_storage = [(''content_hash'', VStr ''h''), (''id'', VStr ''S''), (''schema_version'', VStr SCHEMA_VERSION)],
      no_relation =
        [(''dataset_manifest_id'', VStr (year_id n)),
         (''id'', VStr (deterministic_uuid year_env [''dataset-object'', year_id n, ''S''])), (''object_id'', VStr ''S''),
         (''object_kind'', VStr ''MARKET_BARS''), (''part_number'', VInt 1), (''partition_end'', VStr ''1971-01-01''),
         (''partition_granularity'', VStr ''YEAR''), (''partition_start'', VStr ''1970-01-01''),
         (''period_end'', VStr ''1970-01-02T00:00:00Z''), (''period_start'', VStr ''1970-01-01T00:00:00Z''), (''row_count'', VInt 1),
         (''shard_key'', VStr ''0000-of-0001'')],
      no_source_ids = []\<rparr>"

definition year_plan :: "int \<Rightarrow> plan" where
  "year_plan n =
     \<lparr>pl_manifest_id = year_id n, pl_building = year_building n,
      pl_manifest = dset ''available_at'' (VStr ''1970-01-01T00:00:00+00:00'') (dset ''period_end'' (VStr ''1970-01-02T00:00:00Z'')
        (dset ''status'' (VStr ''AVAILABLE'') (year_building n))),
      pl_previous = Some first_manifest, pl_available = True, pl_new = [], pl_retained = [year_kept n], pl_incidents = [],
      pl_observed_end = VStr ''1970-01-02T00:00:00Z''\<rparr>"

definition year_steps_hold :: "int \<Rightarrow> bool" where
  "year_steps_hold n \<longleftrightarrow>
     carried year_world (en_catalog year_engine) (year_id n) [] (Some first_manifest) = Inr [year_kept n] \<and>
     plan_of year_world (Some first_manifest) (year_id n) (year_building n) [] [year_kept n] [] 0 = Inr (year_plan n) \<and>
     is_ok (fst (commit_publication year_world None ''REVISED'' None 0 (year_plan n) (en_catalog year_engine)))"

lemma year_dates:
  "mk_date 1970 1 1 = Inr 719163" "partition_bounds year_env (DDate 719163) ''YEAR'' = Inr (719163, 719528)"
  "et_midnight year_env 719163 = 0" "et_midnight year_env 719528 = 31536000000000"
  "iso_utc 0 = ''1970-01-01T00:00:00Z''" "iso_utc 31536000000000 = ''1971-01-01T00:00:00Z''"
  "offset_text 0 = ''1970-01-01T00:00:00+00:00''"
  by code_simp+

lemma year_opens:
  assumes "next_revision year_world cf (en_catalog year_engine) year_contract 1970 = Inr (n, Some first_manifest)"
  shows "opening_of year_world cf year_contract 1970 0 (en_catalog year_engine) =
    Inr (n, Some first_manifest, year_id n, year_building n)"
proof -
  have W: "ew_env year_world = year_env" "ew_sha year_world = (\<lambda>_. ''h'')" by (simp_all add: year_world_def)
  have C: "dc_feed_code year_contract = RAW_FEED" "dc_data_layer year_contract = ''RAW''" "dc_resolution year_contract = ''30m''"
    by code_simp+
  have I: "get_item first_manifest ''id'' = Inr (VStr first_id)" by (simp add: get_item_def first_manifest_def)
  show ?thesis
    by (simp add: opening_of_def assms W C I year_dates partition_utc_bounds_def building_row_def year_id_def year_building_def Let_def)
qed

lemma year_publishes:
  assumes rev: "next_revision year_world cf (en_catalog year_engine) year_contract 1970 = Inr (n, Some first_manifest)"
    and steps: "year_steps_hold n"
  obtains pub s' where
    "publish_dataset year_world cf year_contract 1970 [] [] None ''REVISED'' [] 0 year_engine = (Inr pub, s')"
    "has_status ''AVAILABLE'' (pb_manifest pub)"
proof -
  define p where "p = year_plan n"
  have p: "carried year_world (en_catalog year_engine) (year_id n) [] (Some first_manifest) = Inr [year_kept n]"
      "plan_of year_world (Some first_manifest) (year_id n) (year_building n) [] [year_kept n] [] 0 = Inr p"
      "is_ok (fst (commit_publication year_world None ''REVISED'' None 0 p (en_catalog year_engine)))"
    using steps by (simp_all only: year_steps_hold_def p_def)
  have available: "dget (pl_manifest p) ''status'' = Some (VStr ''AVAILABLE'')" by (simp add: p_def year_plan_def year_building_def)
  have "prepare_publication year_world cf year_contract 1970 [] [] [] 0 (en_catalog year_engine) () = (Inr p, ())"
    by (simp add: prepare_publication_def year_opens[OF rev] p)
  moreover obtain c where "commit_publication year_world None ''REVISED'' None 0 p (en_catalog year_engine) = (Inr (), c)"
    using p(3) by (cases "commit_publication year_world None ''REVISED'' None 0 p (en_catalog year_engine)")
      (auto split: sum.splits elim: is_ok.elims)
  ultimately have run: "publish_dataset year_world cf year_contract 1970 [] [] None ''REVISED'' [] 0 year_engine =
      (Inr \<lparr>pb_manifest = pl_manifest p, pb_new_object_count = length (pl_new p),
            pb_retained_object_count = length (pl_retained p), pb_incident_count = length (pl_incidents p)\<rparr>,
       year_engine\<lparr>en_catalog := c\<rparr>)"
    by (simp add: publish_dataset_def year_engine_def project_watermark_def year_world_def)
  show ?thesis by (rule that[OF run]) (simp add: has_status_def available)
qed

lemma year_tables: "table_ok no_str (en_catalog year_engine) MANIFESTS" "lc_snapshot (en_catalog year_engine) = None"
proof -
  have "path_of MANIFESTS = Inr ''dataset-manifests.jsonl''" by code_simp
  moreover have "dget (lc_files (en_catalog year_engine)) ''dataset-manifests.jsonl'' = Some [first_manifest]" by code_simp
  moreover have "row_ok first_manifest \<and> is_ok (row_id no_str first_manifest)" by code_simp
  ultimately show "table_ok no_str (en_catalog year_engine) MANIFESTS" by (simp add: table_ok_def)
qed (simp add: year_engine_def new_catalog_def)

lemma year_revisions:
  "next_revision year_world (year_config None) (en_catalog year_engine) year_contract 1970 = Inr (2, Some first_manifest)"
  "next_revision year_world (year_config (Some 1)) (en_catalog year_engine) year_contract 1970 = Inr (1, Some first_manifest)"
  by code_simp+

lemma year_kept_holds:
  "carried year_world (en_catalog year_engine) (year_id 2) [] (Some first_manifest) = Inr [year_kept 2]"
  "carried year_world (en_catalog year_engine) (year_id 1) [] (Some first_manifest) = Inr [year_kept 1]"
  by code_simp+

lemma year_plan_holds:
  "plan_of year_world (Some first_manifest) (year_id 2) (year_building 2) [] [year_kept 2] [] 0 = Inr (year_plan 2)"
  "plan_of year_world (Some first_manifest) (year_id 1) (year_building 1) [] [year_kept 1] [] 0 = Inr (year_plan 1)"
  by code_simp+

lemma year_commits: "is_ok (fst (commit_publication year_world None ''REVISED'' None 0 (year_plan 2) (en_catalog year_engine)))"
  by code_simp

lemma year_commits_again: "is_ok (fst (commit_publication year_world None ''REVISED'' None 0 (year_plan 1) (en_catalog year_engine)))"
  by code_simp

lemma year_parses: "uuid_parse year_env (year_id n) = Some (year_id n)" "year_id 1 = first_id" "year_id 2 \<noteq> first_id"
  "dget first_manifest ''id'' = Some (VStr first_id)"
proof -
  have "year_id n = ''manifest'' @ ''|'' @ logical_code year_contract @ ''|'' @ int_str 1970 @ ''|'' @ int_str n"
    by (simp add: year_id_def deterministic_uuid_def year_env_def demo_env_def)
  then show "uuid_parse year_env (year_id n) = Some (year_id n)" by (simp add: year_env_def)
qed (simp add: year_id_def first_id_def, code_simp, simp add: first_manifest_def)

lemma year_fields: "ew_env year_world = year_env" "ew_str year_world = no_str"
  by (simp_all add: year_world_def)

theorem publication_switches_revision_witness:
  "\<exists>pub s' row old. publish_dataset year_world (year_config None) year_contract 1970 [] [] None ''REVISED'' [] 0 year_engine = (Inr pub, s') \<and>
     manifest_at no_str (en_catalog s') (year_id 2) = Some row \<and> has_status ''AVAILABLE'' row \<and>
     manifest_at no_str (en_catalog s') first_id = Some old \<and> has_status ''SUPERSEDED'' old"
proof -
  have steps: "year_steps_hold 2" unfolding year_steps_hold_def using year_kept_holds(1) year_plan_holds(1) year_commits by blast
  obtain pub s' where run: "publish_dataset year_world (year_config None) year_contract 1970 [] [] None ''REVISED'' [] 0 year_engine = (Inr pub, s')"
    and status: "has_status ''AVAILABLE'' (pb_manifest pub)"
    by (rule year_publishes[OF year_revisions(1) steps])
  note facts = publication_switches_revision[where W = year_world, unfolded year_fields, OF year_env_laws year_tables run year_revisions(1)
      year_parses(1)[of 2, unfolded year_id_def] year_parses(4) year_parses(1)[of 1, unfolded year_parses(2)] status]
  show ?thesis using facts run year_parses(3) by (auto simp: year_id_def)
qed

theorem same_revision_erases_dataset_witness:
  "\<exists>pub s' row. publish_dataset year_world (year_config (Some 1)) year_contract 1970 [] [] None ''REVISED'' [] 0 year_engine = (Inr pub, s') \<and>
     has_status ''AVAILABLE'' (pb_manifest pub) \<and>
     manifest_at no_str (en_catalog s') first_id = Some row \<and> has_status ''SUPERSEDED'' row"
proof -
  have steps: "year_steps_hold 1" unfolding year_steps_hold_def using year_kept_holds(2) year_plan_holds(2) year_commits_again by blast
  obtain pub s' where run: "publish_dataset year_world (year_config (Some 1)) year_contract 1970 [] [] None ''REVISED'' [] 0 year_engine = (Inr pub, s')"
    and status: "has_status ''AVAILABLE'' (pb_manifest pub)"
    by (rule year_publishes[OF year_revisions(2) steps])
  have parse: "uuid_parse year_env (deterministic_uuid year_env [''manifest'', logical_code year_contract, int_str 1970, int_str 1]) = Some first_id"
    using year_parses(1)[of 1] by (simp add: year_id_def first_id_def)
  note facts = same_revision_erases_dataset[where W = year_world, unfolded year_fields, OF year_env_laws year_tables run year_revisions(2)
      parse year_parses(4) year_parses(1)[of 1, unfolded year_parses(2)] status]
  show ?thesis using facts run status by blast
qed


lemma year_objects:
  "objects_for_manifest year_env no_str (en_catalog year_engine) first_id =
     Inr [dset ''storage'' (VMap (no_storage (year_kept 1)))
       [(''dataset_manifest_id'', VStr first_id), (''id'', VStr ''R''), (''object_id'', VStr ''S''), (''object_kind'', VStr ''MARKET_BARS''),
        (''part_number'', VInt 1), (''partition_end'', VStr ''1971-01-01''), (''partition_granularity'', VStr ''YEAR''),
        (''partition_start'', VStr ''1970-01-01''), (''period_end'', VStr ''1970-01-02T00:00:00Z''),
        (''period_start'', VStr ''1970-01-01T00:00:00Z''), (''row_count'', VInt 1), (''shard_key'', VStr ''0000-of-0001'')]]"
  by code_simp

theorem unreplaced_objects_are_carried_witness:
  "\<exists>p old. prepare_publication year_world (year_config None) year_contract 1970 [] [] [] 0 (en_catalog year_engine) () = (Inr p, ()) \<and>
     objects_for_manifest year_env no_str (en_catalog year_engine) first_id = Inr [old] \<and>
     list_all2 same_but_owner [old] (pl_retained p)"
proof -
  have prep: "prepare_publication year_world (year_config None) year_contract 1970 [] [] [] 0 (en_catalog year_engine) () = (Inr (year_plan 2), ())"
    by (simp add: prepare_publication_def year_opens[OF year_revisions(1)] year_kept_holds(1) year_plan_holds(1))
  have "pl_previous (year_plan 2) = Some first_manifest" by (simp add: year_plan_def)
  from unreplaced_objects_are_carried[OF prep this year_parses(4), unfolded year_fields, OF year_objects]
  show ?thesis using prep year_objects by (auto simp: replaced_def)
qed

theorem day_update_drops_the_year_witness:
  "\<exists>p. prepare_publication year_world (year_config None) year_contract 1970 [] [(719200, 719201)] [] 0 (en_catalog year_engine) () = (Inr p, ()) \<and>
     pl_retained p = [] \<and> \<not> pl_available p"
proof -
  have c: "carried year_world (en_catalog year_engine) (year_id 2) [(719200, 719201)] (Some first_manifest) = Inr []" by code_simp
  have "is_ok (plan_of year_world (Some first_manifest) (year_id 2) (year_building 2) [] [] [] 0)" by code_simp
  then obtain p where p: "plan_of year_world (Some first_manifest) (year_id 2) (year_building 2) [] [] [] 0 = Inr p"
    by (cases "plan_of year_world (Some first_manifest) (year_id 2) (year_building 2) [] [] [] 0") auto
  have prep: "prepare_publication year_world (year_config None) year_contract 1970 [] [(719200, 719201)] [] 0 (en_catalog year_engine) () = (Inr p, ())"
    by (simp add: prepare_publication_def year_opens[OF year_revisions(1)] c p)
  have dates: "slice_date year_env no_str (VStr ''1970-01-01'') = Inr (ymd2ord 1970 1 1)"
      "slice_date year_env no_str (VStr ''1971-01-01'') = Inr (ymd2ord (1970 + 1) 1 1)" by code_simp+
  have days: "ymd2ord 1970 1 1 \<le> 719200" "719200 < ymd2ord (1970 + 1) 1 1" by code_simp+
  have "pl_retained p = []"
    by (rule day_update_drops_the_year[OF prep plan_of_rows(1)[OF p] year_parses(4), unfolded year_fields,
          OF year_objects _ dates _ days]) simp_all
  then show ?thesis using prep p by (auto simp: plan_of_def Let_def)
qed

end
