(* ===== verification/Corporate_Actions.thy ===== *)
theory Corporate_Actions
  imports Numeric Quality Catalog "HOL-Library.Multiset"
begin

text \<open>
  \<open>market_pipeline_lib/corporate_actions/adjustment.py\<close> and the terms of
  \<open>corporate_action_research.py\<close>: what a split or a cash dividend does to a raw bar series. \<open>Decimal\<close> is a
  rational; every operation of the default context rounds to 28 significant digits, half to even, and
  \<open>quantize\<close> raises when its result needs more.
\<close>

section \<open>Arithmetic of the default decimal context\<close>

fun digit_count :: "int \<Rightarrow> nat" where
  "digit_count n = (if n < 10 then 1 else Suc (digit_count (n div 10)))"

declare digit_count.simps [simp del]

text \<open>The exponent of the leading digit of a positive number.\<close>

definition magnitude :: "rat \<Rightarrow> int" where
  "magnitude x =
     (case quotient_of x of (a, b) \<Rightarrow>
        let k = int (digit_count a) - int (digit_count b) in if x < 10 powi k then k - 1 else k)"

definition dec_round :: "rat \<Rightarrow> rat" where
  "dec_round x =
     (if x = 0 then 0
      else let e = magnitude \<bar>x\<bar> - 27 in of_int (round_half_even (x / 10 powi e)) * 10 powi e)"

definition dec_mul :: "rat \<Rightarrow> rat \<Rightarrow> rat" where "dec_mul x y = dec_round (x * y)"
definition dec_div :: "rat \<Rightarrow> rat \<Rightarrow> rat" where "dec_div x y = dec_round (x / y)"
definition dec_sub :: "rat \<Rightarrow> rat \<Rightarrow> rat" where "dec_sub x y = dec_round (x - y)"

definition context_limit :: int where "context_limit = 10000000000000000000000000000"

definition quantize_price :: "rat \<Rightarrow> rat res" where
  "quantize_price x =
     (let m = round_half_even (x * of_int quantum_scale)
      in if context_limit \<le> \<bar>m\<bar> then Inl InvalidOperation else Inr (of_int m / of_int quantum_scale))"

definition quantize_whole :: "rat \<Rightarrow> int res" where
  "quantize_whole x =
     (let m = round_half_even x in if context_limit \<le> \<bar>m\<bar> then Inl InvalidOperation else Inr m)"

section \<open>Terms\<close>

datatype terms = SplitTerms int int | CashDividendTerms rat string

definition event_type :: "terms \<Rightarrow> string" where
  "event_type t = (case t of SplitTerms _ _ \<Rightarrow> ''STOCK_SPLIT'' | CashDividendTerms _ _ \<Rightarrow> ''CASH_DIVIDEND'')"

definition mk_split :: "int \<Rightarrow> int \<Rightarrow> terms res" where
  "mk_split from_shares to_shares =
     (if from_shares \<le> 0 \<or> to_shares \<le> 0 \<or> from_shares = to_shares then Inl ValueError
      else Inr (SplitTerms from_shares to_shares))"

definition is_currency :: "string \<Rightarrow> bool" where
  "is_currency s \<longleftrightarrow> length s = 3 \<and> list_all (\<lambda>c. CHR ''A'' \<le> c \<and> c \<le> CHR ''Z'') s"

definition mk_dividend :: "rat \<Rightarrow> string \<Rightarrow> terms res" where
  "mk_dividend amount currency =
     (if amount \<le> 0 \<or> \<not> is_currency currency then Inl ValueError else Inr (CashDividendTerms amount currency))"

text \<open>\<open>decimal_of\<close> is \<open>Decimal(text)\<close> on the texts of finite numbers.\<close>

definition parse_split :: "pyval \<Rightarrow> terms res" where
  "parse_split payload =
     (case payload of
        VMap d \<Rightarrow>
          (case bindE (get_item d ''from_shares'') (\<lambda>a. bindE (get_item d ''to_shares'') (\<lambda>b.
                  bindE (issue_int (OVal a)) (\<lambda>m. bindE (issue_int (OVal b)) (\<lambda>n. mk_split m n)))) of
             Inl _ \<Rightarrow> Inl ValueError | Inr t \<Rightarrow> Inr t)
      | _ \<Rightarrow> Inl ValueError)"

definition parse_dividend :: "(string \<Rightarrow> rat option) \<Rightarrow> (pyobj \<Rightarrow> string) \<Rightarrow> pyval \<Rightarrow> terms res" where
  "parse_dividend decimal_of f payload =
     (case payload of
        VMap d \<Rightarrow>
          (case dget d ''amount'' of
             None \<Rightarrow> Inl ValueError
           | Some a \<Rightarrow>
               (case decimal_of (py_str f a) of
                  None \<Rightarrow> Inl ValueError
                | Some x \<Rightarrow> (case dget d ''currency'' of None \<Rightarrow> Inl ValueError | Some c \<Rightarrow> mk_dividend x (py_str f c))))
      | _ \<Rightarrow> Inl TypeError)"

definition parse_terms :: "(string \<Rightarrow> rat option) \<Rightarrow> (pyobj \<Rightarrow> string) \<Rightarrow> string \<Rightarrow> pyval \<Rightarrow> terms res" where
  "parse_terms decimal_of f event payload =
     (if event = ''STOCK_SPLIT'' then parse_split payload
      else if event = ''CASH_DIVIDEND'' then parse_dividend decimal_of f payload
      else Inl ValueError)"

section \<open>Bars, factors and actions\<close>

record raw_bar =
  rb_instrument :: string
  rb_start :: instant
  rb_open :: rat
  rb_high :: rat
  rb_low :: rat
  rb_close :: rat
  rb_volume :: int
  rb_symbol :: "string option"
  rb_session :: pyobj
  rb_trades :: "int option"
  rb_vwap :: "rat option"

definition mk_raw_bar :: "raw_bar \<Rightarrow> raw_bar res" where
  "mk_raw_bar b =
     (if list_ex (\<lambda>x. x \<le> 0) [rb_open b, rb_high b, rb_low b, rb_close b] \<or> rb_volume b < 0 then Inl ValueError else Inr b)"

record factor =
  af_price :: rat
  af_volume :: rat

definition mk_factor :: "rat \<Rightarrow> rat \<Rightarrow> factor res" where
  "mk_factor p v = (if p \<le> 0 \<or> v \<le> 0 then Inl ValueError else Inr \<lparr>af_price = p, af_volume = v\<rparr>)"

record approved_action =
  aa_type :: string
  aa_effective :: instant
  aa_terms :: terms

definition mk_action :: "string \<Rightarrow> instant \<Rightarrow> terms \<Rightarrow> approved_action res" where
  "mk_action kind effective t =
     (if kind \<noteq> event_type t then Inl ValueError else Inr \<lparr>aa_type = kind, aa_effective = effective, aa_terms = t\<rparr>)"

definition split_factor :: "int \<Rightarrow> int \<Rightarrow> factor res" where
  "split_factor from_shares to_shares =
     bindE (quantize_price (dec_div (of_int from_shares) (of_int to_shares))) (\<lambda>p.
     bindE (quantize_price (dec_div (of_int to_shares) (of_int from_shares))) (\<lambda>v. mk_factor p v))"

definition cash_dividend_factor :: "rat \<Rightarrow> rat \<Rightarrow> factor res" where
  "cash_dividend_factor amount previous_close =
     (if previous_close \<le> 0 \<or> previous_close \<le> amount then Inl ValueError
      else bindE (quantize_price (dec_div (dec_sub previous_close amount) previous_close)) (\<lambda>p.
           bindE (quantize_price 1) (\<lambda>v. mk_factor p v)))"

definition factor_for :: "approved_action \<Rightarrow> raw_bar list \<Rightarrow> factor res" where
  "factor_for a bars =
     (case aa_terms a of
        SplitTerms m n \<Rightarrow> split_factor m n
      | CashDividendTerms amount _ \<Rightarrow>
          (case filter (\<lambda>b. rb_start b < aa_effective a) bars of
             [] \<Rightarrow> Inl ValueError
           | b # bs \<Rightarrow> cash_dividend_factor amount (rb_close (max_by rb_start b bs))))"

section \<open>The adjusted series\<close>

text \<open>The factors of the actions that take effect after an instant, multiplied in the order given.\<close>

definition compound :: "(factor \<Rightarrow> rat) \<Rightarrow> (approved_action \<times> factor) list \<Rightarrow> instant \<Rightarrow> rat" where
  "compound get priced t =
     fold (\<lambda>(a, g) acc. if t < aa_effective a then dec_mul acc (get g) else acc) priced 1"

definition adjust_bar :: "(approved_action \<times> factor) list \<Rightarrow> raw_bar \<Rightarrow> raw_bar res" where
  "adjust_bar priced b =
     (let p = compound af_price priced (rb_start b); v = compound af_volume priced (rb_start b);
          scaled = (\<lambda>x. quantize_price (dec_mul x p))
      in bindE (scaled (rb_open b)) (\<lambda>op. bindE (scaled (rb_high b)) (\<lambda>hi.
         bindE (scaled (rb_low b)) (\<lambda>lo. bindE (scaled (rb_close b)) (\<lambda>cl.
         bindE (quantize_whole (dec_mul (of_int (rb_volume b)) v)) (\<lambda>vol.
         bindE (case rb_vwap b of None \<Rightarrow> Inr None | Some w \<Rightarrow> bindE (scaled w) (\<lambda>x. Inr (Some x))) (\<lambda>vw.
           mk_raw_bar (b\<lparr>rb_open := op, rb_high := hi, rb_low := lo, rb_close := cl, rb_volume := vol, rb_vwap := vw\<rparr>))))))))"

definition adjusted_bars :: "raw_bar list \<Rightarrow> approved_action list \<Rightarrow> raw_bar list res" where
  "adjusted_bars bars actions =
     (let ordered = sort_key rb_start bars in
      bindE (mapE (\<lambda>a. bindE (factor_for a ordered) (\<lambda>g. Inr (a, g))) actions) (\<lambda>priced.
        mapE (adjust_bar priced) ordered))"

section \<open>Rounding is monotone and keeps short numbers\<close>

lemma digit_count_bounds: "0 < n \<Longrightarrow> 0 < digit_count n \<and> 10 ^ (digit_count n - 1) \<le> n \<and> n < 10 ^ digit_count n"
proof (induction n rule: digit_count.induct)
  case (1 n)
  show ?case
  proof (cases "n < 10")
    case True
    then show ?thesis using 1(2) by (simp add: digit_count.simps[of n])
  next
    case False
    define d where "d = digit_count (n div 10)"
    have ih: "0 < d" "10 ^ (d - 1) \<le> n div 10" "n div 10 < 10 ^ d"
      using 1(1)[OF False] False unfolding d_def by auto
    have c: "digit_count n = Suc d" using False by (simp add: digit_count.simps[of n] d_def)
    have p: "(10::int) ^ d = 10 * 10 ^ (d - 1)" using ih(1) by (cases d) auto
    have "10 * 10 ^ (d - 1) \<le> n" "n < 10 * 10 ^ d" using ih(2,3) by linarith+
    then show ?thesis by (simp add: c p)
  qed
qed

lemma powi_le: "m \<le> n \<Longrightarrow> (10::rat) powi m \<le> 10 powi n"
  by (rule power_int_increasing) simp_all

lemma powi_less: "(10::rat) powi m < 10 powi n \<Longrightarrow> m < n"
  by (rule ccontr) (use powi_le[of n m] in simp)

lemma powi_add: "(10::rat) powi (m + n) = 10 powi m * 10 powi n"
  by (simp add: power_int_add)

lemma magnitude_bounds:
  assumes "0 < x"
  shows "10 powi magnitude x \<le> x \<and> x < 10 powi (magnitude x + 1)"
proof -
  obtain a b where q: "quotient_of x = (a, b)" by (cases "quotient_of x")
  have b: "0 < b" using q quotient_of_denom_pos by blast
  have x: "x = of_int a / of_int b" using q quotient_of_div by blast
  have a: "0 < a" using assms b unfolding x by (simp add: zero_less_divide_iff)
  define m n where "m = digit_count a" and "n = digit_count b"
  have da: "0 < m" "10 ^ (m - 1) \<le> a" "a < 10 ^ m" using digit_count_bounds[OF a] by (auto simp: m_def)
  have db: "0 < n" "10 ^ (n - 1) \<le> b" "b < 10 ^ n" using digit_count_bounds[OF b] by (auto simp: n_def)
  define k where "k = int m - int n"
  have pa: "(10::rat) powi (int m - 1) \<le> of_int a" "of_int a < (10::rat) powi int m"
  proof -
    have "int m - 1 = int (m - 1)" using da(1) by simp
    then have "(10::rat) powi (int m - 1) = of_int (10 ^ (m - 1))" by (simp only: power_int_of_nat) simp
    then show "(10::rat) powi (int m - 1) \<le> of_int a" using da(2) by (simp only: of_int_le_iff)
    have "of_int a < (of_int (10 ^ m) :: rat)" using da(3) by (simp only: of_int_less_iff)
    then show "of_int a < (10::rat) powi int m" by simp
  qed
  have pb: "(10::rat) powi (int n - 1) \<le> of_int b" "of_int b < (10::rat) powi int n"
  proof -
    have "int n - 1 = int (n - 1)" using db(1) by simp
    then have "(10::rat) powi (int n - 1) = of_int (10 ^ (n - 1))" by (simp only: power_int_of_nat) simp
    then show "(10::rat) powi (int n - 1) \<le> of_int b" using db(2) by (simp only: of_int_le_iff)
    have "of_int b < (of_int (10 ^ n) :: rat)" using db(3) by (simp only: of_int_less_iff)
    then show "of_int b < (10::rat) powi int n" by simp
  qed
  have rb: "(0::rat) < of_int b" using b by simp
  have "(10::rat) powi (k - 1) * of_int b \<le> 10 powi (k - 1) * 10 powi int n" using pb(2) by (simp add: less_imp_le)
  also have "\<dots> = 10 powi (int m - 1)" unfolding powi_add[symmetric] by (simp add: k_def)
  also have "\<dots> \<le> of_int a" by (rule pa)
  finally have low: "10 powi (k - 1) \<le> x" using rb unfolding x by (simp add: pos_le_divide_eq)
  have "of_int a < (10::rat) powi int m" by (rule pa)
  also have "\<dots> = 10 powi (k + 1) * 10 powi (int n - 1)" unfolding powi_add[symmetric] by (simp add: k_def)
  also have "\<dots> \<le> 10 powi (k + 1) * of_int b" using pb(1) by simp
  finally have high: "x < 10 powi (k + 1)" using rb unfolding x by (simp add: pos_divide_less_eq)
  show ?thesis
  proof (cases "x < 10 powi k")
    case True
    then have "magnitude x = k - 1" unfolding magnitude_def q by (simp add: k_def m_def n_def)
    then show ?thesis using low True by simp
  next
    case False
    then have "magnitude x = k" unfolding magnitude_def q by (simp add: k_def m_def n_def)
    then show ?thesis using high False by simp
  qed
qed

lemma magnitude_unique: "10 powi e \<le> x \<Longrightarrow> x < 10 powi (e + 1) \<Longrightarrow> magnitude x = e"
proof -
  assume l: "10 powi e \<le> x" and u: "x < 10 powi (e + 1)"
  have "(0::rat) < 10 powi e" by simp
  with l have "0 < x" by linarith
  note m = magnitude_bounds[OF this]
  have "10 powi e < (10::rat) powi (magnitude x + 1)" "(10::rat) powi magnitude x < 10 powi (e + 1)" using l u m by linarith+
  from this[THEN powi_less] show "magnitude x = e" by simp
qed

lemma round_half_even_mono: "x \<le> y \<Longrightarrow> round_half_even x \<le> round_half_even y"
proof -
  assume xy: "x \<le> y"
  define f g where "f = \<lfloor>x\<rfloor>" and "g = \<lfloor>y\<rfloor>"
  have fx: "of_int f \<le> x" "x < of_int f + 1" unfolding f_def by linarith+
  have gy: "of_int g \<le> y" "y < of_int g + 1" unfolding g_def by linarith+
  have fg: "f \<le> g" using xy unfolding f_def g_def by (rule floor_mono)
  show ?thesis
  proof (cases "f = g")
    case True
    then show ?thesis using xy unfolding round_half_even_def f_def[symmetric] g_def[symmetric] Let_def by auto
  next
    case False
    then have "f + 1 \<le> g" using fg by simp
    then show ?thesis unfolding round_half_even_def f_def[symmetric] g_def[symmetric] Let_def by auto
  qed
qed

lemma round_half_even_nonneg: "0 \<le> x \<Longrightarrow> 0 \<le> round_half_even x"
  using round_half_even_mono[of 0 x] round_half_even_of_int[of 0] by simp

lemma dec_round_pos_bounds:
  assumes "0 < x"
  shows "10 powi magnitude x \<le> dec_round x \<and> dec_round x \<le> 10 powi (magnitude x + 1)"
proof -
  define e where "e = magnitude x - 27"
  have p: "(0::rat) < 10 powi e" by simp
  have eqs: "magnitude x = 27 + e" "magnitude x + 1 = 28 + e" by (simp_all add: e_def)
  have ten: "(10::rat) powi 27 = of_int (10 ^ 27)" "(10::rat) powi 28 = of_int (10 ^ 28)" by simp_all
  have split: "(10::rat) powi (27 + e) = of_int (10 ^ 27) * 10 powi e" "(10::rat) powi (28 + e) = of_int (10 ^ 28) * 10 powi e"
    by (simp_all add: power_int_add)
  note m = magnitude_bounds[OF assms, unfolded eqs(2), unfolded eqs(1) split]
  have "of_int (10 ^ 27) \<le> x / 10 powi e" "x / 10 powi e \<le> of_int (10 ^ 28)"
    using m p by (simp_all only: pos_le_divide_eq pos_divide_le_eq less_imp_le)
  from this[THEN round_half_even_mono] have "10 ^ 27 \<le> round_half_even (x / 10 powi e)" "round_half_even (x / 10 powi e) \<le> 10 ^ 28"
    unfolding round_half_even_of_int .
  then have "of_int (10 ^ 27) \<le> (of_int (round_half_even (x / 10 powi e)) :: rat)"
      "of_int (round_half_even (x / 10 powi e)) \<le> (of_int (10 ^ 28) :: rat)" by (simp_all only: of_int_le_iff)
  moreover have "dec_round x = of_int (round_half_even (x / 10 powi e)) * 10 powi e"
    using assms by (simp add: dec_round_def e_def Let_def)
  ultimately show ?thesis unfolding eqs(2) unfolding eqs(1) split using p by (simp add: mult_right_mono)
qed

lemma dec_round_pos: "0 < x \<Longrightarrow> 0 < dec_round x"
proof -
  assume "0 < x"
  from dec_round_pos_bounds[OF this] have "10 powi magnitude x \<le> dec_round x" by simp
  moreover have "(0::rat) < 10 powi magnitude x" by simp
  ultimately show ?thesis by linarith
qed

lemma dec_round_mono: "0 \<le> x \<Longrightarrow> x \<le> y \<Longrightarrow> dec_round x \<le> dec_round y"
proof -
  assume x: "0 \<le> x" and xy: "x \<le> y"
  show ?thesis
  proof (cases "x = 0")
    case True
    then show ?thesis using dec_round_pos[of y] xy by (cases "y = 0") (auto simp: dec_round_def[of 0])
  next
    case False
    then have p: "0 < x" "0 < y" using x xy by auto
    note mx = magnitude_bounds[OF p(1)] and my = magnitude_bounds[OF p(2)]
    have "10 powi magnitude x < (10::rat) powi (magnitude y + 1)" using mx my xy by linarith
    from powi_less[OF this] have le: "magnitude x \<le> magnitude y" by simp
    show ?thesis
    proof (cases "magnitude x = magnitude y")
      case True
      have "x / 10 powi (magnitude x - 27) \<le> y / 10 powi (magnitude x - 27)" using xy by (simp add: divide_right_mono)
      from round_half_even_mono[OF this] show ?thesis
        using p True by (simp add: dec_round_def Let_def mult_right_mono)
    next
      case False
      then have "(10::rat) powi (magnitude x + 1) \<le> 10 powi magnitude y" using le by (intro powi_le) simp
      then show ?thesis using dec_round_pos_bounds[OF p(1)] dec_round_pos_bounds[OF p(2)] by linarith
    qed
  qed
qed

lemma quantize_price_mono: "quantize_price x = Inr p \<Longrightarrow> quantize_price y = Inr q \<Longrightarrow> x \<le> y \<Longrightarrow> p \<le> q"
proof -
  assume a: "quantize_price x = Inr p" "quantize_price y = Inr q" and xy: "x \<le> y"
  have "round_half_even (x * of_int quantum_scale) \<le> round_half_even (y * of_int quantum_scale)"
    by (rule round_half_even_mono) (use xy in \<open>simp add: quantum_scale_def\<close>)
  then have "(of_int (round_half_even (x * of_int quantum_scale)) :: rat) \<le> of_int (round_half_even (y * of_int quantum_scale))"
    by (simp only: of_int_le_iff)
  then show "p \<le> q" using a by (auto simp: quantize_price_def Let_def quantum_scale_def divide_right_mono split: if_splits)
qed

text \<open>A number of at most 28 digits is not rounded.\<close>

lemma dec_round_short: "\<bar>m\<bar> < context_limit \<Longrightarrow> dec_round (of_int m / 10 ^ j) = of_int m / 10 ^ j"
proof (cases "m = 0")
  case False
  assume lim: "\<bar>m\<bar> < context_limit"
  define x where "x = (of_int m / 10 ^ j :: rat)"
  define e where "e = magnitude \<bar>x\<bar> - 27"
  have ax: "\<bar>x\<bar> = of_int \<bar>m\<bar> * 10 powi (- int j)" by (simp add: x_def power_int_minus field_simps)
  have x0: "x \<noteq> 0" using False by (simp add: x_def)
  then have b: "10 powi magnitude \<bar>x\<bar> \<le> \<bar>x\<bar>" using magnitude_bounds[of "\<bar>x\<bar>"] by simp
  have "(of_int \<bar>m\<bar> :: rat) < of_int (10 ^ 28)" using lim unfolding of_int_less_iff by (simp add: context_limit_def)
  then have "of_int \<bar>m\<bar> < (10::rat) powi 28" by simp
  then have "\<bar>x\<bar> < 10 powi 28 * 10 powi (- int j)" unfolding ax by (rule mult_strict_right_mono) simp
  with b have "(10::rat) powi magnitude \<bar>x\<bar> < 10 powi (28 - int j)" unfolding powi_add[symmetric] by simp
  from powi_less[OF this] have "e \<le> - int j" by (simp add: e_def)
  then obtain n where n: "- int j = e + int n" using zle_iff_zadd by metis
  have "x = of_int m * (10 powi (- int j))" by (simp add: x_def power_int_minus field_simps)
  also have "\<dots> = of_int (m * 10 ^ n) * 10 powi e" unfolding n powi_add by simp
  finally have x: "x = of_int (m * 10 ^ n) * 10 powi e" .
  then have "x / 10 powi e = of_int (m * 10 ^ n)" by simp
  then have "dec_round x = of_int (m * 10 ^ n) * 10 powi e"
    using x0 unfolding dec_round_def Let_def e_def[symmetric] by (simp only: round_half_even_of_int if_False)
  then show ?thesis using x unfolding x_def by metis
qed (simp add: dec_round_def)

section \<open>The series after adjustment\<close>

definition priced_ok :: "(approved_action \<times> factor) list \<Rightarrow> bool" where
  "priced_ok priced \<longleftrightarrow> (\<forall>(a, g)\<in>set priced. 0 < af_price g \<and> 0 < af_volume g)"

lemma mk_factor_pos: "mk_factor p v = Inr g \<Longrightarrow> 0 < af_price g \<and> 0 < af_volume g"
  by (auto simp: mk_factor_def split: if_splits)

lemma factor_for_pos: "factor_for a bars = Inr g \<Longrightarrow> 0 < af_price g \<and> 0 < af_volume g"
  by (auto simp: factor_for_def split_factor_def cash_dividend_factor_def dest: mk_factor_pos split: terms.splits list.splits if_splits)

lemma priced_facts:
  "mapE (\<lambda>a. bindE (factor_for a bars) (\<lambda>g. Inr (a, g))) actions = Inr priced \<Longrightarrow>
   map fst priced = actions \<and> priced_ok priced \<and> (\<forall>(a, g)\<in>set priced. factor_for a bars = Inr g)"
proof (induction actions arbitrary: priced)
  case (Cons a actions)
  then obtain g rest where "factor_for a bars = Inr g" "mapE (\<lambda>a. bindE (factor_for a bars) (\<lambda>g. Inr (a, g))) actions = Inr rest"
      "priced = (a, g) # rest" by auto
  then show ?case using Cons.IH factor_for_pos by (auto simp: priced_ok_def)
qed (simp add: priced_ok_def)

lemma compound_pos: "priced_ok priced \<Longrightarrow> (\<And>g. 0 < af_price g \<and> 0 < af_volume g \<Longrightarrow> 0 < get g) \<Longrightarrow> 0 < compound get priced t"
proof -
  assume ok: "priced_ok priced" and g: "\<And>g. 0 < af_price g \<and> 0 < af_volume g \<Longrightarrow> 0 < get g"
  have "0 < acc \<Longrightarrow> 0 < fold (\<lambda>(a, g) acc. if t < aa_effective a then dec_mul acc (get g) else acc) priced acc" for acc
    using ok
  proof (induction priced arbitrary: acc)
    case (Cons p priced)
    obtain a h where p: "p = (a, h)" by (cases p)
    have "0 < get h" using Cons.prems(2) g by (auto simp: priced_ok_def p)
    then have "0 < dec_mul acc (get h)" unfolding dec_mul_def using Cons.prems(1) by (intro dec_round_pos) simp
    then show ?case using Cons.IH Cons.prems by (auto simp: p priced_ok_def)
  qed simp
  then show ?thesis by (simp add: compound_def)
qed

definition bar_consistent :: "raw_bar \<Rightarrow> bool" where
  "bar_consistent b \<longleftrightarrow> rb_low b \<le> rb_open b \<and> rb_low b \<le> rb_close b \<and> rb_open b \<le> rb_high b \<and> rb_close b \<le> rb_high b \<and> 0 \<le> rb_low b"

definition same_slot :: "raw_bar \<Rightarrow> raw_bar \<Rightarrow> bool" where
  "same_slot b c \<longleftrightarrow> rb_instrument c = rb_instrument b \<and> rb_start c = rb_start b \<and> rb_symbol c = rb_symbol b \<and>
     rb_session c = rb_session b \<and> rb_trades c = rb_trades b"

lemma adjust_bar_facts:
  assumes "adjust_bar priced b = Inr c"
  shows "same_slot b c" and "quantize_price (dec_mul (rb_open b) (compound af_price priced (rb_start b))) = Inr (rb_open c)"
    and "quantize_price (dec_mul (rb_high b) (compound af_price priced (rb_start b))) = Inr (rb_high c)"
    and "quantize_price (dec_mul (rb_low b) (compound af_price priced (rb_start b))) = Inr (rb_low c)"
    and "quantize_price (dec_mul (rb_close b) (compound af_price priced (rb_start b))) = Inr (rb_close c)"
    and "quantize_whole (dec_mul (of_int (rb_volume b)) (compound af_volume priced (rb_start b))) = Inr (rb_volume c)"
    and "0 < rb_low c" and "0 \<le> rb_volume c"
  using assms by (auto simp: adjust_bar_def Let_def mk_raw_bar_def same_slot_def split: if_splits)

lemma scaled_mono:
  assumes "0 < p" and "0 \<le> x" and "x \<le> y" and "quantize_price (dec_mul x p) = Inr a" and "quantize_price (dec_mul y p) = Inr b"
  shows "a \<le> b"
proof (rule quantize_price_mono[OF assms(4,5)])
  show "dec_mul x p \<le> dec_mul y p" unfolding dec_mul_def by (rule dec_round_mono) (use assms(1-3) in \<open>auto simp: mult_right_mono\<close>)
qed

lemma adjust_bar_consistent:
  assumes "priced_ok priced" and "adjust_bar priced b = Inr c" and ok: "bar_consistent b"
  shows "bar_consistent c"
proof -
  have p: "0 < compound af_price priced (rb_start b)" by (rule compound_pos[OF assms(1)]) simp
  note q = adjust_bar_facts[OF assms(2)]
  have nn: "0 \<le> rb_low b" "0 \<le> rb_open b" "0 \<le> rb_close b" using ok unfolding bar_consistent_def by auto
  show ?thesis
    unfolding bar_consistent_def
    using scaled_mono[OF p nn(1) _ q(4,2)] scaled_mono[OF p nn(1) _ q(4,5)] scaled_mono[OF p nn(2) _ q(2,3)]
      scaled_mono[OF p nn(3) _ q(5,3)] q(7) ok by (auto simp: bar_consistent_def)
qed

lemma adjusted_list:
  "mapE (adjust_bar priced) bs = Inr out \<Longrightarrow> priced_ok priced \<Longrightarrow> list_all bar_consistent bs \<Longrightarrow>
   list_all2 same_slot bs out \<and> list_all bar_consistent out \<and> list_all (\<lambda>c. 0 < rb_low c) out"
proof (induction bs arbitrary: out)
  case (Cons b bs)
  then obtain c cs where c: "adjust_bar priced b = Inr c" "mapE (adjust_bar priced) bs = Inr cs" "out = c # cs" by auto
  then show ?case using Cons adjust_bar_facts(1,7)[OF c(1)] adjust_bar_consistent[OF _ c(1)] by simp
qed simp

text \<open>C9: The adjusted series has the bars of the raw one, in the order of their start, and adjustment never
  breaks a bar: when low, open, close and high of every raw bar are in order, so are the rounded ones, and
  no price is lost to zero.\<close>

theorem adjusted_bars_consistent:
  assumes "adjusted_bars bars actions = Inr out" and "list_all bar_consistent bars"
  shows "list_all2 same_slot (sort_key rb_start bars) out \<and> list_all bar_consistent out \<and> list_all (\<lambda>c. 0 < rb_low c) out"
proof -
  obtain priced where p: "mapE (\<lambda>a. bindE (factor_for a (sort_key rb_start bars)) (\<lambda>g. Inr (a, g))) actions = Inr priced"
    and out: "mapE (adjust_bar priced) (sort_key rb_start bars) = Inr out"
    using assms(1) by (auto simp: adjusted_bars_def Let_def)
  have "priced_ok priced" using priced_facts[OF p] by simp
  moreover have "list_all bar_consistent (sort_key rb_start bars)" using assms(2) by (simp add: list_all_iff)
  ultimately show ?thesis by (rule adjusted_list[OF out])
qed

section \<open>The order of the actions\<close>

text \<open>The digits of a factor: factors are multiples of \<open>10 ^ -8\<close>.\<close>

definition numerator :: "rat \<Rightarrow> int" where
  "numerator x = \<lfloor>x * 100000000\<rfloor>"

lemma quantized_numerator: "quantize_price x = Inr q \<Longrightarrow> q = of_int (numerator q) / 100000000"
  by (auto simp: quantize_price_def Let_def numerator_def quantum_scale_def field_simps split: if_splits) (metis floor_of_int)

lemma one_le_mult: "1 \<le> (a::int) \<Longrightarrow> 1 \<le> b \<Longrightarrow> 1 \<le> a * b"
  using mult_mono[of 1 a 1 b] by simp

lemma factor_numerators:
  assumes "factor_for a bars = Inr g"
  shows "af_price g = of_int (numerator (af_price g)) / 100000000 \<and> 1 \<le> numerator (af_price g) \<and>
    af_volume g = of_int (numerator (af_volume g)) / 100000000 \<and> 1 \<le> numerator (af_volume g)"
proof -
  obtain x y where "quantize_price x = Inr (af_price g)" "quantize_price y = Inr (af_volume g)"
    using assms by (auto simp: factor_for_def split_factor_def cash_dividend_factor_def mk_factor_def
        split: terms.splits list.splits if_splits)
  note q = this[THEN quantized_numerator]
  have "0 < (of_int (numerator (af_price g)) :: rat)" "0 < (of_int (numerator (af_volume g)) :: rat)"
    using factor_for_pos[OF assms] q by (metis zero_less_divide_iff zero_less_numeral not_less_iff_gr_or_eq)+
  then show ?thesis using q by simp
qed

definition short_product :: "(factor \<Rightarrow> rat) \<Rightarrow> (approved_action \<times> factor) list \<Rightarrow> bool" where
  "short_product get priced \<longleftrightarrow> prod_list (map (\<lambda>(_, g). numerator (get g)) priced) < context_limit"

lemma compound_exact:
  assumes "\<forall>(a, g)\<in>set priced. get g = of_int (numerator (get g)) / 100000000 \<and> 1 \<le> numerator (get g)"
    and "short_product get priced"
  shows "compound get priced t = prod_list (map (\<lambda>(_, g). get g) (filter (\<lambda>(a, _). t < aa_effective a) priced))"
proof -
  have "1 \<le> k \<Longrightarrow> k * prod_list (map (\<lambda>(_, g). numerator (get g)) priced) < context_limit \<Longrightarrow>
     fold (\<lambda>(a, g) acc. if t < aa_effective a then dec_mul acc (get g) else acc) priced (of_int k / 10 ^ j) =
     of_int k / 10 ^ j * prod_list (map (\<lambda>(_, g). get g) (filter (\<lambda>(a, _). t < aa_effective a) priced))" for k j
    using assms(1)
  proof (induction priced arbitrary: k j)
    case (Cons p priced)
    obtain a g where p: "p = (a, g)" by (cases p)
    define n where "n = numerator (get g)"
    define rest where "rest = prod_list (map (\<lambda>(_, g). numerator (get g)) priced)"
    have g: "get g = of_int n / 100000000" "1 \<le> n" using Cons.prems(3) by (auto simp: p n_def)
    have "\<forall>y\<in>set (map (\<lambda>(_, g). numerator (get g)) priced). 1 \<le> y" using Cons.prems(3) by auto
    then have r: "1 \<le> rest" unfolding rest_def by (induction priced) (auto intro!: one_le_mult)
    have lim: "k * n * rest < context_limit" using Cons.prems(2) by (simp add: p n_def rest_def mult.assoc)
    have kn: "1 \<le> k * n" using Cons.prems(1) g(2) by (rule one_le_mult)
    have "k * n * 1 \<le> k * n * rest" by (rule mult_left_mono) (use r kn in auto)
    then have small: "\<bar>k * n\<bar> < context_limit" using lim kn by simp
    have "k * rest \<le> k * n * rest" using mult_right_mono[of 1 n "k * rest"] Cons.prems(1) r g(2) by (simp add: ac_simps)
    then have lim': "k * rest < context_limit" using lim by linarith
    have ih: "fold (\<lambda>(a, g) acc. if t < aa_effective a then dec_mul acc (get g) else acc) priced (of_int k' / 10 ^ j') =
       of_int k' / 10 ^ j' * prod_list (map (\<lambda>(_, g). get g) (filter (\<lambda>(a, _). t < aa_effective a) priced))"
      if "1 \<le> k'" "k' * rest < context_limit" for k' j'
      by (rule Cons.IH) (use that Cons.prems(3) in \<open>auto simp: rest_def\<close>)
    have "dec_mul (of_int k / 10 ^ j) (get g) = dec_round (of_int (k * n) / 10 ^ (j + 8))"
      by (simp add: dec_mul_def g(1) power_add)
    also have "\<dots> = of_int (k * n) / 10 ^ (j + 8)" by (rule dec_round_short[OF small])
    finally have mul: "dec_mul (of_int k / 10 ^ j) (get g) = of_int (k * n) / 10 ^ (j + 8)" .
    show ?case
    proof (cases "t < aa_effective a")
      case True
      let ?F = "\<lambda>(a, g) acc. if t < aa_effective a then dec_mul acc (get g) else acc"
      have "fold ?F (p # priced) (of_int k / 10 ^ j) = fold ?F priced (of_int (k * n) / 10 ^ (j + 8))"
        using True mul by (simp add: p)
      also note ih[OF kn lim, of "j + 8"]
      finally have r: "fold ?F (p # priced) (of_int k / 10 ^ j) =
        of_int (k * n) / 10 ^ (j + 8) * prod_list (map (\<lambda>(_, g). get g) (filter (\<lambda>(a, _). t < aa_effective a) priced))" .
      show ?thesis unfolding r by (simp add: p True g(1) power_add)
    next
      case False
      then show ?thesis using ih[OF Cons.prems(1) lim', of j] by (simp add: p)
    qed
  qed simp
  from this[of 1 0] show ?thesis using assms(2) by (simp add: compound_def short_product_def)
qed

lemma mapE_total: "(\<And>a. a \<in> set xs \<Longrightarrow> f a = Inr (h a)) \<Longrightarrow> mapE f xs = Inr (map h xs)"
  by (induction xs) auto

lemma prod_list_perm: "mset xs = mset ys \<Longrightarrow> prod_list (map f xs) = prod_list (map (f :: 'a \<Rightarrow> 'b::comm_monoid_mult) ys)"
proof -
  assume "mset xs = mset ys"
  then have "mset (map f xs) = mset (map f ys)" by simp
  then show ?thesis unfolding prod_mset_prod_list[symmetric] by simp
qed

text \<open>C30: The order in which approved actions are supplied does not matter as long as the compounded factors
  fit the 28 digits of the decimal context (the code's own claim has no such proviso): the factors come
  from the raw closes, and their product, not rounded then, is the same in any order.\<close>

theorem adjustment_order_irrelevant:
  assumes run: "adjusted_bars bars actions = Inr out" and perm: "mset actions' = mset actions"
    and priced: "mapE (\<lambda>a. bindE (factor_for a (sort_key rb_start bars)) (\<lambda>g. Inr (a, g))) actions = Inr priced"
    and short: "short_product af_price priced" "short_product af_volume priced"
  shows "adjusted_bars bars actions' = Inr out"
proof -
  define bs where "bs = sort_key rb_start bars"
  define h where "h a = (a, case factor_for a bs of Inl _ \<Rightarrow> \<lparr>af_price = 1, af_volume = 1\<rparr> | Inr g \<Rightarrow> g)" for a
  note facts = priced_facts[OF priced, folded bs_def]
  have same: "p = h (fst p)" if "p \<in> set priced" for p using facts that by (cases p) (auto simp: h_def)
  have "priced = map (h \<circ> fst) priced" using same by (simp add: map_idI)
  then have pm: "priced = map h actions" using facts by (metis map_map)
  have in_set: "a \<in> set actions' \<longleftrightarrow> a \<in> set actions" for a using perm by (metis set_mset_mset)
  have priced': "mapE (\<lambda>a. bindE (factor_for a bs) (\<lambda>g. Inr (a, g))) actions' = Inr (map h actions')"
  proof (rule mapE_total)
    fix a assume "a \<in> set actions'"
    then have "(a, snd (h a)) \<in> set priced" using in_set pm by (auto simp: h_def)
    then obtain g where "factor_for a bs = Inr g" using facts by auto
    then show "bindE (factor_for a bs) (\<lambda>g. Inr (a, g)) = Inr (h a)" by (simp add: h_def)
  qed
  have ms: "mset (map h actions') = mset priced" using perm by (simp add: pm)
  have nums: "\<forall>(a, g)\<in>set priced. get g = of_int (numerator (get g)) / 100000000 \<and> 1 \<le> numerator (get g)"
    if "get = af_price \<or> get = af_volume" for get
    using facts factor_numerators that by fastforce
  have eq: "compound get (map h actions') t = compound get priced t" if get: "get = af_price \<or> get = af_volume" for get t
  proof -
    have s: "short_product get priced" using short get by auto
    have s': "short_product get (map h actions')"
      using s unfolding short_product_def prod_list_perm[OF ms] .
    have n': "\<forall>(a, g)\<in>set (map h actions'). get g = of_int (numerator (get g)) / 100000000 \<and> 1 \<le> numerator (get g)"
      using nums[OF get] mset_eq_setD[OF ms] by simp
    have "mset (filter (\<lambda>(a, _). t < aa_effective a) (map h actions')) = mset (filter (\<lambda>(a, _). t < aa_effective a) priced)"
      using ms unfolding mset_filter by simp
    from prod_list_perm[OF this] show ?thesis unfolding compound_exact[OF nums[OF get] s] compound_exact[OF n' s'] .
  qed
  have "adjust_bar (map h actions') = adjust_bar priced"
    by (rule ext) (simp add: adjust_bar_def eq)
  then show ?thesis using run priced' priced unfolding adjusted_bars_def bs_def[symmetric] Let_def by simp
qed

section \<open>The instrument of a bar\<close>

definition rename :: "(string \<Rightarrow> string) \<Rightarrow> raw_bar \<Rightarrow> raw_bar" where
  "rename r b = b\<lparr>rb_instrument := r (rb_instrument b)\<rparr>"

lemma max_by_map: "max_by f (g b) (map g xs) = g (max_by (f \<circ> g) b xs)"
  by (induction xs arbitrary: b) (auto simp: if_distrib[of g, symmetric])

lemma rename_simps [simp]: "rb_start (rename r b) = rb_start b" "rb_close (rename r b) = rb_close b"
  by (simp_all add: rename_def)

lemma factor_for_rename: "factor_for a (map (rename r) bs) = factor_for a bs"
proof -
  have f: "filter (\<lambda>b. rb_start b < aa_effective a) (map (rename r) bs) = map (rename r) (filter (\<lambda>b. rb_start b < aa_effective a) bs)"
    by (simp add: filter_map o_def)
  have o': "rb_start \<circ> rename r = rb_start" by (rule ext) simp
  show ?thesis unfolding factor_for_def f
    by (cases "filter (\<lambda>b. rb_start b < aa_effective a) bs") (auto simp: max_by_map o' split: terms.splits)
qed

lemma sort_rename: "sort_key rb_start (map (rename r) bs) = map (rename r) (sort_key rb_start bs)"
  by (rule sort_key_map_commute) simp

lemma adjust_bar_rename: "adjust_bar priced (rename r b) = bindE (adjust_bar priced b) (\<lambda>c. Inr (rename r c))"
proof -
  have b: "rb_open (rename r b) = rb_open b" "rb_high (rename r b) = rb_high b" "rb_low (rename r b) = rb_low b"
    "rb_volume (rename r b) = rb_volume b" "rb_vwap (rename r b) = rb_vwap b" by (simp_all add: rename_def)
  have comm: "bindE (bindE m k) l = bindE m (\<lambda>x. bindE (k x) l)" for m :: "'a res" and k :: "'a \<Rightarrow> 'b res" and l :: "'b \<Rightarrow> 'c res"
    by (cases m) simp_all
  have mk: "mk_raw_bar ((rename r b)\<lparr>rb_open := op, rb_high := hi, rb_low := lo, rb_close := cl, rb_volume := vol, rb_vwap := vw\<rparr>) =
      bindE (mk_raw_bar (b\<lparr>rb_open := op, rb_high := hi, rb_low := lo, rb_close := cl, rb_volume := vol, rb_vwap := vw\<rparr>)) (\<lambda>c. Inr (rename r c))"
    for op hi lo cl vol vw by (simp add: mk_raw_bar_def rename_def)
  show ?thesis unfolding adjust_bar_def Let_def b rename_simps comm mk ..
qed

lemma adjust_list_rename:
  "mapE (adjust_bar priced) (map (rename r) bs) = bindE (mapE (adjust_bar priced) bs) (\<lambda>cs. Inr (map (rename r) cs))"
proof (induction bs)
  case (Cons b bs)
  then show ?case by (cases "adjust_bar priced b"; cases "mapE (adjust_bar priced) bs") (simp_all add: adjust_bar_rename)
qed simp


section \<open>A concrete series\<close>

definition flat_bar :: "string \<Rightarrow> instant \<Rightarrow> rat \<Rightarrow> int \<Rightarrow> raw_bar" where
  "flat_bar i t x v = \<lparr>rb_instrument = i, rb_start = t, rb_open = x, rb_high = x, rb_low = x, rb_close = x,
      rb_volume = v, rb_symbol = None, rb_session = OVal VNone, rb_trades = None, rb_vwap = None\<rparr>"

definition two_bars_raw :: "raw_bar list" where
  "two_bars_raw = [flat_bar ''A'' 1 100 10, flat_bar ''B'' 2 100 10]"

definition two_actions :: "approved_action list" where
  "two_actions = [\<lparr>aa_type = ''STOCK_SPLIT'', aa_effective = 4, aa_terms = SplitTerms 1 2\<rparr>,
     \<lparr>aa_type = ''CASH_DIVIDEND'', aa_effective = 3, aa_terms = CashDividendTerms 3 ''USD''\<rparr>]"

lemma two_numbers:
  "dec_div 1 2 = 1 / 2" "dec_div 2 1 = 2" "dec_sub 100 3 = 97" "dec_div 97 100 = 97 / 100"
  "quantize_price (1 / 2) = Inr (1 / 2)" "quantize_price 2 = Inr 2" "quantize_price (97 / 100) = Inr (97 / 100)"
  "quantize_price 1 = Inr 1" "dec_mul 1 (1 / 2) = 1 / 2" "dec_mul (1 / 2) (97 / 100) = 97 / 200" "dec_mul 1 2 = 2"
  "dec_mul 2 1 = 2" "dec_mul 100 (97 / 200) = 97 / 2" "quantize_price (97 / 2) = Inr (97 / 2)" "dec_mul 10 2 = 20"
  "quantize_whole 20 = Inr 20" "numerator (1 / 2) = 50000000" "numerator (97 / 100) = 97000000" "numerator 2 = 200000000"
  "numerator 1 = 100000000"
  by code_simp+

definition two_priced :: "(approved_action \<times> factor) list" where
  "two_priced = zip two_actions [\<lparr>af_price = 1 / 2, af_volume = 2\<rparr>, \<lparr>af_price = 97 / 100, af_volume = 1\<rparr>]"

lemma two_sorted: "sort_key rb_start two_bars_raw = two_bars_raw"
  by (simp add: two_bars_raw_def flat_bar_def)

lemma two_factors: "mapE (\<lambda>a. bindE (factor_for a (sort_key rb_start two_bars_raw)) (\<lambda>g. Inr (a, g))) two_actions = Inr two_priced"
  unfolding two_sorted
  by (simp add: two_actions_def two_priced_def two_bars_raw_def flat_bar_def factor_for_def split_factor_def cash_dividend_factor_def
      mk_factor_def two_numbers)

lemma two_adjusted: "adjusted_bars two_bars_raw two_actions = Inr [flat_bar ''A'' 1 (97 / 2) 20, flat_bar ''B'' 2 (97 / 2) 20]"
  unfolding adjusted_bars_def two_factors Let_def
  by (simp add: two_sorted) (simp add: two_bars_raw_def two_priced_def two_actions_def flat_bar_def adjust_bar_def compound_def
      two_numbers mk_raw_bar_def)

theorem adjusted_bars_consistent_witness:
  "adjusted_bars two_bars_raw two_actions = Inr [flat_bar ''A'' 1 (97 / 2) 20, flat_bar ''B'' 2 (97 / 2) 20] \<and>
   list_all bar_consistent [flat_bar ''A'' 1 (97 / 2) 20, flat_bar ''B'' 2 (97 / 2) 20]"
  using two_adjusted adjusted_bars_consistent[OF two_adjusted] by (simp add: two_bars_raw_def bar_consistent_def flat_bar_def)

theorem adjustment_order_irrelevant_witness:
  "adjusted_bars two_bars_raw (rev two_actions) = Inr [flat_bar ''A'' 1 (97 / 2) 20, flat_bar ''B'' 2 (97 / 2) 20]"
  by (rule adjustment_order_irrelevant[OF two_adjusted _ two_factors])
     (simp_all add: short_product_def two_priced_def two_actions_def two_numbers context_limit_def)

end
