(* ===== verification/Corporate_Regeneration.thy ===== *)
theory Corporate_Regeneration
  imports Corporate_Actions Engine_Publication
begin

text \<open>
  \<open>market_pipeline_lib/corporate_actions/regeneration.py\<close>: the adjusted dataset rebuilt from the raw
  revision as a new revision, over the local catalog. The bar reader and the bar writer are the protocols the
  code takes, here functions over the object store's state \<open>'s\<close>.
\<close>

section \<open>The regenerator\<close>

record written =
  wd_object_key :: string
  wd_content_hash :: string
  wd_row_count :: int
  wd_byte_size :: int
  wd_storage :: "doc option"
  wd_relation :: "doc option"

record 's regenerator =
  rg_read :: "local_catalog \<Rightarrow> 's \<Rightarrow> string \<Rightarrow> raw_bar list res"
  rg_write :: "raw_bar list \<Rightarrow> string \<Rightarrow> 's \<Rightarrow> written res \<times> 's"
  rg_check_feeds :: bool

text \<open>What is used of the environment: the codec's, canonical JSON, SHA-256, decimals, and whether a text that
  parses as an aware datetime has offset zero.\<close>

record review_env =
  re_env :: env
  re_str :: "pyobj \<Rightarrow> string"
  re_json :: "pyval \<Rightarrow> string"
  re_sha :: "string \<Rightarrow> string"
  re_decimal :: "string \<Rightarrow> rat option"
  re_zero_offset :: "string \<Rightarrow> bool"

record regeneration =
  rr_manifest_id :: string
  rr_revision_number :: int
  rr_supersedes :: "string option"
  rr_dataset_hash :: string
  rr_row_count :: int
  rr_created :: bool

definition ADJUSTED_LAYER :: string where "ADJUSTED_LAYER = ''ADJUSTED''"
definition ADJUSTMENT_SOURCE :: string where "ADJUSTMENT_SOURCE = ''ADJUSTMENT_SOURCE''"
definition SUPERSEDES :: string where "SUPERSEDES = ''SUPERSEDES''"

text \<open>\<open>next(row for row in rows if str(row[k]) == v)\<close>\<close>

fun find_row :: "(pyobj \<Rightarrow> string) \<Rightarrow> string \<Rightarrow> string \<Rightarrow> doc list \<Rightarrow> doc option res" where
  "find_row f k v [] = Inr None"
| "find_row f k v (r # rs) = bindE (get_item r k) (\<lambda>x. if py_str f x = v then Inr (Some r) else find_row f k v rs)"

definition manifest_row_of :: "review_env \<Rightarrow> local_catalog \<Rightarrow> string option \<Rightarrow> doc res" where
  "manifest_row_of V c manifest_id =
     bindE (records (re_env V) (re_str V) c MANIFESTS []) (\<lambda>rows.
       case manifest_id of
         None \<Rightarrow> bindE (mapE (\<lambda>r. get_item r ''id'') rows) (\<lambda>_. Inl LookupError)
       | Some i \<Rightarrow> bindE (find_row (re_str V) ''id'' i rows) (\<lambda>found.
           case found of None \<Rightarrow> Inl LookupError | Some r \<Rightarrow> Inr r))"

definition verify_feeds :: "review_env \<Rightarrow> local_catalog \<Rightarrow> doc \<Rightarrow> string \<Rightarrow> unit res" where
  "verify_feeds V c raw adjusted_feed_id =
     (let f = re_str V in
      bindE (records (re_env V) f c ''market_data.feeds'' []) (\<lambda>feeds.
      bindE (if feeds = [] then Inr None
             else bindE (get_item raw ''feed_id'') (\<lambda>i. find_row f ''id'' (py_str f i) feeds)) (\<lambda>raw_feed.
      bindE (find_row f ''id'' adjusted_feed_id feeds) (\<lambda>adjusted_feed.
        case (raw_feed, adjusted_feed) of
          (Some r, Some a) \<Rightarrow>
            if list_ex (\<lambda>k. \<not> py_eq (dget_none r k) (dget_none a k))
                 [''provider_id'', ''data_kind'', ''resolution'', ''timezone_name''] then Inl ValueError
            else bindE (get_item raw ''resolution'') (\<lambda>x. bindE (get_item a ''resolution'') (\<lambda>y.
                   guardE (py_str f x = py_str f y) ValueError))
        | _ \<Rightarrow> Inl ValueError))))"

definition dataset_hash_of :: "review_env \<Rightarrow> written \<Rightarrow> string res" where
  "dataset_hash_of V w =
     (case (wd_storage w, wd_relation w) of
        (Some stored, Some relation) \<Rightarrow>
          bindE (get_item stored ''schema_version'') (\<lambda>version.
            Inr (canonical_dataset_hash (re_json V) (re_sha V)
              [dset ''schema_version'' version (dset ''content_hash'' (VStr (wd_content_hash w)) relation)]))
      | _ \<Rightarrow> Inr (wd_content_hash w))"

definition lineage_row :: "string \<Rightarrow> string \<Rightarrow> string \<Rightarrow> doc" where
  "lineage_row derived source relation =
     [(''derived_manifest_id'', VStr derived), (''source_manifest_id'', VStr source), (''relation_type'', VStr relation)]"

definition stage_written :: "review_env \<Rightarrow> string \<Rightarrow> written \<Rightarrow> local_catalog \<Rightarrow> unit res \<times> local_catalog" where
  "stage_written V manifest_id w c =
     (let E = re_env V in
      case (wd_storage w, wd_relation w) of
        (Some stored, Some relation) \<Rightarrow>
          let object_id = deterministic_uuid E [''storage-object'', wd_content_hash w, wd_object_key w];
              relation_id = deterministic_uuid E [''dataset-object'', manifest_id, object_id]
          in stage_object E (re_str V) (as_record_of (dset ''id'' (VStr object_id) stored))
               (as_record_of (dset ''object_id'' (VStr object_id) (dset ''dataset_manifest_id'' (VStr manifest_id)
                  (dset ''id'' (VStr relation_id) relation)))) c
      | _ \<Rightarrow> (Inr (), c))"

definition publish_revision ::
  "review_env \<Rightarrow> doc option \<Rightarrow> doc \<Rightarrow> string \<Rightarrow> string \<Rightarrow> written \<Rightarrow> local_catalog \<Rightarrow> unit res \<times> local_catalog" where
  "publish_revision V current row manifest_id raw_manifest_id w c =
     (let E = re_env V; f = re_str V in
      andthen (case current of
                 None \<Rightarrow> (Inr (), c)
               | Some m \<Rightarrow> upsert E f MANIFESTS (as_record_of (dset ''status'' (VStr ''SUPERSEDED'') m)) c) (\<lambda>c1.
      andthen (publish_manifest E f (as_record_of row) c1) (\<lambda>c2.
      andthen (stage_written V manifest_id w c2) (\<lambda>c3.
      andthen (record_dataset_lineage E f (as_record_of (lineage_row manifest_id raw_manifest_id ADJUSTMENT_SOURCE)) c3) (\<lambda>c4.
        case current of
          None \<Rightarrow> (Inr (), c4)
        | Some m \<Rightarrow>
            (case get_item m ''id'' of
               Inl e \<Rightarrow> (Inl e, c4)
             | Inr i \<Rightarrow> record_dataset_lineage E f (as_record_of (lineage_row manifest_id (py_str f i) SUPERSEDES)) c4))))))"

text \<open>What is fixed before the bars are read: the raw manifest's columns, the current revision, the next number.\<close>

record target =
  tg_raw :: doc
  tg_resolution :: string
  tg_period_start :: string
  tg_current :: "doc option"
  tg_next :: int

definition target_of :: "review_env \<Rightarrow> 's regenerator \<Rightarrow> local_catalog \<Rightarrow> string option \<Rightarrow> string \<Rightarrow> target res" where
  "target_of V R c raw_manifest_id adjusted_feed_id =
     (let E = re_env V; f = re_str V in
      bindE (manifest_row_of V c raw_manifest_id) (\<lambda>raw.
      bindE (if rg_check_feeds R then verify_feeds V c raw adjusted_feed_id else Inr ()) (\<lambda>_.
      bindE (get_item raw ''resolution'') (\<lambda>r.
      bindE (get_item raw ''period_start'') (\<lambda>p.
      bindE (case py_int (take 4 (py_str f p)) of None \<Rightarrow> Inl ValueError | Some y \<Rightarrow> Inr y) (\<lambda>year.
      bindE (latest_available_manifest E f c adjusted_feed_id ADJUSTED_LAYER (py_str f r) year None) (\<lambda>current.
      bindE (case current of None \<Rightarrow> Inr 1 | Some m \<Rightarrow> bindE (doc_int m ''revision_number'') (\<lambda>n. Inr (n + 1))) (\<lambda>next_revision.
        Inr \<lparr>tg_raw = raw, tg_resolution = py_str f r, tg_period_start = py_str f p, tg_current = current,
             tg_next = next_revision\<rparr>))))))))"

definition dataset_key_of :: "string \<Rightarrow> target \<Rightarrow> string" where
  "dataset_key_of adjusted_feed_id t =
     ''feed='' @ adjusted_feed_id @ ''/layer='' @ ADJUSTED_LAYER @ ''/resolution='' @ tg_resolution t @ ''/revision='' @ int_str (tg_next t)"

definition unchanged_result :: "review_env \<Rightarrow> doc \<Rightarrow> string \<Rightarrow> written \<Rightarrow> regeneration res" where
  "unchanged_result V current hash w =
     (let f = re_str V in
      bindE (get_item current ''id'') (\<lambda>i. bindE (doc_int current ''revision_number'') (\<lambda>n.
        Inr \<lparr>rr_manifest_id = py_str f i, rr_revision_number = n,
             rr_supersedes = (case dget_none current ''supersedes_manifest_id'' of VNone \<Rightarrow> None | v \<Rightarrow> Some (py_str f v)),
             rr_dataset_hash = hash, rr_row_count = wd_row_count w, rr_created = False\<rparr>)))"

definition adjusted_id :: "review_env \<Rightarrow> string \<Rightarrow> target \<Rightarrow> string" where
  "adjusted_id V adjusted_feed_id t =
     deterministic_uuid (re_env V) [MANIFESTS, adjusted_feed_id, py_str (re_str V) (dget_none (tg_raw t) ''instrument_id''),
       ADJUSTED_LAYER, tg_resolution t, tg_period_start t, int_str (tg_next t)]"

definition supersedes_of :: "review_env \<Rightarrow> target \<Rightarrow> string option res" where
  "supersedes_of V t =
     (case tg_current t of None \<Rightarrow> Inr None | Some m \<Rightarrow> bindE (get_item m ''id'') (\<lambda>i. Inr (Some (py_str (re_str V) i))))"

definition adjusted_row :: "review_env \<Rightarrow> string \<Rightarrow> target \<Rightarrow> string \<Rightarrow> instant \<Rightarrow> doc res" where
  "adjusted_row V adjusted_feed_id t hash now =
     (let f = re_str V in
      bindE (get_item (tg_raw t) ''period_end'') (\<lambda>period_end.
      bindE (get_item (tg_raw t) ''schema_version'') (\<lambda>version.
      bindE (supersedes_of V t) (\<lambda>supersedes.
        Inr [(''id'', VStr (adjusted_id V adjusted_feed_id t)), (''feed_id'', VStr adjusted_feed_id),
             (''instrument_id'', dget_none (tg_raw t) ''instrument_id''), (''data_layer'', VStr ADJUSTED_LAYER),
             (''resolution'', VStr (tg_resolution t)), (''revision_number'', VInt (tg_next t)), (''status'', VStr ''AVAILABLE''),
             (''period_start'', VStr (tg_period_start t)), (''period_end'', VStr (py_str f period_end)),
             (''schema_version'', VStr (py_str f version)), (''dataset_hash'', VStr hash),
             (''supersedes_manifest_id'', opt_str supersedes), (''created_at'', VStr (iso_utc now)),
             (''available_at'', VStr (iso_utc now))]))))"

definition is_current :: "review_env \<Rightarrow> target \<Rightarrow> string \<Rightarrow> bool res" where
  "is_current V t hash =
     (case tg_current t of
        None \<Rightarrow> Inr False
      | Some m \<Rightarrow> bindE (get_item m ''dataset_hash'') (\<lambda>h. Inr (py_str (re_str V) h = hash)))"

definition rebuilt :: "'s regenerator \<Rightarrow> local_catalog \<Rightarrow> 's \<Rightarrow> string option \<Rightarrow> approved_action list \<Rightarrow> raw_bar list res" where
  "rebuilt R c s raw_manifest_id actions =
     (case raw_manifest_id of
        None \<Rightarrow> Inl LookupError
      | Some i \<Rightarrow> bindE (rg_read R c s i) (\<lambda>bars. adjusted_bars bars actions))"

text \<open>The first half of \<open>_regenerate\<close>: the bars are rebuilt and written, and their hash is compared.\<close>

definition written_revision ::
  "review_env \<Rightarrow> 's regenerator \<Rightarrow> string option \<Rightarrow> string \<Rightarrow> approved_action list \<Rightarrow> local_catalog \<Rightarrow> 's
    \<Rightarrow> (target \<times> written \<times> string \<times> bool) res \<times> 's" where
  "written_revision V R raw_manifest_id adjusted_feed_id actions c s =
     (case bindE (target_of V R c raw_manifest_id adjusted_feed_id) (\<lambda>t.
             bindE (rebuilt R c s raw_manifest_id actions) (\<lambda>bars. Inr (t, bars))) of
        Inl e \<Rightarrow> (Inl e, s)
      | Inr (t, bars) \<Rightarrow>
          (case rg_write R bars (dataset_key_of adjusted_feed_id t) s of
             (Inl e, s1) \<Rightarrow> (Inl e, s1)
           | (Inr w, s1) \<Rightarrow>
               (bindE (dataset_hash_of V w) (\<lambda>hash. bindE (is_current V t hash) (\<lambda>same. Inr (t, w, hash, same))), s1)))"

definition unchanged_revision :: "review_env \<Rightarrow> target \<Rightarrow> string \<Rightarrow> written \<Rightarrow> regeneration res" where
  "unchanged_revision V t hash w =
     (case tg_current t of None \<Rightarrow> Inl AssertionError | Some m \<Rightarrow> unchanged_result V m hash w)"

text \<open>The second half: the transaction, or the caller's when \<open>joined\<close>.\<close>

definition new_revision ::
  "review_env \<Rightarrow> bool \<Rightarrow> string \<Rightarrow> string \<Rightarrow> instant \<Rightarrow> target \<Rightarrow> written \<Rightarrow> string \<Rightarrow> local_catalog
    \<Rightarrow> regeneration res \<times> local_catalog" where
  "new_revision V joined raw_manifest_id adjusted_feed_id now t w hash c =
     (case bindE (adjusted_row V adjusted_feed_id t hash now) (\<lambda>row.
             bindE (supersedes_of V t) (\<lambda>supersedes. Inr (row, supersedes))) of
        Inl e \<Rightarrow> (Inl e, c)
      | Inr (row, supersedes) \<Rightarrow>
          let manifest_id = adjusted_id V adjusted_feed_id t;
              body = publish_revision V (tg_current t) row manifest_id raw_manifest_id w
          in (case (if joined then body c else transaction (re_env V) (re_str V) body c) of
                (Inl e, c1) \<Rightarrow> (Inl e, c1)
              | (Inr _, c1) \<Rightarrow>
                  (Inr \<lparr>rr_manifest_id = manifest_id, rr_revision_number = tg_next t, rr_supersedes = supersedes,
                        rr_dataset_hash = hash, rr_row_count = wd_row_count w, rr_created = True\<rparr>, c1)))"

definition regenerate ::
  "review_env \<Rightarrow> 's regenerator \<Rightarrow> bool \<Rightarrow> string option \<Rightarrow> string \<Rightarrow> approved_action list \<Rightarrow> instant \<Rightarrow> local_catalog \<Rightarrow> 's
    \<Rightarrow> regeneration res \<times> local_catalog \<times> 's" where
  "regenerate V R joined raw_manifest_id adjusted_feed_id actions now c s =
     (case written_revision V R raw_manifest_id adjusted_feed_id actions c s of
        (Inl e, s1) \<Rightarrow> (Inl e, c, s1)
      | (Inr (t, w, hash, same), s1) \<Rightarrow>
          if same then (unchanged_revision V t hash w, c, s1)
          else (case new_revision V joined (case raw_manifest_id of None \<Rightarrow> [] | Some i \<Rightarrow> i) adjusted_feed_id now t w hash c of
                  (r, c1) \<Rightarrow> (r, c1, s1)))"

section \<open>What a regeneration leaves\<close>

lemma written_revision_facts:
  assumes "written_revision V R raw_id feed actions c s = (Inr (t, w, hash, same), s1)"
  shows "target_of V R c raw_id feed = Inr t" and "is_current V t hash = Inr same"
  using assms by (auto simp: written_revision_def split: sum.splits prod.splits)

lemma new_revision_outcome:
  assumes "new_revision V False raw_id feed now t w hash c = (r, c')" and "lc_snapshot c = None"
  shows "case r of Inl _ \<Rightarrow> same_files c c'
    | Inr res \<Rightarrow> rr_created res \<and> rr_manifest_id res = adjusted_id V feed t \<and> rr_revision_number res = tg_next t \<and> rr_dataset_hash res = hash"
proof (cases "bindE (adjusted_row V feed t hash now) (\<lambda>row. bindE (supersedes_of V t) (\<lambda>supersedes. Inr (row, supersedes)))")
  case (Inl e)
  then show ?thesis using assms(1) by (auto simp: new_revision_def same_files_def)
next
  case (Inr p)
  obtain row supersedes where p: "p = (row, supersedes)" by (cases p)
  define body where "body = publish_revision V (tg_current t) row (adjusted_id V feed t) raw_id w"
  obtain x c1 where run: "transaction (re_env V) (re_str V) body c = (x, c1)" by (cases "transaction (re_env V) (re_str V) body c")
  have r: "(r, c') = (case (x, c1) of (Inl e, c1) \<Rightarrow> (Inl e, c1)
      | (Inr _, c1) \<Rightarrow> (Inr \<lparr>rr_manifest_id = adjusted_id V feed t, rr_revision_number = tg_next t, rr_supersedes = supersedes,
                        rr_dataset_hash = hash, rr_row_count = wd_row_count w, rr_created = True\<rparr>, c1))"
    using assms(1) Inr p run unfolding new_revision_def body_def by simp
  show ?thesis using run assms(2)
    by (rule transaction_outcome) (use r in auto)
qed


section \<open>A concrete regeneration\<close>

definition idle_review :: review_env where
  "idle_review = \<lparr>re_env = year_env, re_str = no_str, re_json = (\<lambda>_. []), re_sha = (\<lambda>_. ''h''), re_decimal = (\<lambda>_. None),
     re_zero_offset = (\<lambda>_. True)\<rparr>"

text \<open>A writer whose objects are not registered, so that the content hash is the dataset's.\<close>

definition echo_regenerator :: "unit regenerator" where
  "echo_regenerator = \<lparr>rg_read = (\<lambda>_ _ _. Inr two_bars_raw),
     rg_write = (\<lambda>bars _ s. (Inr \<lparr>wd_object_key = ''k'', wd_content_hash = ''h'', wd_row_count = int (length bars), wd_byte_size = 1,
       wd_storage = None, wd_relation = None\<rparr>, s)), rg_check_feeds = False\<rparr>"

definition adjusted_catalog :: local_catalog where
  "adjusted_catalog = new_catalog\<lparr>lc_files := [(''dataset-manifests.jsonl'',
     [[(''data_layer'', VStr ''RAW''), (''feed_id'', VStr ''F''), (''id'', VStr ''RAW1''), (''period_start'', VStr ''1970-01-01T00:00:00Z''),
       (''resolution'', VStr ''30m''), (''revision_number'', VInt 1), (''status'', VStr ''AVAILABLE'')],
      [(''data_layer'', VStr ''ADJUSTED''), (''dataset_hash'', VStr ''h''), (''feed_id'', VStr ''G''), (''id'', VStr ''ADJ1''),
       (''period_start'', VStr ''1970-01-01T00:00:00Z''), (''resolution'', VStr ''30m''), (''revision_number'', VInt 1),
       (''status'', VStr ''AVAILABLE'')]])]\<rparr>"


end
