(* ===== verification/Corporate_Review.thy ===== *)
theory Corporate_Review
  imports Corporate_Regeneration Feature_Hashing
begin

text \<open>
  \<open>market_pipeline_lib/corporate_actions/decisions.py\<close>, \<open>service.py\<close> and \<open>consumer.py\<close>: the review of
  researched corporate actions over the local catalog. A decision arrives from an administrator or from the
  backend's relay; the state of a candidate lives in the \<open>terms_document\<close> of its catalog row.
\<close>

section \<open>Decisions\<close>

datatype decision = Approve | Reject | Withdraw
datatype review_state = ReviewRequired | Approved | Rejected | Withdrawn | Superseded

definition decision_text :: "decision \<Rightarrow> string" where
  "decision_text d = (case d of Approve \<Rightarrow> ''APPROVE'' | Reject \<Rightarrow> ''REJECT'' | Withdraw \<Rightarrow> ''WITHDRAW'')"

definition state_text :: "review_state \<Rightarrow> string" where
  "state_text s = (case s of ReviewRequired \<Rightarrow> ''REVIEW_REQUIRED'' | Approved \<Rightarrow> ''APPROVED'' | Rejected \<Rightarrow> ''REJECTED''
     | Withdrawn \<Rightarrow> ''WITHDRAWN'' | Superseded \<Rightarrow> ''SUPERSEDED'')"

definition decision_of :: "string \<Rightarrow> decision res" where
  "decision_of s = (case find (\<lambda>d. decision_text d = s) [Approve, Reject, Withdraw] of None \<Rightarrow> Inl ValueError | Some d \<Rightarrow> Inr d)"

definition state_of_text :: "string \<Rightarrow> review_state res" where
  "state_of_text s =
     (case find (\<lambda>x. state_text x = s) [ReviewRequired, Approved, Rejected, Withdrawn, Superseded] of
        None \<Rightarrow> Inl ValueError | Some x \<Rightarrow> Inr x)"

definition for_decision :: "decision \<Rightarrow> review_state" where
  "for_decision d = (case d of Approve \<Rightarrow> Approved | Withdraw \<Rightarrow> Withdrawn | Reject \<Rightarrow> Rejected)"

text \<open>UUIDs are their canonical text.\<close>

record approval_result =
  ar_candidate :: string
  ar_decision :: decision
  ar_content_hash :: string
  ar_evidence :: "string list"
  ar_actor :: string
  ar_audit :: string
  ar_permission :: string
  ar_schema :: string
  ar_decided_at :: instant
  ar_delivery :: string
  ar_sequence :: int
  ar_supersedes :: "string option"
  ar_rationale :: string

text \<open>\<open>aware\<close>: whether the moment of the decision is aware and at offset zero.\<close>

definition mk_approval_result :: "bool \<Rightarrow> approval_result \<Rightarrow> approval_result res" where
  "mk_approval_result aware a =
     (if ar_decision a = Reject then Inl (ApprovalRefusedError ''DECISION_UNSUPPORTED'')
      else if \<not> is_sha256_hex (ar_content_hash a) then Inl (ApprovalRefusedError ''DECIDED_CONTENT_HASH_INVALID'')
      else if ar_evidence a = [] \<or> \<not> list_all is_sha256_hex (ar_evidence a) then Inl (ApprovalRefusedError ''EVIDENCE_BINDING_INVALID'')
      else if blank (ar_schema a) then Inl (ApprovalRefusedError ''SCHEMA_VERSION_MISSING'')
      else if \<not> aware then Inl (ApprovalRefusedError ''DECIDED_AT_INVALID'')
      else if ar_sequence a < 1 then Inl (ApprovalRefusedError ''AGGREGATE_SEQUENCE_INVALID'')
      else Inr a)"

definition text_list :: "string list \<Rightarrow> pyval" where
  "text_list xs = VList (map VStr xs)"

definition envelope_document :: "approval_result \<Rightarrow> doc" where
  "envelope_document a =
     [(''candidateId'', VStr (ar_candidate a)), (''decision'', VStr (decision_text (ar_decision a))),
      (''decidedContentHash'', VStr (ar_content_hash a)), (''evidenceBindings'', text_list (ar_evidence a)),
      (''actorId'', VStr (ar_actor a)), (''auditId'', VStr (ar_audit a)), (''permissionId'', VStr (ar_permission a)),
      (''requestSchemaVersion'', VStr (ar_schema a)), (''decidedAt'', VStr (iso_utc (ar_decided_at a))),
      (''supersedesCandidateId'', opt_str (ar_supersedes a)), (''deliveryId'', VStr (ar_delivery a)),
      (''aggregateSequence'', VInt (ar_sequence a)), (''rationale'', VStr (ar_rationale a))]"

definition envelope_hash :: "review_env \<Rightarrow> approval_result \<Rightarrow> string" where
  "envelope_hash V a = re_sha V (re_json V (VMap (envelope_document a)))"

definition REQUIRED_FIELDS :: "string list" where
  "REQUIRED_FIELDS =
     [''candidateId'', ''decision'', ''decidedContentHash'', ''evidenceBindings'', ''actorId'', ''auditId'', ''permissionId'',
      ''requestSchemaVersion'', ''decidedAt'', ''deliveryId'', ''aggregateSequence'']"

definition as_uuid :: "review_env \<Rightarrow> pyval \<Rightarrow> string res" where
  "as_uuid V v = (case uuid_parse (re_env V) (py_str (re_str V) v) of None \<Rightarrow> Inl ValueError | Some u \<Rightarrow> Inr u)"

definition supersedes_field :: "review_env \<Rightarrow> doc \<Rightarrow> string option res" where
  "supersedes_field V d =
     (let v = dget_none d ''supersedesCandidateId'' in
      if v = VNone \<or> v = VStr [] then Inr None else bindE (as_uuid V v) (\<lambda>u. Inr (Some u)))"

text \<open>\<open>from_mapping\<close>: any TypeError or ValueError of the conversions is a malformed envelope.\<close>

definition envelope_fields :: "review_env \<Rightarrow> doc \<Rightarrow> (bool \<times> approval_result) res" where
  "envelope_fields V d =
     (let item = (\<lambda>k. dget_none d k); f = re_str V in
      case item ''evidenceBindings'' of
        VList bindings \<Rightarrow>
          bindE (as_uuid V (item ''candidateId'')) (\<lambda>candidate.
          bindE (decision_of (py_str f (item ''decision''))) (\<lambda>dec.
          bindE (as_uuid V (item ''actorId'')) (\<lambda>actor.
          bindE (as_uuid V (item ''auditId'')) (\<lambda>audit.
          bindE (as_uuid V (item ''permissionId'')) (\<lambda>permission.
          let moment = replace_Z (py_str f (item ''decidedAt'')) in
          bindE (case fromisoformat (re_env V) moment of
                   IsoInvalid \<Rightarrow> Inl ValueError | IsoNaive t \<Rightarrow> Inr (t, False) | IsoAware t \<Rightarrow> Inr (t, re_zero_offset V moment)) (\<lambda>(t, aware).
          bindE (as_uuid V (item ''deliveryId'')) (\<lambda>delivery.
          bindE (issue_int (OVal (item ''aggregateSequence''))) (\<lambda>n.
          bindE (supersedes_field V d) (\<lambda>supersedes.
            Inr (aware, \<lparr>ar_candidate = candidate, ar_decision = dec, ar_content_hash = py_str f (item ''decidedContentHash''),
              ar_evidence = map (py_str f) bindings, ar_actor = actor, ar_audit = audit, ar_permission = permission,
              ar_schema = py_str f (item ''requestSchemaVersion''), ar_decided_at = t, ar_delivery = delivery, ar_sequence = n,
              ar_supersedes = supersedes,
              ar_rationale = (case dget d ''rationale'' of None \<Rightarrow> [] | Some r \<Rightarrow> py_str f r)\<rparr>))))))))))
      | _ \<Rightarrow> Inl TypeError)"

definition approval_from_mapping :: "review_env \<Rightarrow> doc \<Rightarrow> approval_result res" where
  "approval_from_mapping V d =
     (if \<not> list_all (has_key d) REQUIRED_FIELDS then Inl (ApprovalRefusedError ''APPROVAL_FIELD_MISSING'')
      else case envelope_fields V d of
             Inl _ \<Rightarrow> Inl (ApprovalRefusedError ''APPROVAL_ENVELOPE_INVALID'')
           | Inr (aware, a) \<Rightarrow> mk_approval_result aware a)"

record admin_decision =
  ad_candidate :: string
  ad_decision :: decision
  ad_decided_by :: string
  ad_decided_at :: instant
  ad_rationale :: string

definition mk_admin_decision :: "bool \<Rightarrow> admin_decision \<Rightarrow> admin_decision res" where
  "mk_admin_decision aware a =
     (if blank (ad_candidate a) \<or> blank (ad_decided_by a) \<or> blank (ad_rationale a) \<or> \<not> aware then Inl ValueError else Inr a)"

record verifier =
  vf_active :: "string \<Rightarrow> bool"
  vf_matches :: "approval_result \<Rightarrow> bool"
  vf_permission :: string
  vf_schema :: string

definition verify_result :: "verifier \<Rightarrow> approval_result \<Rightarrow> unit res" where
  "verify_result w a =
     (if ar_permission a \<noteq> vf_permission w then Inl (ApprovalRefusedError ''PERMISSION_MISMATCH'')
      else if ar_schema a \<noteq> vf_schema w then Inl (ApprovalRefusedError ''UNKNOWN_SCHEMA_VERSION'')
      else if \<not> vf_active w (ar_actor a) then Inl (ApprovalRefusedError ''INACTIVE_OPERATOR'')
      else if \<not> vf_matches w a then Inl (ApprovalRefusedError ''AUDIT_BINDING_MISMATCH'')
      else Inr ())"

section \<open>Candidate rows\<close>

definition CORPORATE_ACTIONS :: string where "CORPORATE_ACTIONS = ''market_data.corporate_actions''"

definition as_map :: "pyval \<Rightarrow> doc res" where
  "as_map v = (case v of VMap d \<Rightarrow> Inr d | _ \<Rightarrow> Inl TypeError)"

definition terms_document :: "doc \<Rightarrow> doc res" where
  "terms_document row = bindE (get_item row ''terms_document'') as_map"

definition action_rows :: "review_env \<Rightarrow> local_catalog \<Rightarrow> doc list res" where
  "action_rows V c = records (re_env V) (re_str V) c CORPORATE_ACTIONS []"

definition state_of :: "review_env \<Rightarrow> doc \<Rightarrow> review_state res" where
  "state_of V row =
     bindE (terms_document row) (\<lambda>d. bindE (get_item d ''review'') (\<lambda>r. bindE (as_map r) (\<lambda>r.
     bindE (get_item r ''state'') (\<lambda>s. state_of_text (py_str (re_str V) s)))))"

text \<open>A missing \<open>review_history\<close> is empty; \<open>[*x, e]\<close> and \<open>list(x)\<close> of anything but a list raise.\<close>

definition history_of :: "doc \<Rightarrow> pyval list res" where
  "history_of d = (case dget d ''review_history'' of None \<Rightarrow> Inr [] | Some (VList l) \<Rightarrow> Inr l | Some _ \<Rightarrow> Inl TypeError)"

definition entry_get :: "pyval \<Rightarrow> string \<Rightarrow> pyval res" where
  "entry_get e k = (case e of VMap d \<Rightarrow> Inr (dget_none d k) | _ \<Rightarrow> Inl AttributeError)"

definition is_refused :: "pyval \<Rightarrow> bool res" where
  "is_refused e = bindE (entry_get e ''state'') (\<lambda>s. Inr (s = VStr ''REFUSED''))"

text \<open>\<open>_parse_utc\<close> and the check of \<open>ApprovedAction\<close> on it.\<close>

definition effective_moment :: "review_env \<Rightarrow> pyval \<Rightarrow> instant res" where
  "effective_moment V v =
     (let text = replace_Z (py_str (re_str V) v) in
      case fromisoformat (re_env V) text of
        IsoAware t \<Rightarrow> if re_zero_offset V text then Inr t else Inl ValueError
      | _ \<Rightarrow> Inl ValueError)"

definition approved_of :: "review_env \<Rightarrow> doc \<Rightarrow> approved_action list res" where
  "approved_of V row =
     bindE (state_of V row) (\<lambda>s.
       if s \<noteq> Approved then Inr []
       else bindE (terms_document row) (\<lambda>d.
            bindE (get_item row ''action_type'') (\<lambda>k.
            bindE (get_item row ''effective_at'') (\<lambda>v.
            bindE (case fromisoformat (re_env V) (replace_Z (py_str (re_str V) v)) of IsoInvalid \<Rightarrow> Inl ValueError | _ \<Rightarrow> Inr ()) (\<lambda>_.
            bindE (get_item d ''terms'') (\<lambda>payload.
            bindE (parse_terms (re_decimal V) (re_str V) (py_str (re_str V) k) payload) (\<lambda>t.
            bindE (effective_moment V v) (\<lambda>effective.
            bindE (mk_action (py_str (re_str V) k) effective t) (\<lambda>a. Inr [a])))))))))"

definition approved_actions_of :: "review_env \<Rightarrow> doc list \<Rightarrow> approved_action list res" where
  "approved_actions_of V rows = bindE (mapE (approved_of V) rows) (\<lambda>ls. Inr (sort_key aa_effective (concat ls)))"

definition approved_actions :: "review_env \<Rightarrow> local_catalog \<Rightarrow> approved_action list res" where
  "approved_actions V c = bindE (action_rows V c) (approved_actions_of V)"

definition row_for_record_id :: "review_env \<Rightarrow> local_catalog \<Rightarrow> string \<Rightarrow> doc res" where
  "row_for_record_id V c candidate =
     bindE (action_rows V c) (\<lambda>rows. bindE (find_row (re_str V) ''id'' candidate rows) (\<lambda>found.
       case found of None \<Rightarrow> Inl UnknownCandidateError | Some r \<Rightarrow> Inr r))"

fun find_candidate :: "review_env \<Rightarrow> string \<Rightarrow> doc list \<Rightarrow> doc res" where
  "find_candidate V candidate [] = Inl UnknownCandidateError"
| "find_candidate V candidate (r # rs) =
     bindE (terms_document r) (\<lambda>d.
       if py_str (re_str V) (dget_none d ''candidate_id'') = candidate then Inr r else find_candidate V candidate rs)"

section \<open>Recording and deciding\<close>

definition SUBSTANCE_KEYS :: "string list" where
  "SUBSTANCE_KEYS = [''ticker'', ''event_type'', ''effective_date'', ''terms'']"

definition research_digest :: "review_env \<Rightarrow> doc \<Rightarrow> string res" where
  "research_digest V d =
     (if \<not> list_all (has_key d) SUBSTANCE_KEYS then Inl ValueError
      else Inr (re_sha V (re_json V (VMap (map (\<lambda>k. (k, dget_none d k)) SUBSTANCE_KEYS)))))"

text \<open>\<open>row\<close> is the row \<open>corporate_action_record\<close> renders from the candidate.\<close>

definition record_candidate :: "review_env \<Rightarrow> doc \<Rightarrow> local_catalog \<Rightarrow> bool res \<times> local_catalog" where
  "record_candidate V row c =
     (case bindE (get_item row ''id'') (\<lambda>i. bindE (action_rows V c) (find_row (re_str V) ''id'' (py_str (re_str V) i))) of
        Inl e \<Rightarrow> (Inl e, c)
      | Inr (Some _) \<Rightarrow> (Inr False, c)
      | Inr None \<Rightarrow>
          (case upsert (re_env V) (re_str V) CORPORATE_ACTIONS (as_record_of row) c of
             (Inl e, c1) \<Rightarrow> (Inl e, c1) | (Inr _, c1) \<Rightarrow> (Inr True, c1)))"

definition with_review :: "doc \<Rightarrow> doc \<Rightarrow> doc res" where
  "with_review d entry =
     bindE (history_of d) (\<lambda>h.
       Inr (dset ''review_history'' (VList (h @ [VMap entry])) (dset ''review'' (VMap entry) d)))"

definition admin_entry :: "admin_decision \<Rightarrow> review_state \<Rightarrow> doc" where
  "admin_entry a target' =
     [(''state'', VStr (state_text target')), (''decided_by'', VStr (strip (ad_decided_by a))),
      (''decided_at'', VStr (iso_utc (ad_decided_at a))), (''rationale'', VStr (strip (ad_rationale a)))]"

definition transition :: "review_env \<Rightarrow> doc \<Rightarrow> admin_decision \<Rightarrow> review_state \<Rightarrow> local_catalog \<Rightarrow> unit res \<times> local_catalog" where
  "transition V row a target' c =
     (case bindE (terms_document row) (\<lambda>d. bindE (with_review d (admin_entry a target')) (\<lambda>d'.
             bindE (research_digest V d') (\<lambda>h. Inr (dset ''terms_hash'' (VStr h) (dset ''terms_document'' (VMap d') row))))) of
        Inl e \<Rightarrow> (Inl e, c)
      | Inr row' \<Rightarrow> upsert (re_env V) (re_str V) CORPORATE_ACTIONS (as_record_of row') c)"

record outcome =
  oc_candidate :: string
  oc_state :: review_state
  oc_regeneration :: "regeneration option"

record 's service =
  sv_regenerator :: "'s regenerator option"
  sv_raw_manifest :: "string option"
  sv_adjusted_feed :: string
  sv_verifier :: "verifier option"

text \<open>The candidate's row and state, and the refusals before anything is written.\<close>

definition admit_decision :: "review_env \<Rightarrow> 's service \<Rightarrow> admin_decision \<Rightarrow> local_catalog \<Rightarrow> (doc \<times> review_state) res" where
  "admit_decision V S a c =
     bindE (action_rows V c) (\<lambda>rows.
     bindE (find_candidate V (ad_candidate a) rows) (\<lambda>row.
     bindE (state_of V row) (\<lambda>current.
     bindE (guardE (current = ReviewRequired \<or> current = for_decision (ad_decision a)) ConflictingDecisionError) (\<lambda>_.
     bindE (guardE (ad_decision a \<noteq> Approve \<or> sv_regenerator S \<noteq> None) RegeneratorNotConfiguredError) (\<lambda>_.
       Inr (row, current))))))"

definition regenerate_approved ::
  "review_env \<Rightarrow> 's service \<Rightarrow> bool \<Rightarrow> string option \<Rightarrow> instant \<Rightarrow> local_catalog \<Rightarrow> 's \<Rightarrow> regeneration res \<times> local_catalog \<times> 's" where
  "regenerate_approved V S joined raw_id now c s =
     (case sv_regenerator S of
        None \<Rightarrow> (Inl AssertionError, c, s)
      | Some R \<Rightarrow>
          (case approved_actions V c of
             Inl e \<Rightarrow> (Inl e, c, s)
           | Inr actions \<Rightarrow> regenerate V R joined raw_id (sv_adjusted_feed S) actions now c s))"

definition apply_decision ::
  "review_env \<Rightarrow> 's service \<Rightarrow> admin_decision \<Rightarrow> local_catalog \<Rightarrow> 's \<Rightarrow> outcome res \<times> local_catalog \<times> 's" where
  "apply_decision V S a c s =
     (let target' = for_decision (ad_decision a);
          result = (\<lambda>g. \<lparr>oc_candidate = ad_candidate a, oc_state = target', oc_regeneration = g\<rparr>) in
      case admit_decision V S a c of
        Inl e \<Rightarrow> (Inl e, c, s)
      | Inr (row, current) \<Rightarrow>
          (case (if current = ReviewRequired then transition V row a target' c else (Inr (), c)) of
             (Inl e, c1) \<Rightarrow> (Inl e, c1, s)
           | (Inr _, c1) \<Rightarrow>
               if target' = Rejected then (Inr (result None), c1, s)
               else (case regenerate_approved V S False (sv_raw_manifest S) (ad_decided_at a) c1 s of
                       (Inl e, c2, s2) \<Rightarrow> (Inl e, c2, s2)
                     | (Inr g, c2, s2) \<Rightarrow> (Inr (result (Some g)), c2, s2))))"

section \<open>Results of the relay\<close>

definition provider_entry :: "review_env \<Rightarrow> approval_result \<Rightarrow> review_state \<Rightarrow> string \<Rightarrow> doc" where
  "provider_entry V a target' affected =
     [(''state'', VStr (state_text target')), (''decision'', VStr (decision_text (ar_decision a))), (''candidate_id'', VStr affected),
      (''decided_content_hash'', VStr (ar_content_hash a)), (''evidence_bindings'', text_list (ar_evidence a)),
      (''actor_id'', VStr (ar_actor a)), (''audit_id'', VStr (ar_audit a)), (''permission_id'', VStr (ar_permission a)),
      (''request_schema_version'', VStr (ar_schema a)), (''decided_at'', VStr (iso_utc (ar_decided_at a))),
      (''delivery_id'', VStr (ar_delivery a)), (''envelope_hash'', VStr (envelope_hash V a)),
      (''aggregate_sequence'', VInt (ar_sequence a)), (''supersedes_candidate_id'', opt_str (ar_supersedes a)),
      (''rationale'', VStr (strip (ar_rationale a)))]"

definition provider_transition ::
  "review_env \<Rightarrow> doc \<Rightarrow> approval_result \<Rightarrow> review_state \<Rightarrow> string \<Rightarrow> local_catalog \<Rightarrow> unit res \<times> local_catalog" where
  "provider_transition V row a target' affected c =
     (case bindE (terms_document row) (\<lambda>d. bindE (with_review d (provider_entry V a target' affected)) (\<lambda>d'.
             Inr (dset ''terms_document'' (VMap d') row))) of
        Inl e \<Rightarrow> (Inl e, c)
      | Inr row' \<Rightarrow> upsert (re_env V) (re_str V) CORPORATE_ACTIONS (as_record_of row') c)"

text \<open>The accepted entry of the same delivery: \<open>Some True\<close> when its envelope is this one.\<close>

fun delivered_before :: "review_env \<Rightarrow> approval_result \<Rightarrow> pyval list \<Rightarrow> bool option res" where
  "delivered_before V a [] = Inr None"
| "delivered_before V a (e # es) =
     bindE (entry_get e ''delivery_id'') (\<lambda>i.
       if i \<noteq> VStr (ar_delivery a) then delivered_before V a es
       else bindE (is_refused e) (\<lambda>refused.
              if refused then delivered_before V a es
              else bindE (entry_get e ''envelope_hash'') (\<lambda>h. Inr (Some (h = VStr (envelope_hash V a))))))"

definition sequence_of :: "pyval \<Rightarrow> int res" where
  "sequence_of e =
     (case e of
        VMap d \<Rightarrow> (case dget d ''aggregate_sequence'' of None \<Rightarrow> Inr 0 | Some v \<Rightarrow> issue_int (OVal v))
      | _ \<Rightarrow> Inl AttributeError)"

definition latest_sequence :: "pyval list \<Rightarrow> int res" where
  "latest_sequence h =
     bindE (filterE (\<lambda>e. bindE (is_refused e) (\<lambda>b. Inr (\<not> b))) h) (\<lambda>accepted.
     bindE (mapE sequence_of accepted) (\<lambda>ns. Inr (if ns = [] then 0 else list_max ns)))"

definition evidence_hashes :: "review_env \<Rightarrow> doc \<Rightarrow> string list res" where
  "evidence_hashes V d =
     (case dget d ''evidence'' of
        None \<Rightarrow> Inr []
      | Some (VList items) \<Rightarrow>
          bindE (mapE (\<lambda>e. entry_get e ''content_sha256'') items) (\<lambda>hs.
            Inr (map (py_str (re_str V)) (filter (\<lambda>v. truthy (OVal v)) hs)))
      | Some _ \<Rightarrow> Inl TypeError)"

definition same_item :: "review_env \<Rightarrow> doc \<Rightarrow> doc \<Rightarrow> string \<Rightarrow> bool res" where
  "same_item V r q k = bindE (get_item r k) (\<lambda>x. bindE (get_item q k) (\<lambda>y. Inr (py_str (re_str V) x = py_str (re_str V) y)))"

definition approved_for_same_subject :: "review_env \<Rightarrow> local_catalog \<Rightarrow> doc \<Rightarrow> doc list res" where
  "approved_for_same_subject V c row =
     bindE (action_rows V c) (filterE (\<lambda>other.
       all_of [bindE (same_item V other row ''id'') (\<lambda>b. Inr (\<not> b)), bindE (state_of V other) (\<lambda>s. Inr (s = Approved)),
         same_item V other row ''instrument_id'', same_item V other row ''action_type'', same_item V other row ''effective_at'']))"

definition refuse :: "string \<Rightarrow> 'a res" where "refuse code = Inl (ApprovalRefusedError code)"

text \<open>The rules a result must meet before it changes anything: \<open>None\<close> for a redelivery.\<close>

definition admit_result :: "review_env \<Rightarrow> approval_result \<Rightarrow> local_catalog \<Rightarrow> doc \<Rightarrow> bool res" where
  "admit_result V a c row =
     bindE (terms_document row) (\<lambda>d.
     bindE (history_of d) (\<lambda>prior.
     bindE (delivered_before V a prior) (\<lambda>before.
       case before of
         Some True \<Rightarrow> Inr False
       | Some False \<Rightarrow> refuse ''DELIVERY_ID_CONFLICT''
       | None \<Rightarrow>
           bindE (latest_sequence prior) (\<lambda>n.
           if ar_sequence a \<le> n then refuse ''REVERSED_AGGREGATE_SEQUENCE''
           else bindE (get_item row ''terms_hash'') (\<lambda>h.
                if py_str (re_str V) h \<noteq> ar_content_hash a then refuse ''STALE_CONTENT_HASH''
                else bindE (evidence_hashes V d) (\<lambda>hs.
                     if \<not> set (ar_evidence a) \<subseteq> set hs then refuse ''UNBOUND_EVIDENCE'' else Inr True))))))"

definition withdraw_candidate :: "review_env \<Rightarrow> approval_result \<Rightarrow> doc \<Rightarrow> local_catalog \<Rightarrow> unit res \<times> local_catalog" where
  "withdraw_candidate V a row c =
     (case state_of V row of
        Inl e \<Rightarrow> (Inl e, c)
      | Inr st \<Rightarrow>
          if st \<noteq> Approved then (refuse ''WITHDRAWAL_STATE_CONFLICT'', c)
          else provider_transition V row a Withdrawn (ar_candidate a) c)"

definition supersede :: "review_env \<Rightarrow> approval_result \<Rightarrow> doc list \<Rightarrow> local_catalog \<Rightarrow> unit res \<times> local_catalog" where
  "supersede V a conflicts c =
     (case conflicts of
        [] \<Rightarrow> (if ar_supersedes a \<noteq> None then refuse ''SUPERSEDED_CANDIDATE_NOT_APPROVED'' else Inr (), c)
      | old # more_ \<Rightarrow>
          if more_ \<noteq> [] then (refuse ''UNNAMED_SUPERSEDE_CONFLICT'', c)
          else (case bindE (get_item old ''id'') (as_uuid V) of
                  Inl e \<Rightarrow> (Inl e, c)
                | Inr u \<Rightarrow>
                    if ar_supersedes a \<noteq> Some u then (refuse ''UNNAMED_SUPERSEDE_CONFLICT'', c)
                    else provider_transition V old a Superseded u c))"

definition approve_candidate :: "review_env \<Rightarrow> approval_result \<Rightarrow> doc \<Rightarrow> local_catalog \<Rightarrow> unit res \<times> local_catalog" where
  "approve_candidate V a row c =
     (case state_of V row of
        Inl e \<Rightarrow> (Inl e, c)
      | Inr st \<Rightarrow>
          if st \<noteq> ReviewRequired then (refuse ''CONFLICTING_REDECISION'', c)
          else (case approved_for_same_subject V c row of
                  Inl e \<Rightarrow> (Inl e, c)
                | Inr conflicts \<Rightarrow>
                    andthen (supersede V a conflicts c) (provider_transition V row a Approved (ar_candidate a))))"

definition source_manifest_of :: "review_env \<Rightarrow> doc \<Rightarrow> string res" where
  "source_manifest_of V row =
     (let v = dget_none row ''source_manifest_id'' in
      if v = VNone \<or> v = VStr [] then refuse ''SOURCE_MANIFEST_MISSING'' else Inr (py_str (re_str V) v))"

text \<open>\<open>_apply_verified_result\<close>, inside the transaction.\<close>

definition apply_verified ::
  "review_env \<Rightarrow> 's service \<Rightarrow> approval_result \<Rightarrow> local_catalog \<Rightarrow> 's \<Rightarrow> outcome res \<times> local_catalog \<times> 's" where
  "apply_verified V S a c s =
     (case row_for_record_id V c (ar_candidate a) of
        Inl e \<Rightarrow> (if e = UnknownCandidateError then refuse ''UNKNOWN_CANDIDATE'' else Inl e, c, s)
      | Inr row \<Rightarrow>
          (case admit_result V a c row of
             Inl e \<Rightarrow> (Inl e, c, s)
           | Inr False \<Rightarrow>
               (bindE (state_of V row) (\<lambda>st. Inr \<lparr>oc_candidate = ar_candidate a, oc_state = st, oc_regeneration = None\<rparr>), c, s)
           | Inr True \<Rightarrow>
               (case (if ar_decision a = Withdraw then withdraw_candidate V a row c else approve_candidate V a row c) of
                  (Inl e, c1) \<Rightarrow> (Inl e, c1, s)
                | (Inr _, c1) \<Rightarrow>
                    (case source_manifest_of V row of
                       Inl e \<Rightarrow> (Inl e, c1, s)
                     | Inr raw_id \<Rightarrow>
                         (case regenerate_approved V S True (Some raw_id) (ar_decided_at a) c1 s of
                            (Inl e, c2, s2) \<Rightarrow> (Inl e, c2, s2)
                          | (Inr g, c2, s2) \<Rightarrow>
                              (Inr \<lparr>oc_candidate = ar_candidate a,
                                    oc_state = (if ar_decision a = Withdraw then Withdrawn else Approved),
                                    oc_regeneration = Some g\<rparr>, c2, s2))))))"

definition refusal_entry :: "review_env \<Rightarrow> approval_result \<Rightarrow> string \<Rightarrow> doc" where
  "refusal_entry V a code =
     [(''state'', VStr ''REFUSED''), (''reason_code'', VStr code), (''candidate_id'', VStr (ar_candidate a)),
      (''delivery_id'', VStr (ar_delivery a)), (''envelope_hash'', VStr (envelope_hash V a)), (''audit_id'', VStr (ar_audit a)),
      (''aggregate_sequence'', VInt (ar_sequence a)), (''recorded_at'', VStr (iso_utc (ar_decided_at a)))]"

definition recorded_refusal :: "review_env \<Rightarrow> approval_result \<Rightarrow> string \<Rightarrow> pyval \<Rightarrow> bool res" where
  "recorded_refusal V a code e =
     all_of [is_refused e, bindE (entry_get e ''reason_code'') (\<lambda>v. Inr (v = VStr code)),
       bindE (entry_get e ''delivery_id'') (\<lambda>v. Inr (v = VStr (ar_delivery a))),
       bindE (entry_get e ''envelope_hash'') (\<lambda>v. Inr (v = VStr (envelope_hash V a)))]"

definition refusal_body :: "review_env \<Rightarrow> approval_result \<Rightarrow> string \<Rightarrow> local_catalog \<Rightarrow> unit res \<times> local_catalog" where
  "refusal_body V a code c =
     (case bindE (action_rows V c) (find_row (re_str V) ''id'' (ar_candidate a)) of
        Inl e \<Rightarrow> (Inl e, c)
      | Inr None \<Rightarrow> (Inr (), c)
      | Inr (Some row) \<Rightarrow>
          (case bindE (terms_document row) (\<lambda>d. bindE (history_of d) (\<lambda>h.
                  bindE (anyE (recorded_refusal V a code) h) (\<lambda>known. Inr (d, h, known)))) of
             Inl e \<Rightarrow> (Inl e, c)
           | Inr (d, h, known) \<Rightarrow>
               if known then (Inr (), c)
               else upsert (re_env V) (re_str V) CORPORATE_ACTIONS
                      (as_record_of (dset ''terms_document''
                         (VMap (dset ''review_history'' (VList (h @ [VMap (refusal_entry V a code)])) d)) row)) c))"

text \<open>A transaction whose body also writes objects: the object store is not rolled back.\<close>

definition with_objects ::
  "review_env \<Rightarrow> (local_catalog \<Rightarrow> 's \<Rightarrow> 'r res \<times> local_catalog \<times> 's) \<Rightarrow> local_catalog \<Rightarrow> 's \<Rightarrow> 'r res \<times> local_catalog \<times> 's" where
  "with_objects V body c s =
     (case transaction (re_env V) (re_str V) (\<lambda>c1. case body c1 s of (r, c2, _) \<Rightarrow> (r, c2)) c of
        (r, c') \<Rightarrow> (r, c', if lc_snapshot c = None then (case body (begun c) s of (_, _, s') \<Rightarrow> s') else s))"

definition attempt_result ::
  "review_env \<Rightarrow> 's service \<Rightarrow> approval_result \<Rightarrow> local_catalog \<Rightarrow> 's \<Rightarrow> outcome res \<times> local_catalog \<times> 's" where
  "attempt_result V S a c s =
     (case (case sv_verifier S of None \<Rightarrow> refuse ''APPROVAL_PROVIDER_UNWIRED'' | Some w \<Rightarrow> verify_result w a) of
        Inl e \<Rightarrow> (Inl e, c, s)
      | Inr _ \<Rightarrow>
          if sv_regenerator S = None then (Inl RegeneratorNotConfiguredError, c, s)
          else with_objects V (apply_verified V S a) c s)"

definition apply_approval_result ::
  "review_env \<Rightarrow> 's service \<Rightarrow> approval_result \<Rightarrow> local_catalog \<Rightarrow> 's \<Rightarrow> outcome res \<times> local_catalog \<times> 's" where
  "apply_approval_result V S a c s =
     (case attempt_result V S a c s of
        (Inl (ApprovalRefusedError code), c1, s1) \<Rightarrow>
          (case transaction (re_env V) (re_str V) (refusal_body V a code) c1 of
             (Inl e, c2) \<Rightarrow> (Inl e, c2, s1) | (Inr _, c2) \<Rightarrow> (refuse code, c2, s1))
      | other \<Rightarrow> other)"

text \<open>\<open>BackendRelayApprovalConsumer.apply\<close>\<close>

definition relay_apply ::
  "review_env \<Rightarrow> 's service \<Rightarrow> doc \<Rightarrow> local_catalog \<Rightarrow> 's \<Rightarrow> doc res \<times> local_catalog \<times> 's" where
  "relay_apply V S payload c s =
     (case approval_from_mapping V payload of
        Inl e \<Rightarrow> (Inl e, c, s)
      | Inr a \<Rightarrow>
          (case apply_approval_result V S a c s of
             (Inl e, c1, s1) \<Rightarrow> (Inl e, c1, s1)
           | (Inr o', c1, s1) \<Rightarrow>
               (Inr [(''candidateId'', VStr (oc_candidate o')), (''state'', VStr (state_text (oc_state o'))),
                     (''regenerated'', VBool (oc_regeneration o' \<noteq> None))], c1, s1)))"

section \<open>What a decision leaves\<close>

lemma same_elsewhere_records:
  "same_elsewhere t c c' \<Longrightarrow> t' \<noteq> t \<Longrightarrow> records E f c' t' w = records E f c t' w"
  by (cases "path_of t'") (auto simp: same_elsewhere_def records_def)

lemma with_objects_raises:
  assumes "with_objects V body c s = (Inl e, c', s')" and "lc_snapshot c = None"
  shows "same_files c c' \<and> lc_snapshot c' = None"
proof -
  have run: "transaction (re_env V) (re_str V) (\<lambda>c1. case body c1 s of (r, c2, _) \<Rightarrow> (r, c2)) c = (Inl e, c')"
    using assms(1) by (simp add: with_objects_def split: prod.splits)
  show ?thesis using run assms(2) by (rule transaction_outcome) simp_all
qed

lemma attempt_raises:
  "attempt_result V S a c s = (Inl e, c', s') \<Longrightarrow> lc_snapshot c = None \<Longrightarrow> same_files c c' \<and> lc_snapshot c' = None"
  by (auto simp: attempt_result_def same_files_def split: sum.splits if_splits dest!: with_objects_raises)

lemma apply_unrefused:
  "attempt_result V S a c s = (r, c1, s1) \<Longrightarrow> \<nexists>code. r = Inl (ApprovalRefusedError code) \<Longrightarrow>
   apply_approval_result V S a c s = (r, c1, s1)"
  by (cases r; cases "projl r") (auto simp: apply_approval_result_def)

lemma refusal_body_elsewhere: "refusal_body V a code c = (r, c') \<Longrightarrow> same_elsewhere CORPORATE_ACTIONS c c'"
  by (auto simp: refusal_body_def dest: upsert_elsewhere split: sum.splits option.splits prod.splits if_splits)

lemma begun_records: "records E f (begun c) t w = records E f c t w"
  by (rule same_files_records) (simp add: same_files_def begun_def)

lemma files_only_records: "records E f (c\<lparr>lc_snapshot := x, lc_touched := y\<rparr>) t w = records E f c t w"
  by (simp add: records_def)

lemma refusal_recorded:
  assumes "transaction (re_env V) (re_str V) (refusal_body V a code) c = (r, c')" and "lc_snapshot c = None"
  shows "case r of
      Inl _ \<Rightarrow> \<forall>t w. records (re_env V) (re_str V) c' t w = records (re_env V) (re_str V) c t w
    | Inr _ \<Rightarrow> \<forall>t w. t \<noteq> CORPORATE_ACTIONS \<longrightarrow> records (re_env V) (re_str V) c' t w = records (re_env V) (re_str V) c t w"
  using assms
proof (rule transaction_outcome)
  fix x c1
  assume "r = Inr x" "refusal_body V a code (begun c) = (Inr x, c1)" "c' = c1\<lparr>lc_snapshot := None, lc_touched := []\<rparr>"
  then show ?thesis
    using same_elsewhere_records[OF refusal_body_elsewhere] by (auto simp: files_only_records begun_records)
qed (auto simp: same_files_records)


section \<open>Redelivery\<close>

definition accepted_delivery :: "approval_result \<Rightarrow> pyval \<Rightarrow> bool" where
  "accepted_delivery a e \<longleftrightarrow>
     (case e of VMap d \<Rightarrow> dget_none d ''delivery_id'' = VStr (ar_delivery a) \<and> dget_none d ''state'' \<noteq> VStr ''REFUSED'' | _ \<Rightarrow> False)"

lemma delivered_before_found: "e \<in> set h \<Longrightarrow> accepted_delivery a e \<Longrightarrow> delivered_before V a h \<noteq> Inr None"
proof (induction h)
  case (Cons x xs)
  then show ?case
    by (auto simp: accepted_delivery_def entry_get_def is_refused_def bindE_def split: sum.splits pyval.splits if_splits)
qed simp

lemma admit_result_redelivered:
  assumes "terms_document row = Inr d" "history_of d = Inr h" "e \<in> set h" "accepted_delivery a e"
  shows "admit_result V a c row \<noteq> Inr True"
  using assms(1,2) delivered_before_found[OF assms(3,4), of V]
  by (cases "delivered_before V a h") (auto simp: admit_result_def refuse_def split: option.splits bool.splits)

lemma apply_verified_redelivered:
  assumes row: "row_for_record_id V c (ar_candidate a) = Inr row"
    and h: "terms_document row = Inr d" "history_of d = Inr h" "e \<in> set h" "accepted_delivery a e"
  obtains r where "apply_verified V S a c s = (r, c, s)" and "case r of Inl _ \<Rightarrow> True | Inr o' \<Rightarrow> oc_regeneration o' = None"
proof (cases "admit_result V a c row")
  case (Inl x)
  then show ?thesis using that[of "Inl x"] row by (simp add: apply_verified_def)
next
  case (Inr b)
  then have "\<not> b" using admit_result_redelivered[OF h, of V c] by (cases b) auto
  then show ?thesis
    using Inr row by (intro that[of "bindE (state_of V row) (\<lambda>st. Inr \<lparr>oc_candidate = ar_candidate a, oc_state = st, oc_regeneration = None\<rparr>)"])
      (auto simp: apply_verified_def split: sum.splits)
qed

lemma with_objects_idle:
  assumes body: "body (begun c) s = (r0, begun c, s)" and idle: "lc_snapshot c = None"
    and run: "with_objects V body c s = (r, c', s')"
  shows "s' = s \<and> same_files c c' \<and> lc_snapshot c' = None \<and> (\<forall>x. r = Inr x \<longrightarrow> r0 = Inr x)"
proof -
  obtain r1 where t: "transaction (re_env V) (re_str V) (\<lambda>c1. case body c1 s of (r, c2, _) \<Rightarrow> (r, c2)) c = (r1, c')"
      and r: "r = r1" "s' = s"
    using run body idle by (auto simp: with_objects_def split: prod.splits)
  from t idle show ?thesis
    by (rule transaction_outcome) (use body r in \<open>auto simp: same_files_def begun_def\<close>)
qed

lemma attempt_redelivered:
  assumes body: "apply_verified V S a (begun c) s = (r0, begun c, s)" and idle: "lc_snapshot c = None"
    and run: "attempt_result V S a c s = (r, c', s')"
  shows "s' = s \<and> same_files c c' \<and> lc_snapshot c' = None \<and> (\<forall>x. r = Inr x \<longrightarrow> r0 = Inr x)"
  using run idle with_objects_idle[where body = "apply_verified V S a", OF body idle, of V r c' s']
  by (auto simp: attempt_result_def same_files_def split: sum.splits if_splits)

text \<open>C7: An accepted delivery never takes effect twice. Once the history of the candidate holds an entry of
  the delivery that is not a refusal, applying a result of that delivery again, with whatever content, leaves
  the object store alone and every table but the corporate actions as it was; if it returns, it regenerated
  nothing and not even the corporate actions changed.\<close>

theorem accepted_delivery_never_repeats:
  assumes row: "row_for_record_id V c (ar_candidate a) = Inr row"
    and h: "terms_document row = Inr d" "history_of d = Inr h" "e \<in> set h" "accepted_delivery a e"
    and idle: "lc_snapshot c = None" and run: "apply_approval_result V S a c s = (r, c', s')"
  shows "s' = s \<and>
    (\<forall>t w. t \<noteq> CORPORATE_ACTIONS \<longrightarrow> records (re_env V) (re_str V) c' t w = records (re_env V) (re_str V) c t w) \<and>
    (\<forall>o'. r = Inr o' \<longrightarrow> oc_regeneration o' = None \<and>
       (\<forall>t w. records (re_env V) (re_str V) c' t w = records (re_env V) (re_str V) c t w))"
proof -
  have same_row: "row_for_record_id V (begun c) (ar_candidate a) = Inr row"
    using row by (simp add: row_for_record_id_def action_rows_def begun_records)
  obtain r0 where body: "apply_verified V S a (begun c) s = (r0, begun c, s)" "case r0 of Inl _ \<Rightarrow> True | Inr o' \<Rightarrow> oc_regeneration o' = None"
    by (rule apply_verified_redelivered[OF same_row h, where S = S and s = s], rule that)
  obtain r1 c1 s1 where att: "attempt_result V S a c s = (r1, c1, s1)" by (metis surj_pair)
  note first = attempt_redelivered[OF body(1) idle att]
  show ?thesis
  proof (cases "\<exists>code. r1 = Inl (ApprovalRefusedError code)")
    case True
    then obtain code where r1: "r1 = Inl (ApprovalRefusedError code)" by blast
    obtain x c2 where rec: "transaction (re_env V) (re_str V) (refusal_body V a code) c1 = (x, c2)" by (metis surj_pair)
    have out: "c' = c2" "s' = s1" "\<exists>e'. r = Inl e'"
      using run att rec by (auto simp: apply_approval_result_def r1 refuse_def split: sum.splits)
    show ?thesis using refusal_recorded[OF rec] out first by (cases x) (auto simp: same_files_records)
  next
    case False
    then have "r = r1" "c' = c1" "s' = s1" using apply_unrefused[OF att] run by simp_all
    then show ?thesis using first body(2) same_files_records[of c c1] by auto
  qed
qed

section \<open>Approved actions and decisions of administrators\<close>

lemma concat_skips_empty:
  "mapE f xs = Inr ls \<Longrightarrow> (\<And>x y. x \<in> set xs \<Longrightarrow> f x = Inr y \<Longrightarrow> \<not> P x \<Longrightarrow> y = []) \<Longrightarrow>
   \<exists>ls'. mapE f (filter P xs) = Inr ls' \<and> concat ls' = concat ls"
proof (induction xs arbitrary: ls)
  case (Cons x xs)
  then obtain y ys where y: "f x = Inr y" "mapE f xs = Inr ys" "ls = y # ys" by auto
  moreover obtain ls' where "mapE f (filter P xs) = Inr ls'" "concat ls' = concat ys" using Cons y(2) by (metis list.set_intros(2))
  ultimately show ?case using Cons.prems(2)[of x y] by auto
qed simp

text \<open>C17: Only an approval makes an action count. When the approved actions of a table can be read, they are
  those of the table without the rows that are pending, rejected, withdrawn or superseded.\<close>

theorem only_approved_actions_count:
  assumes "approved_actions_of V rows = Inr actions"
  shows "approved_actions_of V (filter (\<lambda>r. state_of V r = Inr Approved) rows) = Inr actions"
proof -
  obtain ls where ls: "mapE (approved_of V) rows = Inr ls" "actions = sort_key aa_effective (concat ls)"
    using assms by (auto simp: approved_actions_of_def)
  obtain ls' where "mapE (approved_of V) (filter (\<lambda>r. state_of V r = Inr Approved) rows) = Inr ls'" "concat ls' = concat ls"
    using concat_skips_empty[OF ls(1), of "\<lambda>r. state_of V r = Inr Approved"]
    by (fastforce simp: approved_of_def split: if_splits)
  then show ?thesis using ls(2) by (simp add: approved_actions_of_def)
qed

lemma transition_elsewhere: "transition V row a t c = (r, c') \<Longrightarrow> same_elsewhere CORPORATE_ACTIONS c c'"
  by (auto simp: transition_def dest: upsert_elsewhere split: sum.splits)

lemma admitted_state:
  "admit_decision V S a c = Inr (row, current) \<Longrightarrow> current = ReviewRequired \<or> current = for_decision (ad_decision a)"
  by (auto simp: admit_decision_def)

lemma for_decision_rejected [simp]: "for_decision d = Rejected \<longleftrightarrow> d = Reject"
  by (cases d) (simp_all add: for_decision_def)


text \<open>A withdrawal of a pending candidate, by an administrator of a service without a regenerator, raises
  \<open>AssertionError\<close> after the new state has been written: only an approval is refused up front.\<close>

theorem withdrawal_half_applied:
  assumes "admit_decision V S a c = Inr (row, ReviewRequired)" and "ad_decision a = Withdraw" and "sv_regenerator S = None"
    and "transition V row a Withdrawn c = (Inr (), c1)"
  shows "apply_decision V S a c s = (Inl AssertionError, c1, s)"
  using assms by (simp add: apply_decision_def for_decision_def regenerate_approved_def)

section \<open>A concrete review\<close>

definition action_row :: "string \<Rightarrow> string \<Rightarrow> pyval list \<Rightarrow> doc" where
  "action_row i st history =
     [(''action_type'', VStr ''STOCK_SPLIT''), (''created_at'', VStr ''1970-01-01T00:00:00Z''), (''effective_at'', VStr ''1970-01-01T00:00:00Z''),
      (''id'', VStr i), (''instrument_id'', VStr ''I''), (''provider_event_key'', VStr i), (''source_manifest_id'', VStr ''RAW1''),
      (''supersedes_action_id'', VNone),
      (''terms_document'', VMap [(''candidate_id'', VStr i), (''effective_date'', VStr ''1970-01-01''), (''event_type'', VStr ''STOCK_SPLIT''),
         (''review'', VMap [(''state'', VStr st)]), (''review_history'', VList history),
         (''terms'', VMap [(''from_shares'', VInt 1), (''to_shares'', VInt 2)]), (''ticker'', VStr ''T'')]),
      (''terms_hash'', VStr ''h'')]"

definition accepted_entry :: pyval where
  "accepted_entry = VMap [(''aggregate_sequence'', VInt 1), (''delivery_id'', VStr ''D''), (''envelope_hash'', VStr ''h''), (''state'', VStr ''APPROVED'')]"

definition review_catalog :: local_catalog where
  "review_catalog = new_catalog\<lparr>lc_files := [(''corporate-actions.jsonl'',
     [action_row ''P'' ''REVIEW_REQUIRED'' [], action_row ''Q'' ''APPROVED'' [accepted_entry]])]\<rparr>"

definition unwired_service :: "unit service" where
  "unwired_service = \<lparr>sv_regenerator = None, sv_raw_manifest = None, sv_adjusted_feed = ''G'', sv_verifier = None\<rparr>"

definition approval_of :: "string \<Rightarrow> approval_result" where
  "approval_of i = \<lparr>ar_candidate = i, ar_decision = Approve, ar_content_hash = replicate 64 (CHR ''a''),
     ar_evidence = [replicate 64 (CHR ''b'')], ar_actor = ''X'', ar_audit = ''Y'',
     ar_permission = ''Z'', ar_schema = ''1'', ar_decided_at = 0, ar_delivery = ''D'', ar_sequence = 1, ar_supersedes = None, ar_rationale = []\<rparr>"

definition admin_of :: "decision \<Rightarrow> admin_decision" where
  "admin_of d = \<lparr>ad_candidate = ''P'', ad_decision = d, ad_decided_by = ''X'', ad_decided_at = 0, ad_rationale = ''r''\<rparr>"

lemma admin_of_simps: "ad_decision (admin_of d) = d" "ad_candidate (admin_of d) = ''P''"
  by (simp_all add: admin_of_def)

definition pending_row :: doc where
  "pending_row = action_row ''P'' ''REVIEW_REQUIRED'' []"

lemma review_rows: "action_rows idle_review review_catalog = Inr (snd (hd (lc_files review_catalog)))"
  unfolding action_rows_def by code_simp

lemma review_admitted:
  "admit_decision idle_review unwired_service (admin_of Reject) review_catalog = Inr (pending_row, ReviewRequired)"
  "admit_decision idle_review unwired_service (admin_of Withdraw) review_catalog = Inr (pending_row, ReviewRequired)"
  unfolding admit_decision_def review_rows by code_simp+

lemma review_transitions:
  "fst (transition idle_review pending_row (admin_of Reject) Rejected review_catalog) = Inr ()"
  "fst (transition idle_review pending_row (admin_of Withdraw) Withdrawn review_catalog) = Inr ()"
  by code_simp+

definition wired_service :: "unit service" where
  "wired_service = \<lparr>sv_regenerator = Some echo_regenerator, sv_raw_manifest = Some ''RAW1'', sv_adjusted_feed = ''G'',
     sv_verifier = Some \<lparr>vf_active = (\<lambda>_. True), vf_matches = (\<lambda>_. True), vf_permission = ''Z'', vf_schema = ''1''\<rparr>\<rparr>"

lemma review_idle: "lc_snapshot review_catalog = None"
  by (simp add: review_catalog_def new_catalog_def)

theorem withdrawal_half_applied_witness:
  "\<exists>c1. apply_decision idle_review unwired_service (admin_of Withdraw) review_catalog () = (Inl AssertionError, c1, ()) \<and>
     bindE (action_rows idle_review c1) (mapE (state_of idle_review)) = Inr [Withdrawn, Approved]"
proof -
  define c1 where "c1 = snd (transition idle_review pending_row (admin_of Withdraw) Withdrawn review_catalog)"
  have moved: "transition idle_review pending_row (admin_of Withdraw) Withdrawn review_catalog = (Inr (), c1)"
    using review_transitions(2) by (simp add: c1_def prod_eq_iff)
  have "bindE (action_rows idle_review c1) (mapE (state_of idle_review)) = Inr [Withdrawn, Approved]"
    unfolding c1_def by code_simp
  then show ?thesis
    using withdrawal_half_applied[OF review_admitted(2) _ _ moved, of "()"] by (auto simp: admin_of_def unwired_service_def)
qed


theorem accepted_delivery_never_repeats_witness:
  "\<exists>o' c'. apply_approval_result idle_review wired_service (approval_of ''Q'') review_catalog () = (Inr o', c', ()) \<and>
     oc_state o' = Approved \<and> oc_regeneration o' = None \<and>
     records year_env no_str c' CORPORATE_ACTIONS [] = records year_env no_str review_catalog CORPORATE_ACTIONS []"
proof -
  define row where "row = snd (hd (lc_files review_catalog)) ! 1"
  have row: "row_for_record_id idle_review review_catalog (ar_candidate (approval_of ''Q'')) = Inr row"
    unfolding row_def row_for_record_id_def review_rows by code_simp
  have d: "terms_document row = Inr (projr (terms_document row))" unfolding row_def by code_simp
  have h: "history_of (projr (terms_document row)) = Inr [accepted_entry]" unfolding row_def by code_simp
  have e: "accepted_entry \<in> set [accepted_entry]" "accepted_delivery (approval_of ''Q'') accepted_entry"
    by (simp, code_simp)
  obtain r c' s' where run: "apply_approval_result idle_review wired_service (approval_of ''Q'') review_catalog () = (r, c', s')"
    by (metis surj_pair)
  have "map_sum (\<lambda>_. ()) oc_state (fst (apply_approval_result idle_review wired_service (approval_of ''Q'') review_catalog ())) = Inr Approved"
    by code_simp
  then obtain o' where "r = Inr o'" "oc_state o' = Approved" using run by (cases r) auto
  then show ?thesis using run accepted_delivery_never_repeats[OF row d h e review_idle run]
    by (intro exI[of _ o'] exI[of _ c']) (simp add: idle_review_def)
qed

theorem only_approved_actions_count_witness:
  "approved_actions_of idle_review [action_row ''P'' ''REVIEW_REQUIRED'' [], action_row ''Q'' ''APPROVED'' []] =
     Inr [\<lparr>aa_type = ''STOCK_SPLIT'', aa_effective = 0, aa_terms = SplitTerms 1 2\<rparr>] \<and>
   approved_actions_of idle_review
     (filter (\<lambda>r. state_of idle_review r = Inr Approved) [action_row ''P'' ''REVIEW_REQUIRED'' [], action_row ''Q'' ''APPROVED'' []]) =
     Inr [\<lparr>aa_type = ''STOCK_SPLIT'', aa_effective = 0, aa_terms = SplitTerms 1 2\<rparr>]"
proof -
  have "mapE (approved_of idle_review) [action_row ''P'' ''REVIEW_REQUIRED'' [], action_row ''Q'' ''APPROVED'' []] =
     Inr [[], [\<lparr>aa_type = ''STOCK_SPLIT'', aa_effective = 0, aa_terms = SplitTerms 1 2\<rparr>]]" by code_simp
  then have all: "approved_actions_of idle_review [action_row ''P'' ''REVIEW_REQUIRED'' [], action_row ''Q'' ''APPROVED'' []] =
     Inr [\<lparr>aa_type = ''STOCK_SPLIT'', aa_effective = 0, aa_terms = SplitTerms 1 2\<rparr>]"
    by (simp add: approved_actions_of_def)
  show ?thesis using all only_approved_actions_count[OF all] by (rule conjI)
qed


end
