(* ===== verification/Spec2Isabelle.thy ===== *)
theory Spec2Isabelle
  imports Watermark_Ledger Feature_Hashing Realtime_Delivery Redis_Source Catalog_Transactions
    Quality_Detectors Manifest_Watermarks Warmup_Gate Worker_Machine Engine_Publication
    Corporate_Review
begin

text \<open>
  A verification of the market data pipeline under \<open>src/market_pipeline_lib\<close> and of its worker under
  \<open>src/apps\<close>.

  \<^bold>\<open>The program.\<close> Bars arrive from a provider in two ways. Batch jobs download them, write them as
  immutable Parquet objects and publish them as revisions of a dataset (one per feed, layer, resolution and
  year); a realtime path takes bar events from a queue or a stream, holds one revision per bar in memory and
  flushes the rows through the same publication. A catalog stores manifests, objects, lineage, incidents and
  watermarks; every table is examined by quality detectors whose findings become incident rows; a readiness
  gate decides before a session whether yesterday's data may be used; a worker executes commands from a
  queue. The parts meet in the engine: \<open>publish_dataset\<close> calls the detectors, the table operations, the
  object store, the catalog's transaction and the watermark repository, in that order.

  \<^bold>\<open>Values.\<close> A call that may raise returns \<open>exc + 'a\<close>, and a call that also changes state returns the
  state it leaves behind with either. Dictionaries are association lists in insertion order; values of JSON
  documents and of catalog rows are \<open>pyval\<close>; instants are microseconds since the epoch and dates are
  ordinals; integers are unbounded as Python's are, and where a 64-bit sum wraps (\<open>Bar_Tables.wrap64\<close>) it
  is written out. Prices of the realtime path are rationals with the one rounding step of
  \<open>Numeric.thy\<close>; prices of the tables are \<open>fval\<close>, a rational, an infinity or NaN.

  \<^bold>\<open>What is a parameter.\<close> Code that is not under \<open>src/\<close> is an argument. \<open>Contracts.env\<close> holds
  the time zone database, the ISO parsers, UUIDs and the digest head; \<open>Codec.codec_laws\<close> says what is used of
  them (parsing the text that was written gives the value again). The messages of exceptions and
  incidents, \<open>str\<close> of a float, SHA-256, \<open>json.dumps\<close>, pyarrow's file bytes and memory sizes, the trading
  calendar, the clock, boto3 and Redis are fields of the records \<open>world\<close>, \<open>s3_client\<close>,
  \<open>redis_client\<close> and of the functions that take them. Where a property needs a hypothesis about one of them,
  its witness instantiates it.

  \<^bold>\<open>Theories and the code they model.\<close>
  \<^item> \<open>Prelude\<close>, \<open>Calendar\<close>, \<open>Numeric\<close>: results, dictionaries, JSON values, strings; the proleptic
    calendar of \<open>datetime.date\<close> and its inverse; decimals, binary floats.
  \<^item> \<open>Contracts\<close> (\<open>contracts.py\<close>): dataset contracts, the instrument map, partitions and
    shards. A date lies in exactly one half-open partition; a shard is in range and depends on the instrument
    only.
  \<^item> \<open>Tables\<close>, \<open>Codec\<close> (\<open>db/schema_guard.py\<close>, \<open>db/codec.py\<close>): the tables the pipeline may write, and the
    canonical record. Normalising is idempotent; a written row reads back.
  \<^item> \<open>Catalog\<close>, \<open>Catalog_Transactions\<close> (\<open>catalog.py\<close>): the local catalog, a state of files, an open
    transaction's snapshot and its touched keys. Tables are dictionaries by id (\<open>table_view\<close>, the abstraction
    all later proofs use); a transaction is all or nothing and leaves one AVAILABLE manifest per scope.
  \<^item> \<open>Quality\<close>, \<open>Quality_Recording\<close>, \<open>Quality_Detectors\<close> (\<open>quality.py\<close> and \<open>processing.quality_findings\<close>):
    impact scopes, findings, incidents; recording against the interface \<open>incident_recorder\<close>; the detectors,
    related to what they detect (spans are maximal runs, gaps are exactly the missing bars).
  \<^item> \<open>Watermarks\<close>, \<open>Watermark_Ledger\<close>, \<open>Manifest_Watermarks\<close> (\<open>watermarks.py\<close>,
    \<open>manifest_watermarks.py\<close>): positions, the SQL and the in-memory repository as two instances of the interface
    \<open>watermark_store\<close>, the reprocessing ledger and its resumption after a crash, the projection of manifests.
  \<^item> \<open>Bar_Tables\<close> (\<open>processing.py\<close>, \<open>engine._candidate_tables\<close>): sorting, cutting, splitting and
    resampling of bar tables.
  \<^item> \<open>Object_Store\<close> (\<open>storage.py\<close>): the local and the S3 store; the interface \<open>object_store\<close> with
    the local one as its instance; receipts of the S3 store under lost and repeated requests.
  \<^item> \<open>Engine_Publication\<close> (\<open>engine.py\<close>): revisions, the writing of parts, the carried objects, the one
    transaction of a publication, the watermark it projects, and the run it belongs to.
  \<^item> \<open>Corporate_Actions\<close>, \<open>Corporate_Regeneration\<close> (\<open>corporate_actions/adjustment.py\<close>,
    \<open>corporate_actions/regeneration.py\<close>, the terms of \<open>corporate_action_research.py\<close>): decimal arithmetic with 28
    digits and its monotonicity, the factors of splits and dividends, the adjusted series, and its publication as a
    new revision over the catalog. \<open>Corporate_Review\<close> (\<open>corporate_actions/decisions.py\<close>, \<open>service.py\<close>,
    \<open>consumer.py\<close>): the review that decides which actions are approved, its refusals, and its redeliveries.
  \<^item> \<open>Realtime_Event\<close>, \<open>Realtime_Ingestor\<close>, \<open>Realtime_Safety\<close>, \<open>Realtime_Replay\<close>, \<open>Realtime_Flush\<close>
    (\<open>realtime_ingest.py\<close>, first half): parsing, submission, retention, flushing. \<open>Realtime_Consumer\<close>,
    \<open>Realtime_Delivery\<close>: its consumer and the SQS adapter. \<open>Redis_Source\<close> (\<open>redis_ingest.py\<close>): the stream adapter.
  \<^item> \<open>Feature_Hashing\<close> (\<open>features/hashing.py\<close>): the grammar of feature versions.
  \<^item> \<open>Warmup_Gate\<close> (\<open>warmup_gate.py\<close>, \<open>realtime_warmup.py\<close>): the readiness verdict and what it
    quarantines.
  \<^item> \<open>Worker_Queue\<close>, \<open>Worker_Loop\<close>, \<open>Worker_Machine\<close> (\<open>apps/common\<close>, \<open>apps/pipeline_worker\<close>): the
    idempotency store, the in-process queue, the command parser and executor, the loop, and the step relation of
    queue and worker whose reachable states lose no message.

  \<^bold>\<open>Interfaces.\<close> A locale states a contract once and its client's lemmas are proved in it:
  \<open>watermark_store\<close> (interpreted by the in-memory and the SQL repository), \<open>incident_recorder\<close> (by
  the catalog), \<open>object_store\<close> (by the local store). Where the code is given callables, as the ingestor and
  the consumer are, the model takes records of operations.

  \<^bold>\<open>Groups of lemmas.\<close> Per component: a well-formedness invariant and its preservation
  (\<open>table_ok\<close>, \<open>block_inv\<close>, the ingestor's \<open>ok\<close>, the machine's reachability invariants); the
  functional behaviour on every branch; equivalence with a reference definition (gaps, spans, the
  dictionary view of a table, parts as a packing of timestamp blocks); refinement (SQL against memory);
  round trips; and what the errors leave behind. Several theorems describe behaviour the code does not mean to
  have: publishing again under the latest revision number, a day update of an annual dataset, comparing
  revisions of different years, a transaction over a feed-wide and an instrument manifest, the adjustment
  of every instrument by every approved action, and the withdrawal that is recorded before it fails.

  \<^bold>\<open>Loops.\<close> Loops over a list are structural. \<open>candidate_loop\<close> has a measure. The consumer's
  \<open>drain\<close> and the worker's \<open>consume\<close> take fuel and are proved to return when the source eventually stays
  empty; \<open>wait_loop\<close>, which waits on a clock, is a partial function proved to return on every clock that
  passes each point.

  \<^bold>\<open>Not modelled.\<close> The jobs of the engine above \<open>publish_dataset\<close> (collection, backfill, migration,
  derivation, the daily increment) move data frames between Parquet files with pandas and pyarrow. The Postgres
  catalog is SQL text over a driver. \<open>cli.py\<close>, \<open>operations.py\<close>, the runtime exports and the applications'
  configuration read environments and files and print; the loader, the Lambda handlers and the collection
  scripts call provider APIs; corporate action research and discovery are HTTP and text scraping; the
  feature calculation, the reference data and the rate limiter are left for later.
\<close>

end
